(* ===== verification/Prelude.thy ===== *)
theory Prelude
  imports Main "HOL-Library.Word"
begin

text \<open>
  What every component of the model shares: the result type of fallible operations, the string
  functions of the Rust standard library the sources call, decimal parsing and printing at a
  machine width, and the collections of rewrite rules the component proofs use.

  A Rust string slice and a Rust byte slice are both modelled as \<open>string\<close>, a list of \<open>char\<close>;
  an Isabelle \<open>char\<close> is one byte. A \<open>str\<close> is therefore its UTF-8 byte sequence, \<open>len()\<close> is
  \<open>length\<close>, and the ASCII delimiters the sources search for are found at the same byte offsets
  as in Rust, since no byte of a multi-byte UTF-8 character is an ASCII byte.
\<close>

unbundle bit_operations_syntax

named_theorems model_defs \<open>definitions a component proof unfolds together\<close>
named_theorems sat_rules \<open>one rule per construct of a fallible operation\<close>
named_theorems res_simps \<open>inversion rules for fallible operations that returned a value\<close>

section \<open>Results\<close>

text \<open>A fallible operation returns \<open>Inl\<close> of an error or \<open>Inr\<close> of a value; \<open>and_then\<close> is
  Rust's question mark followed by the rest of the function.\<close>

definition and_then :: "'e + 'a \<Rightarrow> ('a \<Rightarrow> 'e + 'b) \<Rightarrow> 'e + 'b" where
  "and_then m f = (case m of Inl e \<Rightarrow> Inl e | Inr x \<Rightarrow> f x)"

lemma and_then_simps [simp]:
  "and_then (Inl e) f = Inl e"
  "and_then (Inr x) f = f x"
  by (simp_all add: and_then_def)

lemma and_then_Inr [res_simps]: "and_then m f = Inr y \<longleftrightarrow> (\<exists>x. m = Inr x \<and> f x = Inr y)"
  by (cases m) auto

lemma and_then_Inl [res_simps]:
  "and_then m f = Inl e \<longleftrightarrow> m = Inl e \<or> (\<exists>x. m = Inr x \<and> f x = Inl e)"
  by (cases m) auto

lemma if_Inl_Inr [res_simps]: "(if b then Inl e else m) = Inr y \<longleftrightarrow> \<not> b \<and> m = Inr y"
  by simp

lemma if_Inr_Inl [res_simps]: "(if b then m else Inl e) = Inr y \<longleftrightarrow> b \<and> m = Inr y"
  by simp

lemma and_then_cong [fundef_cong]:
  "m = m' \<Longrightarrow> (\<And>x. m' = Inr x \<Longrightarrow> f x = g x) \<Longrightarrow> and_then m f = and_then m' g"
  by (cases m') auto

text \<open>What every value of a fallible operation satisfies, with one rule per construct: the
  proofs about the configuration parser walk through its code with these rules.\<close>

definition res_sat :: "'e + 'a \<Rightarrow> ('a \<Rightarrow> bool) \<Rightarrow> bool" where
  "res_sat m P \<longleftrightarrow> (\<forall>x. m = Inr x \<longrightarrow> P x)"

lemma res_satD: "res_sat m P \<Longrightarrow> m = Inr x \<Longrightarrow> P x"
  by (simp add: res_sat_def)

lemma res_sat_mono: "res_sat m P \<Longrightarrow> (\<And>x. P x \<Longrightarrow> Q x) \<Longrightarrow> res_sat m Q"
  by (simp add: res_sat_def)

lemma res_sat_conj: "res_sat m P \<Longrightarrow> res_sat m Q \<Longrightarrow> res_sat m (\<lambda>x. P x \<and> Q x)"
  by (simp add: res_sat_def)

lemma res_sat_Inl [sat_rules]: "res_sat (Inl e) P"
  by (simp add: res_sat_def)

lemma res_sat_Inr [sat_rules]: "P x \<Longrightarrow> res_sat (Inr x) P"
  by (simp add: res_sat_def)

lemma res_sat_and_then [sat_rules]:
  "res_sat m (\<lambda>x. res_sat (f x) P) \<Longrightarrow> res_sat (and_then m f) P"
  by (auto simp: res_sat_def and_then_Inr)

lemma res_sat_if [sat_rules]:
  "(b \<Longrightarrow> res_sat m P) \<Longrightarrow> (\<not> b \<Longrightarrow> res_sat n P) \<Longrightarrow> res_sat (if b then m else n) P"
  by simp

lemma res_sat_option [sat_rules]:
  "(x = None \<Longrightarrow> res_sat m P) \<Longrightarrow> (\<And>y. x = Some y \<Longrightarrow> res_sat (f y) P)
   \<Longrightarrow> res_sat (case x of None \<Rightarrow> m | Some y \<Rightarrow> f y) P"
  by (cases x) auto

lemma res_sat_pair [sat_rules]:
  "res_sat (f a b) P \<Longrightarrow> res_sat (case (a, b) of (x, y) \<Rightarrow> f x y) P"
  by simp

lemma res_sat_split:
  "(\<And>a b. x = (a, b) \<Longrightarrow> res_sat (f a b) P) \<Longrightarrow> res_sat (case x of (a, b) \<Rightarrow> f a b) P"
  by (cases x) auto

section \<open>Characters\<close>

definition u8_of :: "char \<Rightarrow> 8 word" where
  "u8_of c = of_char c"

definition chr8 :: "8 word \<Rightarrow> char" where
  "chr8 w = char_of (unat w)"

definition ascii_code :: "char \<Rightarrow> nat" where
  "ascii_code c = of_char c"

definition CR :: char where "CR = CHR 0x0D"
definition LF :: char where "LF = CHR 0x0A"

abbreviation CRLF :: string where "CRLF \<equiv> [CR, LF]"

lemma CR_neq_LF [simp]: "CR \<noteq> LF" "LF \<noteq> CR"
  by (simp_all add: CR_def LF_def)

text \<open>\<open>u8::to_ascii_lowercase\<close>, \<open>u8::to_ascii_uppercase\<close> and the string functions built on them.\<close>

definition char_lower :: "char \<Rightarrow> char" where
  "char_lower c = (if 65 \<le> ascii_code c \<and> ascii_code c \<le> 90 then char_of (ascii_code c + 32) else c)"

definition char_upper :: "char \<Rightarrow> char" where
  "char_upper c = (if 97 \<le> ascii_code c \<and> ascii_code c \<le> 122 then char_of (ascii_code c - 32) else c)"

definition to_ascii_lowercase :: "string \<Rightarrow> string" where
  "to_ascii_lowercase = map char_lower"

definition to_ascii_uppercase :: "string \<Rightarrow> string" where
  "to_ascii_uppercase = map char_upper"

definition eq_ignore_ascii_case :: "string \<Rightarrow> string \<Rightarrow> bool" where
  "eq_ignore_ascii_case a b \<longleftrightarrow> to_ascii_lowercase a = to_ascii_lowercase b"

lemma eq_ignore_refl [simp]: "eq_ignore_ascii_case a a"
  by (simp add: eq_ignore_ascii_case_def)

lemma eq_ignore_sym: "eq_ignore_ascii_case a b \<Longrightarrow> eq_ignore_ascii_case b a"
  by (simp add: eq_ignore_ascii_case_def)

lemma eq_ignore_trans:
  "eq_ignore_ascii_case a b \<Longrightarrow> eq_ignore_ascii_case b c \<Longrightarrow> eq_ignore_ascii_case a c"
  by (simp add: eq_ignore_ascii_case_def)

lemma char_lower_idem [simp]: "char_lower (char_lower c) = char_lower c"
proof (cases "65 \<le> ascii_code c \<and> ascii_code c \<le> 90")
  case True
  then have "ascii_code (char_lower c) = ascii_code c + 32"
    by (simp add: char_lower_def ascii_code_def of_char_of)
  with True show ?thesis by (simp add: char_lower_def)
next
  case False
  then have "char_lower c = c" by (auto simp: char_lower_def)
  then show ?thesis by simp
qed

lemma length_to_ascii_lowercase [simp]: "length (to_ascii_lowercase s) = length s"
  by (simp add: to_ascii_lowercase_def)

lemma to_ascii_lowercase_idem [simp]:
  "to_ascii_lowercase (to_ascii_lowercase s) = to_ascii_lowercase s"
  by (simp add: to_ascii_lowercase_def o_def)

lemma to_ascii_lowercase_append [simp]:
  "to_ascii_lowercase (s @ t) = to_ascii_lowercase s @ to_ascii_lowercase t"
  by (simp add: to_ascii_lowercase_def)

lemma eq_ignore_length: "eq_ignore_ascii_case a b \<Longrightarrow> length a = length b"
  unfolding eq_ignore_ascii_case_def by (metis length_to_ascii_lowercase)

definition is_ascii_whitespace :: "char \<Rightarrow> bool" where
  "is_ascii_whitespace c \<longleftrightarrow>
     c = CHR 0x20 \<or> c = CHR 0x09 \<or> c = CHR 0x0A \<or> c = CHR 0x0C \<or> c = CHR 0x0D"

definition is_ascii_digit :: "char \<Rightarrow> bool" where
  "is_ascii_digit c \<longleftrightarrow> 48 \<le> ascii_code c \<and> ascii_code c \<le> 57"

definition is_ascii_alphanumeric :: "char \<Rightarrow> bool" where
  "is_ascii_alphanumeric c \<longleftrightarrow> is_ascii_digit c \<or>
     65 \<le> ascii_code c \<and> ascii_code c \<le> 90 \<or> 97 \<le> ascii_code c \<and> ascii_code c \<le> 122"

section \<open>String slices\<close>

definition starts_with :: "string \<Rightarrow> string \<Rightarrow> bool" where
  "starts_with s p \<longleftrightarrow> take (length p) s = p"

definition ends_with :: "string \<Rightarrow> string \<Rightarrow> bool" where
  "ends_with s p \<longleftrightarrow> length p \<le> length s \<and> drop (length s - length p) s = p"

definition strip_prefix :: "string \<Rightarrow> string \<Rightarrow> string option" where
  "strip_prefix s p = (if starts_with s p then Some (drop (length p) s) else None)"

definition strip_suffix :: "string \<Rightarrow> string \<Rightarrow> string option" where
  "strip_suffix s p = (if ends_with s p then Some (take (length s - length p) s) else None)"

lemma starts_with_append [simp]: "starts_with (p @ s) p"
  by (simp add: starts_with_def)

lemma starts_with_iff: "starts_with s p \<longleftrightarrow> (\<exists>r. s = p @ r)"
  unfolding starts_with_def by (metis append_eq_conv_conj append_take_drop_id)

lemma strip_prefix_Some [res_simps]: "strip_prefix s p = Some r \<longleftrightarrow> s = p @ r"
  by (auto simp: strip_prefix_def starts_with_iff)

lemma strip_prefix_None: "strip_prefix s p = None \<longleftrightarrow> \<not> starts_with s p"
  by (simp add: strip_prefix_def)

lemma strip_suffix_Some [res_simps]: "strip_suffix s p = Some r \<longleftrightarrow> s = r @ p"
proof
  assume "strip_suffix s p = Some r"
  then have "drop (length s - length p) s = p" "r = take (length s - length p) s"
    by (auto simp: strip_suffix_def ends_with_def split: if_splits)
  then show "s = r @ p" by (metis append_take_drop_id)
next
  assume "s = r @ p"
  then show "strip_suffix s p = Some r" by (simp add: strip_suffix_def ends_with_def)
qed

lemma ends_with_iff: "ends_with s p \<longleftrightarrow> (\<exists>r. s = r @ p)"
proof -
  have "ends_with s p \<longleftrightarrow> (\<exists>r. strip_suffix s p = Some r)"
    by (simp add: strip_suffix_def)
  then show ?thesis by (simp add: strip_suffix_Some)
qed

text \<open>\<open>str::contains\<close> for a string pattern and \<open>str::find\<close> for a character.\<close>

fun str_contains :: "string \<Rightarrow> string \<Rightarrow> bool" where
  "str_contains [] p = (p = [])"
| "str_contains (c # s) p = (starts_with (c # s) p \<or> str_contains s p)"

lemma str_contains_iff: "str_contains s p \<longleftrightarrow> (\<exists>a b. s = a @ p @ b)"
proof (induction s)
  case Nil
  then show ?case by simp
next
  case (Cons c s)
  show ?case
    by (auto simp: Cons.IH starts_with_iff Cons_eq_append_conv)
qed

fun index_of :: "char \<Rightarrow> string \<Rightarrow> nat option" where
  "index_of c [] = None"
| "index_of c (x # xs) = (if x = c then Some 0 else map_option Suc (index_of c xs))"

lemma index_of_None [simp]: "index_of c s = None \<longleftrightarrow> c \<notin> set s"
  by (induction s) auto

lemma index_of_Some:
  "index_of c s = Some i \<longleftrightarrow> i < length s \<and> s ! i = c \<and> c \<notin> set (take i s)"
proof (induction s arbitrary: i)
  case Nil
  then show ?case by simp
next
  case (Cons x s)
  show ?case by (cases i) (auto simp: Cons.IH)
qed

lemma index_of_append: "c \<notin> set a \<Longrightarrow> index_of c (a @ c # b) = Some (length a)"
  by (induction a) auto

lemma index_of_split:
  "index_of c s = Some i \<Longrightarrow> s = take i s @ c # drop (Suc i) s \<and> c \<notin> set (take i s)"
  by (auto simp: index_of_Some id_take_nth_drop)

text \<open>\<open>str::split\<close> on a character: always at least one piece.\<close>

fun split_on :: "char \<Rightarrow> string \<Rightarrow> string list" where
  "split_on c [] = [[]]"
| "split_on c (x # xs) =
     (if x = c then [] # split_on c xs
      else (case split_on c xs of [] \<Rightarrow> [[x]] | p # ps \<Rightarrow> (x # p) # ps))"

lemma split_on_nonempty [simp]: "split_on c s \<noteq> []"
  by (induction s) (auto split: list.splits)

lemma split_on_pieces: "p \<in> set (split_on c s) \<Longrightarrow> c \<notin> set p"
proof (induction s arbitrary: p)
  case Nil
  then show ?case by simp
next
  case (Cons x s)
  then show ?case by (fastforce split: if_splits list.splits)
qed

lemma hd_split_on: "hd (split_on c s) = takeWhile (\<lambda>x. x \<noteq> c) s"
proof (induction s)
  case Nil
  then show ?case by simp
next
  case (Cons x s)
  then show ?case
    by (cases "split_on c s") (auto simp: split_on_nonempty)
qed

lemma split_on_none: "c \<notin> set s \<Longrightarrow> split_on c s = [s]"
  by (induction s) auto

lemma split_on_append: "c \<notin> set a \<Longrightarrow> split_on c (a @ c # b) = a # split_on c b"
  by (induction a) auto

text \<open>\<open>trim_start_matches\<close> and \<open>trim_end_matches\<close> for a character, and for a string pattern.\<close>

definition trim_start_char :: "char \<Rightarrow> string \<Rightarrow> string" where
  "trim_start_char c s = dropWhile (\<lambda>x. x = c) s"

definition trim_end_char :: "char \<Rightarrow> string \<Rightarrow> string" where
  "trim_end_char c s = rev (dropWhile (\<lambda>x. x = c) (rev s))"

definition trim_matches_char :: "char \<Rightarrow> string \<Rightarrow> string" where
  "trim_matches_char c s = trim_end_char c (trim_start_char c s)"

function trim_start_str :: "string \<Rightarrow> string \<Rightarrow> string" where
  "trim_start_str p s =
     (if p \<noteq> [] \<and> starts_with s p then trim_start_str p (drop (length p) s) else s)"
  by pat_completeness auto
termination
  by (relation "measure (\<lambda>(p, s). length s)") (auto simp: starts_with_iff)

declare trim_start_str.simps [simp del]

lemma set_dropWhile_subset: "set (dropWhile P s) \<subseteq> set s"
  by (induction s) auto

lemma trim_start_char_hd: "s' = trim_start_char c s \<Longrightarrow> s' = [] \<or> hd s' \<noteq> c"
  using hd_dropWhile [of "\<lambda>x. x = c" s] by (auto simp: trim_start_char_def)

lemma set_trim_start_char: "set (trim_start_char c s) \<subseteq> set s"
  by (simp add: trim_start_char_def set_dropWhile_subset)

lemma set_trim_end_char: "set (trim_end_char c s) \<subseteq> set s"
  unfolding trim_end_char_def by (metis set_dropWhile_subset set_rev)

section \<open>Unicode white space and \<open>str::trim\<close>\<close>

text \<open>The characters with the Unicode property \<open>White_Space\<close>, each as its UTF-8 encoding:
  \<open>str::trim\<close> and \<open>split_whitespace\<close> work on characters, so the multi-byte ones are removed too.\<close>

definition white_space :: "string list" where
  "white_space =
     [[CHR 0x09], [CHR 0x0A], [CHR 0x0B], [CHR 0x0C], [CHR 0x0D], [CHR 0x20],
      [CHR 0xC2, CHR 0x85], [CHR 0xC2, CHR 0xA0], [CHR 0xE1, CHR 0x9A, CHR 0x80],
      [CHR 0xE2, CHR 0x80, CHR 0x80], [CHR 0xE2, CHR 0x80, CHR 0x81], [CHR 0xE2, CHR 0x80, CHR 0x82],
      [CHR 0xE2, CHR 0x80, CHR 0x83], [CHR 0xE2, CHR 0x80, CHR 0x84], [CHR 0xE2, CHR 0x80, CHR 0x85],
      [CHR 0xE2, CHR 0x80, CHR 0x86], [CHR 0xE2, CHR 0x80, CHR 0x87], [CHR 0xE2, CHR 0x80, CHR 0x88],
      [CHR 0xE2, CHR 0x80, CHR 0x89], [CHR 0xE2, CHR 0x80, CHR 0x8A], [CHR 0xE2, CHR 0x80, CHR 0xA8],
      [CHR 0xE2, CHR 0x80, CHR 0xA9], [CHR 0xE2, CHR 0x80, CHR 0xAF], [CHR 0xE2, CHR 0x81, CHR 0x9F],
      [CHR 0xE3, CHR 0x80, CHR 0x80]]"

text \<open>The length of the white-space character a string starts with, 0 when it starts with none.\<close>

definition ws_len :: "string \<Rightarrow> nat" where
  "ws_len s = (case find (starts_with s) white_space of None \<Rightarrow> 0 | Some w \<Rightarrow> length w)"

definition ws_len_end :: "string \<Rightarrow> nat" where
  "ws_len_end s = (case find (ends_with s) white_space of None \<Rightarrow> 0 | Some w \<Rightarrow> length w)"

function trim_start :: "string \<Rightarrow> string" where
  "trim_start s = (if s = [] \<or> ws_len s = 0 then s else trim_start (drop (ws_len s) s))"
  by pat_completeness auto
termination by (relation "measure length") auto

function trim_end :: "string \<Rightarrow> string" where
  "trim_end s = (if s = [] \<or> ws_len_end s = 0 then s else trim_end (take (length s - ws_len_end s) s))"
  by pat_completeness auto
termination by (relation "measure length") auto

declare trim_start.simps [simp del] trim_end.simps [simp del]

definition str_trim :: "string \<Rightarrow> string" where
  "str_trim s = trim_end (trim_start s)"

lemma set_trim_start: "set (trim_start s) \<subseteq> set s"
proof (induction s rule: trim_start.induct)
  case (1 s)
  then show ?case
    by (subst trim_start.simps) (auto dest: in_set_dropD)
qed

lemma set_trim_end: "set (trim_end s) \<subseteq> set s"
proof (induction s rule: trim_end.induct)
  case (1 s)
  then show ?case
    by (subst trim_end.simps) (auto dest: in_set_takeD)
qed

lemma set_str_trim: "set (str_trim s) \<subseteq> set s"
  unfolding str_trim_def using set_trim_start set_trim_end by blast

lemma ws_len_first: "c \<notin> hd ` set white_space \<Longrightarrow> ws_len (c # s) = 0"
  unfolding ws_len_def white_space_def by (auto simp: starts_with_def)

lemma ws_len_end_last: "c \<notin> last ` set white_space \<Longrightarrow> ws_len_end (s @ [c]) = 0"
proof -
  assume c: "c \<notin> last ` set white_space"
  have "\<not> ends_with (s @ [c]) w" if w: "w \<in> set white_space" for w
  proof
    assume "ends_with (s @ [c]) w"
    moreover have "w \<noteq> []" using w by (auto simp: white_space_def)
    ultimately have "last w = c" by (auto simp: ends_with_iff) (metis last_appendR last_snoc)
    then show False using c w by auto
  qed
  then have "find (ends_with (s @ [c])) white_space = None" by (simp add: find_None_iff)
  then show ?thesis by (simp add: ws_len_end_def)
qed

lemma str_trim_id:
  assumes "c \<notin> hd ` set white_space" "d \<notin> last ` set white_space" "c # s = s' @ [d]"
  shows "str_trim (c # s) = c # s"
proof -
  have "trim_start (c # s) = c # s" by (subst trim_start.simps) (simp add: ws_len_first [OF assms(1)])
  moreover have "trim_end (c # s) = c # s"
    by (subst trim_end.simps) (simp add: assms(3) ws_len_end_last assms(2))
  ultimately show ?thesis by (simp add: str_trim_def)
qed

text \<open>\<open>split_whitespace\<close>: the maximal runs of characters outside white space.\<close>

function split_ws_aux :: "string \<Rightarrow> string \<Rightarrow> string list" where
  "split_ws_aux acc s =
     (if s = [] then (if acc = [] then [] else [rev acc])
      else if ws_len s = 0 then split_ws_aux (hd s # acc) (tl s)
      else (if acc = [] then [] else [rev acc]) @ split_ws_aux [] (drop (ws_len s) s))"
  by pat_completeness auto
termination by (relation "measure (\<lambda>(acc, s). length s)") auto

declare split_ws_aux.simps [simp del]

definition split_whitespace :: "string \<Rightarrow> string list" where
  "split_whitespace s = split_ws_aux [] s"

text \<open>\<open>Iterator::nth\<close>.\<close>

definition nth_opt :: "'a list \<Rightarrow> nat \<Rightarrow> 'a option" where
  "nth_opt xs n = (if n < length xs then Some (xs ! n) else None)"

text \<open>\<open>str::lines\<close>: pieces ended by a line feed, with one trailing carriage return removed from
  each line a line feed ended, and no last piece when the text ends with a line feed.\<close>

definition strip_cr :: "string \<Rightarrow> string" where
  "strip_cr l = (case strip_suffix l [CR] of Some r \<Rightarrow> r | None \<Rightarrow> l)"

fun lines_of :: "string list \<Rightarrow> string list" where
  "lines_of [] = []"
| "lines_of [l] = (if l = [] then [] else [l])"
| "lines_of (l # ls) = strip_cr l # lines_of ls"

definition str_lines :: "string \<Rightarrow> string list" where
  "str_lines s = lines_of (split_on LF s)"

end
