(* ===== verification/Simd_Scan.thy ===== *)
theory Simd_Scan
  imports Prelude
begin

text \<open>
  The CRLF search of \<open>src/simd/mod.rs\<close>: the scalar search, the SSE2 and AVX2 searches with
  their unsafe loads, and the dispatch between them. A raw pointer read is a read that faults
  when it leaves the buffer, so that memory safety is a theorem and not an assumption. The
  locale \<open>crlf_finder\<close> is the contract the request parser relies on; each of the three
  searches is an interpretation of it.
\<close>

datatype simd_level = Scalar | Sse2 | Avx2

section \<open>The scalar search\<close>

text \<open>\<open>buf.windows(2).position(..)\<close>.\<close>

fun find_crlf_scalar :: "string \<Rightarrow> nat option" where
  "find_crlf_scalar (a # b # s) =
     (if a = CR \<and> b = LF then Some 0 else map_option Suc (find_crlf_scalar (b # s)))"
| "find_crlf_scalar _ = None"

definition crlf_at :: "string \<Rightarrow> nat \<Rightarrow> bool" where
  "crlf_at buf i \<longleftrightarrow> Suc i < length buf \<and> buf ! i = CR \<and> buf ! Suc i = LF"

lemma crlf_at_Cons [simp]:
  "crlf_at (a # s) (Suc i) = crlf_at s i"
  "crlf_at (a # b # s) 0 \<longleftrightarrow> a = CR \<and> b = LF"
  "\<not> crlf_at [] i" "\<not> crlf_at [a] i"
  by (auto simp: crlf_at_def)

lemma all_nat_split: "(\<forall>i. P i) \<longleftrightarrow> P 0 \<and> (\<forall>i. P (Suc i))"
  by (metis not0_implies_Suc)

lemma find_crlf_scalar_None: "find_crlf_scalar buf = None \<longleftrightarrow> (\<forall>i. \<not> crlf_at buf i)"
proof (induction buf rule: find_crlf_scalar.induct)
  case (1 a b s)
  then show ?case by (subst all_nat_split) simp
qed simp_all

lemma find_crlf_scalar_Some:
  "find_crlf_scalar buf = Some p \<longleftrightarrow> crlf_at buf p \<and> (\<forall>i < p. \<not> crlf_at buf i)"
proof (induction buf arbitrary: p rule: find_crlf_scalar.induct)
  case (1 a b s)
  then show ?case by (cases p) (auto simp: All_less_Suc2)
qed simp_all

text \<open>A buffer with no CRLF in its first \<open>i\<close> positions is searched from \<open>i\<close> on.\<close>

lemma crlf_at_drop: "crlf_at (drop i buf) j \<longleftrightarrow> crlf_at buf (i + j)"
  by (auto simp: crlf_at_def)

lemma find_crlf_scalar_drop:
  assumes "\<forall>j < i. \<not> crlf_at buf j"
  shows "find_crlf_scalar buf = map_option ((+) i) (find_crlf_scalar (drop i buf))"
proof (cases "find_crlf_scalar (drop i buf)")
  case None
  then have "\<not> crlf_at buf j" for j
    using assms by (cases "j < i") (auto simp: find_crlf_scalar_None crlf_at_drop dest: spec [of _ "j - i"])
  then have "find_crlf_scalar buf = None" by (simp add: find_crlf_scalar_None)
  with None show ?thesis by simp
next
  case (Some q)
  then have q: "crlf_at buf (i + q)" "\<forall>j < q. \<not> crlf_at buf (i + j)"
    by (auto simp: find_crlf_scalar_Some crlf_at_drop)
  have "\<not> crlf_at buf j" if "j < i + q" for j
    using that assms q(2) by (cases "j < i") (auto dest: spec [of _ "j - i"])
  with q(1) have "find_crlf_scalar buf = Some (i + q)"
    by (simp add: find_crlf_scalar_Some)
  with Some show ?thesis by simp
qed

section \<open>Vector registers\<close>

datatype mem_fault = OutOfBounds

text \<open>\<open>*ptr.add(i)\<close> and an unaligned load of \<open>w\<close> bytes at offset \<open>i\<close>.\<close>

definition read_byte :: "string \<Rightarrow> nat \<Rightarrow> mem_fault + char" where
  "read_byte buf i = (if i < length buf then Inr (buf ! i) else Inl OutOfBounds)"

definition load_chunk :: "nat \<Rightarrow> string \<Rightarrow> nat \<Rightarrow> mem_fault + string" where
  "load_chunk w buf i = (if i + w \<le> length buf then Inr (take w (drop i buf)) else Inl OutOfBounds)"

text \<open>\<open>movemask(cmpeq(chunk, splat c))\<close>: bit \<open>k\<close> tells whether byte \<open>k\<close> of the chunk is \<open>c\<close>.\<close>

fun movemask_eq :: "char \<Rightarrow> string \<Rightarrow> 32 word" where
  "movemask_eq c [] = 0"
| "movemask_eq c (x # xs) = (if x = c then 1 else 0) OR push_bit 1 (movemask_eq c xs)"

lemma bit_push_one: "k < 32 \<Longrightarrow> bit (push_bit 1 (w :: 32 word)) k \<longleftrightarrow> 1 \<le> k \<and> bit w (k - 1)"
  by (subst bit_push_bit_iff) simp

lemma bit_movemask_eq:
  "k < 32 \<Longrightarrow> bit (movemask_eq c xs) k \<longleftrightarrow> k < length xs \<and> xs ! k = c"
proof (induction xs arbitrary: k)
  case Nil
  then show ?case by simp
next
  case (Cons x xs)
  have "bit (movemask_eq c (x # xs)) k \<longleftrightarrow>
      (k = 0 \<and> x = c) \<or> (1 \<le> k \<and> bit (movemask_eq c xs) (k - 1))"
    unfolding movemask_eq.simps bit_or_iff bit_push_one [OF Cons.prems] by (simp add: bit_1_iff)
  then show ?case using Cons.IH [of "k - 1"] Cons.prems by (cases k) auto
qed

definition trailing_zeros :: "32 word \<Rightarrow> nat" where
  "trailing_zeros w = length (takeWhile (\<lambda>k. \<not> bit w k) [0..<32])"

definition set_bits :: "32 word \<Rightarrow> nat list" where
  "set_bits w = filter (bit w) [0..<32]"

lemma set_bits_0 [simp]: "set_bits 0 = []"
  by (simp add: set_bits_def)

lemma trailing_zeros_bit:
  assumes "w \<noteq> 0"
  shows "trailing_zeros w < 32" "bit w (trailing_zeros w)" "\<forall>k < trailing_zeros w. \<not> bit w k"
proof -
  let ?tw = "takeWhile (\<lambda>k. \<not> bit w k) [0..<32]"
  obtain n where n: "n < 32" "bit w n"
    using assms bit_eq_iff [of w 0] bit_imp_le_length [of w] by auto
  have "length ?tw \<noteq> length [0..<32]"
  proof
    assume "length ?tw = length [0..<32]"
    then have "?tw = [0..<32]" by (metis takeWhile_eq_take take_all le_refl)
    then have "\<forall>k \<in> set [0..<32]. \<not> bit w k" by (metis set_takeWhileD)
    with n show False by simp
  qed
  then show l: "trailing_zeros w < 32"
    using length_takeWhile_le [of "\<lambda>k. \<not> bit w k" "[0..<32]"] by (simp add: trailing_zeros_def)
  then show "bit w (trailing_zeros w)"
    using nth_length_takeWhile [of "\<lambda>k. \<not> bit w k" "[0..<32]"] by (simp add: trailing_zeros_def)
  show "\<forall>k < trailing_zeros w. \<not> bit w k"
  proof (intro allI impI)
    fix k assume k: "k < trailing_zeros w"
    then have "?tw ! k \<in> set ?tw" by (simp add: trailing_zeros_def)
    moreover have "?tw ! k = k" using k l by (simp add: takeWhile_nth trailing_zeros_def)
    ultimately show "\<not> bit w k" by (metis set_takeWhileD)
  qed
qed

text \<open>\<open>mask &= mask - 1\<close> clears exactly the lowest set bit.\<close>

lemma bit_clear_lowest:
  assumes w: "w \<noteq> (0 :: 32 word)"
  shows "bit (w AND (w - 1)) k \<longleftrightarrow> bit w k \<and> k \<noteq> trailing_zeros w"
proof -
  let ?t = "trailing_zeros w"
  note t = trailing_zeros_bit [OF w]
  define v where "v = unset_bit ?t w"
  have vbit: "bit v n \<longleftrightarrow> bit w n \<and> n \<noteq> ?t" for n
    by (auto simp: v_def bit_unset_bit_iff)
  have "w = v OR 2 ^ ?t"
    by (rule bit_eqI) (use t vbit in \<open>auto simp: bit_or_iff bit_exp_iff\<close>)
  also have "\<dots> = v + 2 ^ ?t"
  proof (rule disjunctive_add_eq_or [symmetric])
    show "v AND 2 ^ ?t = 0"
      by (rule bit_eqI) (simp add: bit_and_iff bit_exp_iff vbit)
  qed
  finally have "w - 1 = v + mask ?t"
    by (simp add: mask_eq_exp_minus_1)
  also have "\<dots> = v OR mask ?t"
  proof (rule disjunctive_add_eq_or)
    show "v AND mask ?t = 0"
      by (rule bit_eqI) (use t(3) in \<open>auto simp: bit_and_iff bit_mask_iff vbit\<close>)
  qed
  finally have "bit (w - 1) k \<longleftrightarrow> bit v k \<or> k < ?t \<and> k < 32"
    using bit_imp_le_length [of v k] by (auto simp: bit_or_iff bit_mask_iff)
  then show ?thesis
    using vbit t by (auto simp: bit_and_iff)
qed

lemma set_bits_step:
  assumes w: "w \<noteq> 0"
  shows "set_bits w = trailing_zeros w # set_bits (w AND (w - 1))"
proof -
  let ?t = "trailing_zeros w"
  note t = trailing_zeros_bit [OF w]
  have split: "[0..<32] = [0..<?t] @ ?t # [Suc ?t..<32]"
    using t(1) upt_add_eq_append [of 0 ?t "32 - ?t"] upt_conv_Cons [of ?t 32] by simp
  have "filter (bit w) [0..<?t] = []" "filter (bit (w AND (w - 1))) [0..<?t] = []"
    using t(3) bit_clear_lowest [OF w] by (auto simp: filter_empty_conv)
  moreover have "filter (bit (w AND (w - 1))) [Suc ?t..<32] = filter (bit w) [Suc ?t..<32]"
    using bit_clear_lowest [OF w] by (intro filter_cong) auto
  ultimately show ?thesis
    unfolding set_bits_def split using t(2) bit_clear_lowest [OF w] by simp
qed

lemma clear_lowest_less: "w \<noteq> 0 \<Longrightarrow> unat (w AND (w - 1)) < unat (w :: 32 word)"
  using word_and_le1 [of w "w - 1"] measure_unat [of w] by (simp add: word_le_nat_alt)

section \<open>The vector searches\<close>

text \<open>The inner loop over the carriage returns of one chunk.\<close>

function scan_mask :: "string \<Rightarrow> nat \<Rightarrow> 32 word \<Rightarrow> mem_fault + nat option" where
  "scan_mask buf i m =
     (if m = 0 then Inr None
      else let pos = i + trailing_zeros m
           in if pos + 1 < length buf
              then and_then (read_byte buf (pos + 1)) (\<lambda>b.
                     if b = LF then Inr (Some pos) else scan_mask buf i (m AND (m - 1)))
              else scan_mask buf i (m AND (m - 1)))"
  by pat_completeness auto
termination
  by (relation "measure (\<lambda>(buf, i, m). unat m)") (auto intro: clear_lowest_less)

declare scan_mask.simps [simp del]

datatype simd_width = W16 | W32

fun lanes :: "simd_width \<Rightarrow> nat" where
  "lanes W16 = 16"
| "lanes W32 = 32"

lemma lanes_pos [simp]: "0 < lanes w" "lanes w \<le> 32"
  by (cases w; simp)+

text \<open>The chunk loop, 16 or 32 bytes a step, with the scalar tail.\<close>

function simd_loop :: "simd_width \<Rightarrow> string \<Rightarrow> nat \<Rightarrow> mem_fault + nat option" where
  "simd_loop w buf i =
     (if i + lanes w < length buf
      then and_then (load_chunk (lanes w) buf i) (\<lambda>chunk.
             let cr_mask = movemask_eq CR chunk
             in and_then (if cr_mask \<noteq> 0 then scan_mask buf i cr_mask else Inr None) (\<lambda>r.
                  case r of Some pos \<Rightarrow> Inr (Some pos) | None \<Rightarrow> simd_loop w buf (i + lanes w)))
      else if i \<le> length buf then Inr (map_option (\<lambda>p. p + i) (find_crlf_scalar (drop i buf)))
      else Inl OutOfBounds)"
  by pat_completeness auto
termination by (relation "measure (\<lambda>(w, buf, i). length buf - i)") (auto simp: diff_less_mono2)

declare simd_loop.simps [simp del]

definition find_crlf_sse2 :: "string \<Rightarrow> mem_fault + nat option" where
  "find_crlf_sse2 buf =
     (if length buf < 2 then Inr (find_crlf_scalar buf) else simd_loop W16 buf 0)"

definition find_crlf_avx2 :: "string \<Rightarrow> mem_fault + nat option" where
  "find_crlf_avx2 buf =
     (if length buf < 2 then Inr (find_crlf_scalar buf) else simd_loop W32 buf 0)"

fun find_crlf :: "simd_level \<Rightarrow> string \<Rightarrow> mem_fault + nat option" where
  "find_crlf Avx2 buf = find_crlf_avx2 buf"
| "find_crlf Sse2 buf = find_crlf_sse2 buf"
| "find_crlf Scalar buf = Inr (find_crlf_scalar buf)"

section \<open>Equivalence with the scalar search\<close>

lemma scan_mask_find:
  "scan_mask buf i m =
     Inr (map_option ((+) i) (find (\<lambda>k. i + k + 1 < length buf \<and> buf ! (i + k + 1) = LF) (set_bits m)))"
proof (induction buf i m rule: scan_mask.induct)
  case (1 buf i m)
  show ?case
  proof (cases "m = 0")
    case True
    then show ?thesis by (simp add: scan_mask.simps)
  next
    case False
    then show ?thesis
      using 1 by (subst scan_mask.simps) (simp add: Let_def read_byte_def set_bits_step)
  qed
qed

lemma chunk_crlf:
  assumes "i + lanes w < length buf"
  shows "find (\<lambda>k. i + k + 1 < length buf \<and> buf ! (i + k + 1) = LF)
           (set_bits (movemask_eq CR (take (lanes w) (drop i buf))))
         = find (\<lambda>k. crlf_at buf (i + k)) [0..<lanes w]"
proof -
  let ?m = "movemask_eq CR (take (lanes w) (drop i buf))"
  have bits: "set_bits ?m = filter (\<lambda>k. buf ! (i + k) = CR) [0..<lanes w]"
  proof -
    have "set_bits ?m = filter (\<lambda>k. k < lanes w \<and> buf ! (i + k) = CR) [0..<32]"
      unfolding set_bits_def using assms by (intro filter_cong) (auto simp: bit_movemask_eq)
    also have "[0..<32] = [0..<lanes w] @ [lanes w..<32]"
      using lanes_pos(2) [of w] by (metis le_add_diff_inverse upt_add_eq_append zero_le)
    also have "filter (\<lambda>k. k < lanes w \<and> buf ! (i + k) = CR) \<dots>
               = filter (\<lambda>k. buf ! (i + k) = CR) [0..<lanes w]"
      by (auto simp: filter_empty_conv intro!: filter_cong)
    finally show ?thesis .
  qed
  have "find P (filter Q xs) = find (\<lambda>x. Q x \<and> P x) xs" for P Q and xs :: "nat list"
    by (induction xs) auto
  then show ?thesis
    unfolding bits by (auto simp: crlf_at_def intro!: find_cong)
qed

lemma simd_loop_scalar:
  "i \<le> length buf \<Longrightarrow> \<forall>j < i. \<not> crlf_at buf j \<Longrightarrow> simd_loop w buf i = Inr (find_crlf_scalar buf)"
proof (induction w buf i rule: simd_loop.induct)
  case (1 w buf i)
  show ?case
  proof (cases "i + lanes w < length buf")
    case False
    with "1.prems" show ?thesis
      using find_crlf_scalar_drop [of i buf]
      by (subst simd_loop.simps) (simp add: add.commute [of _ i])
  next
    case True
    let ?m = "movemask_eq CR (take (lanes w) (drop i buf))"
    let ?f = "find (\<lambda>k. crlf_at buf (i + k)) [0..<lanes w]"
    have scan: "(if ?m \<noteq> 0 then scan_mask buf i ?m else Inr None) = Inr (map_option ((+) i) ?f)"
      using chunk_crlf [OF True] by (auto simp: scan_mask_find)
    have unfold: "simd_loop w buf i = (case map_option ((+) i) ?f of
        Some pos \<Rightarrow> Inr (Some pos) | None \<Rightarrow> simd_loop w buf (i + lanes w))"
      using True by (subst simd_loop.simps) (simp add: load_chunk_def Let_def scan)
    show ?thesis
    proof (cases ?f)
      case None
      then have "\<forall>k < lanes w. \<not> crlf_at buf (i + k)"
        by (auto simp: find_None_iff)
      then have none: "\<forall>j < i + lanes w. \<not> crlf_at buf j"
        using "1.prems"(2) by (metis add_less_cancel_left le_add_diff_inverse linorder_not_less)
      have "simd_loop w buf (i + lanes w) = Inr (find_crlf_scalar buf)"
        using "1.IH" [OF True] True none None scan by (simp add: load_chunk_def)
      with unfold None show ?thesis by simp
    next
      case (Some k)
      then have k: "crlf_at buf (i + k)" "\<forall>j < k. \<not> crlf_at buf (i + j)"
        by (auto simp: find_Some_iff)
      then have "\<forall>j < i + k. \<not> crlf_at buf j"
        using "1.prems"(2) by (metis add_less_cancel_left le_add_diff_inverse linorder_not_less)
      with k(1) have "find_crlf_scalar buf = Some (i + k)"
        by (simp add: find_crlf_scalar_Some)
      with unfold Some show ?thesis by simp
    qed
  qed
qed

lemma find_crlf_sse2_scalar: "find_crlf_sse2 buf = Inr (find_crlf_scalar buf)"
  by (simp add: find_crlf_sse2_def simd_loop_scalar)

lemma find_crlf_avx2_scalar: "find_crlf_avx2 buf = Inr (find_crlf_scalar buf)"
  by (simp add: find_crlf_avx2_def simd_loop_scalar)

lemma find_crlf_scalar_eq: "find_crlf lvl buf = Inr (find_crlf_scalar buf)"
  by (cases lvl) (simp_all add: find_crlf_sse2_scalar find_crlf_avx2_scalar)

section \<open>Properties\<close>

text \<open>C6: at every SIMD level the CRLF search reads no byte outside the buffer (it never faults)
  and gives what the scalar search gives, which is the first CRLF of the buffer or none.\<close>

theorem find_crlf_safe_and_exact:
  "find_crlf lvl buf = Inr (find_crlf_scalar buf)
   \<and> (case find_crlf_scalar buf of None \<Rightarrow> (\<forall>i. \<not> crlf_at buf i)
      | Some p \<Rightarrow> crlf_at buf p \<and> (\<forall>i. crlf_at buf i \<longrightarrow> p \<le> i))"
proof -
  have "case find_crlf_scalar buf of None \<Rightarrow> (\<forall>i. \<not> crlf_at buf i)
      | Some p \<Rightarrow> crlf_at buf p \<and> (\<forall>i. crlf_at buf i \<longrightarrow> p \<le> i)"
  proof (cases "find_crlf_scalar buf")
    case None
    then have "\<forall>i. \<not> crlf_at buf i" using find_crlf_scalar_None [of buf] by blast
    then show ?thesis unfolding None option.case .
  next
    case (Some p)
    then have "crlf_at buf p \<and> (\<forall>i < p. \<not> crlf_at buf i)" by (rule find_crlf_scalar_Some [THEN iffD1])
    then have "crlf_at buf p \<and> (\<forall>i. crlf_at buf i \<longrightarrow> p \<le> i)" by (metis not_le)
    then show ?thesis using Some by simp
  qed
  then show ?thesis by (simp add: find_crlf_scalar_eq)
qed

text \<open>The implication in the statement holds at a concrete buffer.\<close>

theorem find_crlf_safe_and_exact_witness: "find_crlf Avx2 ''ab'' = Inr None"
  using find_crlf_safe_and_exact [of Avx2 "''ab''"] by (simp add: CR_def)

end
