(* ===== verification/Http_Limits.thy ===== *)
theory Http_Limits
  imports Prelude
begin

text \<open>The constants of \<open>src/http/limits.rs\<close>, with the relations between them the other
  components rely on.\<close>

definition MAX_METHOD_LEN :: nat where "MAX_METHOD_LEN = 16"
definition MAX_URI_LEN :: nat where "MAX_URI_LEN = 8192"
definition MAX_VERSION_LEN :: nat where "MAX_VERSION_LEN = 16"
definition MAX_REQUEST_LINE :: nat where
  "MAX_REQUEST_LINE = MAX_METHOD_LEN + 1 + MAX_URI_LEN + 1 + MAX_VERSION_LEN + 2"
definition MAX_HEADER_COUNT :: nat where "MAX_HEADER_COUNT = 100"
definition MAX_HEADER_NAME_LEN :: nat where "MAX_HEADER_NAME_LEN = 256"
definition MAX_HEADER_VALUE_LEN :: nat where "MAX_HEADER_VALUE_LEN = 8192"
definition MAX_HEADERS_TOTAL_BYTES :: nat where "MAX_HEADERS_TOTAL_BYTES = 65536"
definition MAX_HEADER_BUFFER :: nat where
  "MAX_HEADER_BUFFER = MAX_HEADERS_TOTAL_BYTES + MAX_REQUEST_LINE"
definition DEFAULT_MAX_BODY_BYTES :: nat where "DEFAULT_MAX_BODY_BYTES = 1048576"
definition ABSOLUTE_MAX_BODY_BYTES :: nat where "ABSOLUTE_MAX_BODY_BYTES = 2147483648"
definition DEFAULT_KEEPALIVE_TIMEOUT_S :: nat where "DEFAULT_KEEPALIVE_TIMEOUT_S = 75"
definition MAX_KEEPALIVE_REQUESTS :: nat where "MAX_KEEPALIVE_REQUESTS = 1000"
definition DEFAULT_CLIENT_HEADER_TIMEOUT_S :: nat where "DEFAULT_CLIENT_HEADER_TIMEOUT_S = 60"
definition DEFAULT_SEND_TIMEOUT_S :: nat where "DEFAULT_SEND_TIMEOUT_S = 60"
definition MAX_INCLUDE_DEPTH :: nat where "MAX_INCLUDE_DEPTH = 10"
definition MAX_SERVER_BLOCKS :: nat where "MAX_SERVER_BLOCKS = 256"
definition MAX_LOCATION_BLOCKS :: nat where "MAX_LOCATION_BLOCKS = 1024"
definition API_RATE_LIMIT_RPS :: nat where "API_RATE_LIMIT_RPS = 30"
definition API_RATE_BURST :: nat where "API_RATE_BURST = 60"

definition FORBIDDEN_URI_SEQUENCES :: "string list" where
  "FORBIDDEN_URI_SEQUENCES =
     [[CHR 0x00], ''%00'', ''%2F'', ''%5C'', ''//'', ''../'', ''..'' @ [CHR 0x5C]]"

lemmas limit_defs =
  MAX_METHOD_LEN_def MAX_URI_LEN_def MAX_VERSION_LEN_def MAX_REQUEST_LINE_def
  MAX_HEADER_COUNT_def MAX_HEADER_NAME_LEN_def MAX_HEADER_VALUE_LEN_def
  MAX_HEADERS_TOTAL_BYTES_def MAX_HEADER_BUFFER_def DEFAULT_MAX_BODY_BYTES_def
  ABSOLUTE_MAX_BODY_BYTES_def MAX_INCLUDE_DEPTH_def MAX_SERVER_BLOCKS_def MAX_LOCATION_BLOCKS_def

lemma default_body_below_ceiling: "DEFAULT_MAX_BODY_BYTES \<le> ABSOLUTE_MAX_BODY_BYTES"
  by (simp add: limit_defs)

end
