(* ===== verification/Rust_Num.thy ===== *)
theory Rust_Num
  imports Prelude
begin

text \<open>
  Numbers as text, and UTF-8: \<open>str::parse\<close> into an unsigned integer of a given width,
  \<open>to_string\<close>, lower-case hexadecimal formatting, zero padding, and the checks of
  \<open>str::from_utf8\<close> and \<open>String::from_utf8_lossy\<close>.
\<close>

section \<open>Decimal numbers\<close>

definition digit_val :: "char \<Rightarrow> nat" where
  "digit_val c = ascii_code c - 48"

definition digit_char :: "nat \<Rightarrow> char" where
  "digit_char d = char_of (48 + d)"

definition dec_value :: "string \<Rightarrow> nat" where
  "dec_value s = foldl (\<lambda>n c. 10 * n + digit_val c) 0 s"

text \<open>\<open><uN as FromStr>::from_str\<close>: one optional plus sign, then at least one decimal digit and
  nothing else; a value that does not fit the width is an error.\<close>

definition parse_uint :: "nat \<Rightarrow> string \<Rightarrow> nat option" where
  "parse_uint bits s =
     (let d = (case s of [] \<Rightarrow> [] | c # cs \<Rightarrow> if c = CHR ''+'' then cs else s)
      in if d = [] \<or> \<not> list_all is_ascii_digit d then None
         else let n = dec_value d in if n < 2 ^ bits then Some n else None)"

function show_nat :: "nat \<Rightarrow> string" where
  "show_nat n = (if n < 10 then [digit_char n] else show_nat (n div 10) @ [digit_char (n mod 10)])"
  by pat_completeness auto
termination by (relation "measure id") auto

declare show_nat.simps [simp del]

lemma ascii_code_digit_char [simp]: "d < 10 \<Longrightarrow> ascii_code (digit_char d) = 48 + d"
  by (simp add: ascii_code_def digit_char_def of_char_of)

lemma is_ascii_digit_char [simp]: "d < 10 \<Longrightarrow> is_ascii_digit (digit_char d)"
  by (simp add: is_ascii_digit_def)

lemma digit_val_char [simp]: "d < 10 \<Longrightarrow> digit_val (digit_char d) = d"
  by (simp add: digit_val_def)

lemma dec_value_snoc [simp]: "dec_value (s @ [c]) = 10 * dec_value s + digit_val c"
  by (simp add: dec_value_def)

lemma show_nat_digits: "list_all is_ascii_digit (show_nat n)"
proof (induction n rule: show_nat.induct)
  case (1 n)
  then show ?case by (subst show_nat.simps) simp
qed

lemma show_nat_nonempty [simp]: "show_nat n \<noteq> []"
  by (subst show_nat.simps) simp

lemma dec_value_show_nat: "dec_value (show_nat n) = n"
proof (induction n rule: show_nat.induct)
  case (1 n)
  show ?case
  proof (cases "n < 10")
    case True
    then show ?thesis by (subst show_nat.simps) (simp add: dec_value_def)
  next
    case False
    with 1 show ?thesis by (subst show_nat.simps) simp
  qed
qed

lemma digit_not_plus: "is_ascii_digit c \<Longrightarrow> c \<noteq> CHR ''+''"
  by (auto simp: is_ascii_digit_def ascii_code_def)

lemma show_nat_hd: "c \<in> set (show_nat n) \<Longrightarrow> is_ascii_digit c"
  using show_nat_digits [of n] by (auto simp: list_all_iff)

text \<open>Printing then parsing gives the number back, at any width that holds it.\<close>

lemma parse_show_nat: "n < 2 ^ b \<Longrightarrow> parse_uint b (show_nat n) = Some n"
proof -
  assume n: "n < 2 ^ b"
  obtain c cs where s: "show_nat n = c # cs" by (cases "show_nat n") simp_all
  then have "c \<noteq> CHR ''+''" using show_nat_hd [of c n] digit_not_plus by simp
  with n show ?thesis
    using show_nat_digits [of n] dec_value_show_nat [of n] by (simp add: parse_uint_def s)
qed

lemma parse_uint_bound: "parse_uint b s = Some n \<Longrightarrow> n < 2 ^ b"
  by (auto simp: parse_uint_def Let_def split: if_splits list.splits)

lemma parse_uint_empty [simp]: "parse_uint b [] = None"
  by (simp add: parse_uint_def)

lemma digit_not_space: "is_ascii_digit c \<Longrightarrow> c \<notin> hd ` set white_space"
  by (auto simp: white_space_def is_ascii_digit_def ascii_code_def)

lemma str_trim_number:
  assumes "u \<notin> last ` set white_space"
  shows "str_trim (show_nat n @ [u]) = show_nat n @ [u]"
proof -
  obtain c s where s: "show_nat n = c # s" by (cases "show_nat n") auto
  then have "is_ascii_digit c" using show_nat_digits [of n] by simp
  then show ?thesis
    unfolding s append_Cons using assms by (intro str_trim_id digit_not_space) auto
qed

lemma digit_not_space_end: "is_ascii_digit c \<Longrightarrow> c \<notin> last ` set white_space"
  by (auto simp: white_space_def is_ascii_digit_def ascii_code_def)

lemma str_trim_show_nat [simp]: "str_trim (show_nat n) = show_nat n"
proof -
  obtain c s where s: "show_nat n = c # s" by (cases "show_nat n") auto
  obtain s' d where d: "show_nat n = s' @ [d]" by (cases "show_nat n" rule: rev_cases) auto
  have "is_ascii_digit c" using show_nat_digits [of n] s by simp
  moreover have "is_ascii_digit d" using show_nat_digits [of n] d by simp
  moreover have "c # s = s' @ [d]" using s d by simp
  ultimately show ?thesis
    unfolding s using str_trim_id digit_not_space digit_not_space_end by blast
qed

lemma digit_not_dash: "is_ascii_digit c \<Longrightarrow> c \<noteq> CHR ''-''"
  by (auto simp: is_ascii_digit_def ascii_code_def)

lemma dash_not_in_show_nat [simp]: "CHR ''-'' \<notin> set (show_nat n)"
  using show_nat_hd digit_not_dash by blast

text \<open>\<open>{:02}\<close> and \<open>{:04}\<close>.\<close>

definition zero_pad :: "nat \<Rightarrow> string \<Rightarrow> string" where
  "zero_pad k s = replicate (k - length s) (CHR ''0'') @ s"

section \<open>Hexadecimal\<close>

definition hex_char :: "nat \<Rightarrow> char" where
  "hex_char d = (if d < 10 then char_of (48 + d) else char_of (87 + d))"

function show_hex :: "nat \<Rightarrow> string" where
  "show_hex n = (if n < 16 then [hex_char n] else show_hex (n div 16) @ [hex_char (n mod 16)])"
  by pat_completeness auto
termination by (relation "measure id") auto

declare show_hex.simps [simp del]

section \<open>UTF-8\<close>

definition byte_in :: "nat \<Rightarrow> nat \<Rightarrow> string \<Rightarrow> nat \<Rightarrow> bool" where
  "byte_in lo hi s i \<longleftrightarrow> i < length s \<and> lo \<le> ascii_code (s ! i) \<and> ascii_code (s ! i) \<le> hi"

text \<open>The first character of a byte string: \<open>Inr n\<close> when its first \<open>n\<close> bytes are a
  well-formed character, \<open>Inl n\<close> when its first \<open>n\<close> bytes are the ill-formed part that
  \<open>Utf8Error::error_len\<close> reports and \<open>from_utf8_lossy\<close> replaces by one U+FFFD.\<close>

definition utf8_head :: "string \<Rightarrow> nat + nat" where
  "utf8_head s =
     (if byte_in 0 127 s 0 then Inr 1
      else if byte_in 194 223 s 0 then (if byte_in 128 191 s 1 then Inr 2 else Inl 1)
      else if byte_in 224 239 s 0 then
        (let lo = (if byte_in 224 224 s 0 then 160 else 128);
             hi = (if byte_in 237 237 s 0 then 159 else 191)
         in if \<not> byte_in lo hi s 1 then Inl 1
            else if \<not> byte_in 128 191 s 2 then Inl 2 else Inr 3)
      else if byte_in 240 244 s 0 then
        (let lo = (if byte_in 240 240 s 0 then 144 else 128);
             hi = (if byte_in 244 244 s 0 then 143 else 191)
         in if \<not> byte_in lo hi s 1 then Inl 1
            else if \<not> byte_in 128 191 s 2 then Inl 2
            else if \<not> byte_in 128 191 s 3 then Inl 3 else Inr 4)
      else Inl 1)"

lemma utf8_head_pos: "utf8_head s = Inr n \<Longrightarrow> 0 < n" "utf8_head s = Inl n \<Longrightarrow> 0 < n"
  by (auto simp: utf8_head_def Let_def split: if_splits)

lemma utf8_head_len: "utf8_head s = Inr n \<Longrightarrow> n \<le> length s"
  by (auto simp: utf8_head_def byte_in_def Let_def Suc_le_eq split: if_splits)

function is_utf8 :: "string \<Rightarrow> bool" where
  "is_utf8 s =
     (if s = [] then True
      else (case utf8_head s of Inl _ \<Rightarrow> False | Inr n \<Rightarrow> is_utf8 (drop n s)))"
  by pat_completeness auto
termination by (relation "measure length") (auto dest: utf8_head_pos)

declare is_utf8.simps [simp del]

lemma is_utf8_ascii: "list_all (\<lambda>c. ascii_code c < 128) s \<Longrightarrow> is_utf8 s"
proof (induction s)
  case Nil
  then show ?case by (simp add: is_utf8.simps)
next
  case (Cons c s)
  then have "utf8_head (c # s) = Inr 1" by (simp add: utf8_head_def byte_in_def)
  then show ?case using Cons by (simp add: is_utf8.simps [of "c # s"])
qed

definition replacement_char :: string where
  "replacement_char = [CHR 0xEF, CHR 0xBF, CHR 0xBD]"

function from_utf8_lossy :: "string \<Rightarrow> string" where
  "from_utf8_lossy s =
     (if s = [] then []
      else (case utf8_head s of
              Inl n \<Rightarrow> replacement_char @ from_utf8_lossy (drop n s)
            | Inr n \<Rightarrow> take n s @ from_utf8_lossy (drop n s)))"
  by pat_completeness auto
termination by (relation "measure length") (auto dest: utf8_head_pos)

declare from_utf8_lossy.simps [simp del]

lemma from_utf8_lossy_valid: "is_utf8 s \<Longrightarrow> from_utf8_lossy s = s"
proof (induction s rule: is_utf8.induct)
  case (1 s)
  show ?case
  proof (cases "s = []")
    case True
    then show ?thesis by (simp add: from_utf8_lossy.simps)
  next
    case False
    with "1.prems" obtain n where n: "utf8_head s = Inr n" "is_utf8 (drop n s)"
      by (subst (asm) is_utf8.simps) (auto split: sum.splits)
    then have "from_utf8_lossy (drop n s) = drop n s" using 1 False by blast
    with n False show ?thesis by (subst from_utf8_lossy.simps) simp
  qed
qed

text \<open>\<open>String::push(c as char)\<close> for a byte \<open>c\<close>: the code point of the byte, UTF-8 encoded.\<close>

definition push_latin1 :: "8 word \<Rightarrow> string" where
  "push_latin1 b =
     (if b < 128 then [chr8 b] else [chr8 (192 OR drop_bit 6 b), chr8 (128 OR (b AND 63))])"

end
