(* ===== verification/Http_Parse.thy ===== *)
theory Http_Parse
  imports Simd_Scan Http_Limits Rust_Num
begin

text \<open>
  The HTTP/1.1 request parser of \<open>src/simd/mod.rs\<close>: request line, header block, percent
  decoding and the URI safety check, over any CRLF search that meets the contract
  \<open>crlf_finder\<close>. The \<open>memchr\<close> crate is a parameter (\<open>memchr_lib\<close>); \<open>memchr_ok\<close> is its
  documented behaviour. A memory fault of the search is the error \<open>Fault\<close>, which the theorems
  show never to occur.
\<close>

section \<open>Interfaces\<close>

record memchr_lib =
  ml_memchr :: "char \<Rightarrow> string \<Rightarrow> nat option"
  ml_memrchr :: "char \<Rightarrow> string \<Rightarrow> nat option"

definition last_index_of :: "char \<Rightarrow> string \<Rightarrow> nat option" where
  "last_index_of c s = map_option (\<lambda>i. length s - 1 - i) (index_of c (rev s))"

definition memchr_ok :: "memchr_lib \<Rightarrow> bool" where
  "memchr_ok lib \<longleftrightarrow> (\<forall>c s. ml_memchr lib c s = index_of c s \<and> ml_memrchr lib c s = last_index_of c s)"

definition memchr_ref :: memchr_lib where
  "memchr_ref = \<lparr>ml_memchr = index_of, ml_memrchr = last_index_of\<rparr>"

lemma memchr_ref_ok: "memchr_ok memchr_ref"
  by (simp add: memchr_ok_def memchr_ref_def)

lemma last_index_of_split:
  assumes "last_index_of c s = Some i"
  shows "s = take i s @ c # drop (Suc i) s \<and> c \<notin> set (drop (Suc i) s) \<and> i < length s"
proof -
  from assms obtain j where j: "index_of c (rev s) = Some j" and i: "i = length s - 1 - j"
    by (auto simp: last_index_of_def)
  from j have jl: "j < length s" and nth: "rev s ! j = c" and no: "c \<notin> set (take j (rev s))"
    by (simp_all add: index_of_Some)
  have il: "i < length s" and si: "Suc i = length s - j" using i jl by simp_all
  have "s ! i = c" using nth jl i by (simp add: rev_nth)
  moreover have "c \<notin> set (drop (Suc i) s)" using no si by (simp add: take_rev)
  ultimately show ?thesis using il by (metis id_take_nth_drop)
qed

lemma last_index_of_append: "c \<notin> set b \<Longrightarrow> last_index_of c (a @ c # b) = Some (length a)"
  using index_of_append [of c "rev b" "rev a"] by (simp add: last_index_of_def)

section \<open>Parse results\<close>

datatype parse_error = Fault mem_fault | Err string

record request_line =
  rl_method :: string
  rl_uri :: string
  rl_version :: string

record header =
  hd_name :: string
  hd_value :: string

type_synonym crlf_search = "string \<Rightarrow> mem_fault + nat option"

text \<open>\<open>find_crlf(buf).ok_or(msg)?\<close>\<close>

definition crlf_or :: "crlf_search \<Rightarrow> string \<Rightarrow> string \<Rightarrow> parse_error + nat" where
  "crlf_or finder buf msg =
     (case finder buf of Inl f \<Rightarrow> Inl (Fault f)
      | Inr None \<Rightarrow> Inl (Err msg) | Inr (Some p) \<Rightarrow> Inr p)"

definition some_or :: "'a option \<Rightarrow> string \<Rightarrow> parse_error + 'a" where
  "some_or m msg = (case m of None \<Rightarrow> Inl (Err msg) | Some x \<Rightarrow> Inr x)"

lemma some_or_Inr [res_simps]: "some_or m msg = Inr x \<longleftrightarrow> m = Some x"
  by (cases m) (auto simp: some_or_def)

section \<open>The request line\<close>

definition parse_request_line_with ::
  "memchr_lib \<Rightarrow> crlf_search \<Rightarrow> string \<Rightarrow> parse_error + (request_line \<times> nat)" where
  "parse_request_line_with lib finder buf =
     and_then (crlf_or finder buf ''request line incomplete'') (\<lambda>crlf_pos.
     let line = take crlf_pos buf
     in if length line > MAX_REQUEST_LINE then Inl (Err ''request line too long'')
        else and_then (some_or (ml_memchr lib (CHR '' '') line) ''malformed request line'') (\<lambda>sp1.
        let method = take sp1 line
        in if length method > MAX_METHOD_LEN then Inl (Err ''method too long'')
        else let rest = drop (sp1 + 1) line
        in and_then (some_or (ml_memrchr lib (CHR '' '') rest) ''malformed request line'') (\<lambda>sp2.
        let uri = take sp2 rest
        in if length uri > MAX_URI_LEN then Inl (Err ''URI too long'')
        else let version = drop (sp2 + 1) rest
        in if length version > MAX_VERSION_LEN then Inl (Err ''version string too long'')
        else Inr (\<lparr>rl_method = method, rl_uri = uri, rl_version = version\<rparr>, crlf_pos + 2))))"

definition parse_request_line ::
  "memchr_lib \<Rightarrow> simd_level \<Rightarrow> string \<Rightarrow> parse_error + (request_line \<times> nat)" where
  "parse_request_line lib lvl = parse_request_line_with lib (find_crlf lvl)"

section \<open>Headers\<close>

definition is_blank :: "char \<Rightarrow> bool" where
  "is_blank c \<longleftrightarrow> c = CHR '' '' \<or> c = CHR 0x09"

definition trim_bytes :: "string \<Rightarrow> string" where
  "trim_bytes b =
     (let start = length (takeWhile is_blank b);
          stop = length b - length (takeWhile is_blank (rev b))
      in if stop \<le> start then [] else take (stop - start) (drop start b))"

text \<open>One header line: name, value, and the errors in the order the code checks them.\<close>

definition parse_header_line :: "memchr_lib \<Rightarrow> string \<Rightarrow> parse_error + header" where
  "parse_header_line lib line =
     and_then (some_or (ml_memchr lib (CHR '':'') line) ''malformed header line'') (\<lambda>colon.
     let name = trim_bytes (take colon line)
     in if length name > MAX_HEADER_NAME_LEN then Inl (Err ''header name too long'')
        else let raw_value = (if colon + 1 < length line then drop (colon + 1) line else []);
                 value = trim_bytes raw_value
             in if length value > MAX_HEADER_VALUE_LEN then Inl (Err ''header value too long'')
                else Inr \<lparr>hd_name = name, hd_value = value\<rparr>)"

function parse_headers_loop ::
  "memchr_lib \<Rightarrow> crlf_search \<Rightarrow> string \<Rightarrow> nat \<Rightarrow> nat \<Rightarrow> header list \<Rightarrow> parse_error + (header list \<times> nat)"
where
  "parse_headers_loop lib finder buf pos total_bytes headers =
     (if take 2 (drop pos buf) = CRLF then Inr (headers, pos + 2)
      else if length buf \<le> pos then Inl (Err ''headers incomplete'')
      else and_then (crlf_or finder (drop pos buf) ''header line incomplete'') (\<lambda>crlf.
      and_then (parse_header_line lib (take crlf (drop pos buf))) (\<lambda>h.
      let total = total_bytes + (length (hd_name h) + 2 + length (hd_value h) + 2)
      in if total > MAX_HEADERS_TOTAL_BYTES then Inl (Err ''headers too large'')
         else if length headers \<ge> MAX_HEADER_COUNT then Inl (Err ''too many headers'')
         else parse_headers_loop lib finder buf (pos + (crlf + 2)) total (headers @ [h]))))"
  by pat_completeness auto
termination
  by (relation "measure (\<lambda>(lib, finder, buf, pos, t, hs). length buf - pos)") auto

declare parse_headers_loop.simps [simp del]

definition parse_headers_with ::
  "memchr_lib \<Rightarrow> crlf_search \<Rightarrow> string \<Rightarrow> parse_error + (header list \<times> nat)" where
  "parse_headers_with lib finder buf =
     (if length buf > MAX_HEADER_BUFFER then Inl (Err ''header buffer overflow'')
      else parse_headers_loop lib finder buf 0 0 [])"

definition parse_headers ::
  "memchr_lib \<Rightarrow> simd_level \<Rightarrow> string \<Rightarrow> parse_error + (header list \<times> nat)" where
  "parse_headers lib lvl = parse_headers_with lib (find_crlf lvl)"

section \<open>Percent decoding, header names, URI safety\<close>

definition hex_nibble :: "char \<Rightarrow> 8 word option" where
  "hex_nibble c =
     (let b = u8_of c
      in if 0x30 \<le> b \<and> b \<le> 0x39 then Some (b - 0x30)
         else if 0x61 \<le> b \<and> b \<le> 0x66 then Some (b - 0x61 + 10)
         else if 0x41 \<le> b \<and> b \<le> 0x46 then Some (b - 0x41 + 10)
         else None)"

fun simd_percent_decode :: "string \<Rightarrow> string" where
  "simd_percent_decode (c # h # l # s) =
     (if c = CHR ''%'' then
        (case (hex_nibble h, hex_nibble l) of
           (Some hi, Some lo) \<Rightarrow> chr8 (push_bit 4 hi OR lo) # simd_percent_decode s
         | _ \<Rightarrow> c # simd_percent_decode (h # l # s))
      else c # simd_percent_decode (h # l # s))"
| "simd_percent_decode (c # s) = c # simd_percent_decode s"
| "simd_percent_decode [] = []"

definition normalize_header_name :: "string \<Rightarrow> string" where
  "normalize_header_name name = map char_lower name"

definition is_uri_safe :: "string \<Rightarrow> bool" where
  "is_uri_safe uri \<longleftrightarrow> is_utf8 uri \<and> list_all (\<lambda>s. \<not> str_contains uri s) FORBIDDEN_URI_SEQUENCES"

section \<open>What a header block may hold\<close>

text \<open>The invariant of the header loop: what it has collected stays within every limit, and
  \<open>total_bytes\<close> is the number of bytes the code charges for it.\<close>

definition header_cost :: "header \<Rightarrow> nat" where
  "header_cost h = length (hd_name h) + 2 + length (hd_value h) + 2"

definition header_within :: "header \<Rightarrow> bool" where
  "header_within h \<longleftrightarrow>
     length (hd_name h) \<le> MAX_HEADER_NAME_LEN \<and> length (hd_value h) \<le> MAX_HEADER_VALUE_LEN"

definition headers_within :: "header list \<Rightarrow> bool" where
  "headers_within hs \<longleftrightarrow> length hs \<le> MAX_HEADER_COUNT \<and> list_all header_within hs
     \<and> (\<Sum>h\<leftarrow>hs. header_cost h) \<le> MAX_HEADERS_TOTAL_BYTES"

definition render_header :: "header \<Rightarrow> string" where
  "render_header h = hd_name h @ '': '' @ hd_value h @ CRLF"

text \<open>A header the server can send or receive unchanged: no delimiter in the name, no line end,
  no white space at the ends of either part.\<close>

definition trimmed :: "string \<Rightarrow> bool" where
  "trimmed s \<longleftrightarrow> (s = [] \<or> \<not> is_blank (hd s) \<and> \<not> is_blank (last s))"

definition clean_header :: "header \<Rightarrow> bool" where
  "clean_header h \<longleftrightarrow> CHR '':'' \<notin> set (hd_name h) \<and> CR \<notin> set (hd_name h) \<and> CR \<notin> set (hd_value h)
     \<and> trimmed (hd_name h) \<and> trimmed (hd_value h)"

lemma trim_bytes_trimmed: "trimmed s \<Longrightarrow> trim_bytes s = s"
proof (cases "s = []")
  case False
  assume "trimmed s"
  with False have h: "\<not> is_blank (hd s)" and l: "\<not> is_blank (hd (rev s))"
    by (auto simp: trimmed_def hd_rev)
  have "takeWhile is_blank s = []" using h False by (cases s) auto
  moreover have "takeWhile is_blank (rev s) = []" using l False by (cases "rev s") auto
  ultimately show ?thesis using False by (simp add: trim_bytes_def)
qed (simp add: trim_bytes_def)

lemma trim_bytes_blank: "trimmed s \<Longrightarrow> trim_bytes (CHR '' '' # s) = s"
proof (cases "s = []")
  case False
  assume "trimmed s"
  with False have h: "\<not> is_blank (hd s)" and l: "\<not> is_blank (hd (rev s))"
    by (auto simp: trimmed_def hd_rev)
  have "takeWhile is_blank s = []" using h False by (cases s) auto
  moreover have "takeWhile is_blank (rev s @ [CHR '' '']) = []" using l False by (cases "rev s") auto
  moreover have "is_blank (CHR '' '')" by (simp add: is_blank_def)
  ultimately show ?thesis using False by (simp add: trim_bytes_def)
qed (simp add: trim_bytes_def is_blank_def)

lemma parse_header_line_within:
  "parse_header_line lib line = Inr h \<Longrightarrow> header_within h"
  unfolding parse_header_line_def Let_def and_then_Inr some_or_Inr if_Inl_Inr not_less
  by (auto simp: header_within_def)

lemma parse_header_line_clean:
  assumes "memchr_ok lib" "clean_header h" "header_within h"
  shows "parse_header_line lib (hd_name h @ '': '' @ hd_value h) = Inr h"
  using assms unfolding memchr_ok_def clean_header_def header_within_def parse_header_line_def
  by (simp add: index_of_append some_or_def trim_bytes_trimmed trim_bytes_blank)

lemma length_render_header: "length (render_header h) = header_cost h"
  by (simp add: render_header_def header_cost_def)

lemma headers_within_snoc:
  "headers_within hs \<Longrightarrow> header_within h \<Longrightarrow> length hs < MAX_HEADER_COUNT
   \<Longrightarrow> (\<Sum>h\<leftarrow>hs. header_cost h) + header_cost h \<le> MAX_HEADERS_TOTAL_BYTES
   \<Longrightarrow> headers_within (hs @ [h])"
  by (simp add: headers_within_def)

section \<open>The contract of the CRLF search\<close>

locale crlf_finder =
  fixes finder :: crlf_search
  assumes no_fault: "\<exists>r. finder buf = Inr r"
    and found: "finder buf = Inr (Some p) \<Longrightarrow> crlf_at buf p \<and> (\<forall>i < p. \<not> crlf_at buf i)"
    and missing: "finder buf = Inr None \<Longrightarrow> \<not> crlf_at buf i"
begin

lemma at_first: "crlf_at buf p \<Longrightarrow> \<forall>i < p. \<not> crlf_at buf i \<Longrightarrow> finder buf = Inr (Some p)"
proof -
  assume p: "crlf_at buf p" "\<forall>i < p. \<not> crlf_at buf i"
  obtain r where r: "finder buf = Inr r" using no_fault by blast
  show ?thesis
  proof (cases r)
    case None
    with r p(1) show ?thesis using missing [of buf p] by simp
  next
    case (Some q)
    then have "crlf_at buf q" "\<forall>i < q. \<not> crlf_at buf i" using found [of buf q] r by auto
    with p have "q = p" by (metis linorder_neqE_nat)
    with r Some show ?thesis by simp
  qed
qed

lemma crlf_or_Inr:
  "crlf_or finder buf msg = Inr p \<longleftrightarrow> crlf_at buf p \<and> (\<forall>i < p. \<not> crlf_at buf i)"
proof
  assume "crlf_or finder buf msg = Inr p"
  then have "finder buf = Inr (Some p)" by (simp add: crlf_or_def split: sum.splits option.splits)
  then show "crlf_at buf p \<and> (\<forall>i < p. \<not> crlf_at buf i)" by (rule found)
next
  assume "crlf_at buf p \<and> (\<forall>i < p. \<not> crlf_at buf i)"
  then have "finder buf = Inr (Some p)" by (simp add: at_first)
  then show "crlf_or finder buf msg = Inr p" by (simp add: crlf_or_def)
qed

lemma crlf_or_no_fault: "crlf_or finder buf msg \<noteq> Inl (Fault f)"
  using no_fault [of buf] by (auto simp: crlf_or_def split: sum.splits option.splits)

lemma crlf_or_line: "CR \<notin> set line \<Longrightarrow> crlf_or finder (line @ CRLF @ rest) msg = Inr (length line)"
proof -
  assume cr: "CR \<notin> set line"
  have "\<not> crlf_at (line @ CRLF @ rest) i" if "i < length line" for i
  proof -
    have "(line @ CRLF @ rest) ! i = line ! i" using that by (simp add: nth_append)
    then show ?thesis using cr nth_mem [OF that] by (metis crlf_at_def)
  qed
  moreover have "crlf_at (line @ CRLF @ rest) (length line)"
    by (simp add: crlf_at_def nth_append)
  ultimately show ?thesis by (simp add: crlf_or_Inr)
qed

text \<open>What a successful parse of the request line says about the bytes it consumed.\<close>

lemma request_line_sound:
  assumes ok: "memchr_ok lib"
    and p: "parse_request_line_with lib finder buf = Inr (rl, n)"
  shows "buf = rl_method rl @ CHR '' '' # rl_uri rl @ CHR '' '' # rl_version rl @ CRLF @ drop n buf"
    and "CHR '' '' \<notin> set (rl_method rl)" and "CHR '' '' \<notin> set (rl_version rl)"
    and "length (rl_method rl) \<le> MAX_METHOD_LEN" and "length (rl_uri rl) \<le> MAX_URI_LEN"
    and "length (rl_version rl) \<le> MAX_VERSION_LEN"
proof -
  have ml: "ml_memchr lib = index_of" "ml_memrchr lib = last_index_of"
    using ok by (auto simp: memchr_ok_def)
  from p obtain c sp1 sp2 where co: "crlf_or finder buf ''request line incomplete'' = Inr c"
    and sp1: "index_of (CHR '' '') (take c buf) = Some sp1"
    and sp2: "last_index_of (CHR '' '') (drop (sp1 + 1) (take c buf)) = Some sp2"
    and rl: "rl = \<lparr>rl_method = take sp1 (take c buf),
                  rl_uri = take sp2 (drop (sp1 + 1) (take c buf)),
                  rl_version = drop (sp2 + 1) (drop (sp1 + 1) (take c buf))\<rparr>"
    and n: "n = c + 2"
    and lens: "length (rl_method rl) \<le> MAX_METHOD_LEN" "length (rl_uri rl) \<le> MAX_URI_LEN"
      "length (rl_version rl) \<le> MAX_VERSION_LEN"
    unfolding parse_request_line_with_def Let_def ml and_then_Inr some_or_Inr if_Inl_Inr not_less
    apply (elim exE conjE)
    subgoal premises q for x xa xb
      by (rule q(1) [of x xa xb]) (use q(2-) in \<open>auto simp del: length_take length_drop\<close>)
    done
  from co have c: "crlf_at buf c" by (simp add: crlf_or_Inr)
  note s1 = index_of_split [OF sp1] and s2 = last_index_of_split [OF sp2]
  have line: "take c buf = rl_method rl @ CHR '' '' # rl_uri rl @ CHR '' '' # rl_version rl"
    using s1 s2 rl by simp
  have "drop c buf = CRLF @ drop n buf"
    using c n by (simp add: crlf_at_def Cons_nth_drop_Suc [symmetric])
  then show "buf = rl_method rl @ CHR '' '' # rl_uri rl @ CHR '' '' # rl_version rl @ CRLF @ drop n buf"
    using line by (metis append_Cons append_assoc append_take_drop_id)
  show "CHR '' '' \<notin> set (rl_method rl)" "CHR '' '' \<notin> set (rl_version rl)"
    using s1 s2 rl by simp_all
  show "length (rl_method rl) \<le> MAX_METHOD_LEN" "length (rl_uri rl) \<le> MAX_URI_LEN"
    "length (rl_version rl) \<le> MAX_VERSION_LEN"
    by (fact lens)+
qed

text \<open>Every request line within the limits is accepted, and split back into its parts.\<close>

lemma request_line_complete:
  assumes ok: "memchr_ok lib"
    and m: "CHR '' '' \<notin> set m" "CR \<notin> set m" "length m \<le> MAX_METHOD_LEN"
    and u: "CR \<notin> set u" "length u \<le> MAX_URI_LEN"
    and v: "CHR '' '' \<notin> set v" "CR \<notin> set v" "length v \<le> MAX_VERSION_LEN"
  shows "parse_request_line_with lib finder (m @ CHR '' '' # u @ CHR '' '' # v @ CRLF @ rest)
         = Inr (\<lparr>rl_method = m, rl_uri = u, rl_version = v\<rparr>, length m + length u + length v + 4)"
proof -
  let ?line = "m @ CHR '' '' # u @ CHR '' '' # v"
  let ?buf = "?line @ CRLF @ rest"
  have cr: "CR \<notin> set ?line" using m u v by (auto simp: CR_def)
  have c: "crlf_or finder ?buf msg = Inr (length ?line)" for msg
    by (rule crlf_or_line [OF cr])
  have tk: "take (length ?line) ?buf = ?line" by simp
  have len: "length ?line \<le> MAX_REQUEST_LINE" using m u v by (simp add: limit_defs)
  have i1: "ml_memchr lib (CHR '' '') ?line = Some (length m)"
    using ok m(1) by (simp add: memchr_ok_def index_of_append)
  have i2: "ml_memrchr lib (CHR '' '') (u @ CHR '' '' # v) = Some (length u)"
    using ok v(1) by (simp add: memchr_ok_def last_index_of_append)
  have "parse_request_line_with lib finder ?buf
      = Inr (\<lparr>rl_method = m, rl_uri = u, rl_version = v\<rparr>, length ?line + 2)"
    unfolding parse_request_line_with_def Let_def c and_then_simps tk
    using len i1 i2 m u v by (simp add: some_or_def)
  then show ?thesis by (simp add: add.commute add.left_commute)
qed

text \<open>One round of the header loop, as the facts a successful parse gives.\<close>

lemma headers_loop_cases:
  assumes "parse_headers_loop lib finder buf pos tot hs = Inr (out, n)"
  obtains (stop) "take 2 (drop pos buf) = CRLF" "out = hs" "n = pos + 2"
  | (line) crlf h where "pos < length buf" "crlf_at buf (pos + crlf)"
      "parse_header_line lib (take crlf (drop pos buf)) = Inr h"
      "tot + header_cost h \<le> MAX_HEADERS_TOTAL_BYTES" "length hs < MAX_HEADER_COUNT"
      "parse_headers_loop lib finder buf (pos + (crlf + 2)) (tot + header_cost h) (hs @ [h]) = Inr (out, n)"
proof (cases "take 2 (drop pos buf) = CRLF")
  case True
  then show thesis using assms by (intro stop) (simp_all add: parse_headers_loop.simps)
next
  case False
  from assms show thesis
    unfolding parse_headers_loop.simps [of lib finder buf pos] if_not_P [OF False]
      Let_def if_Inl_Inr and_then_Inr crlf_or_Inr not_le not_less header_cost_def [symmetric]
    by (elim exE conjE) (rule line, auto simp: crlf_at_drop)
qed

lemma headers_loop_within:
  assumes "parse_headers_loop lib finder buf pos tot hs = Inr (out, n)"
    and "headers_within hs" and "tot = (\<Sum>h\<leftarrow>hs. header_cost h)"
  shows "headers_within out \<and> 2 \<le> n \<and> n \<le> length buf \<and> take 2 (drop (n - 2) buf) = CRLF"
  using assms
proof (induction "length buf - pos" arbitrary: pos tot hs rule: less_induct)
  case less
  from less.prems(1) show ?case
  proof (cases rule: headers_loop_cases)
    case stop
    then have "2 \<le> length (drop pos buf)"
      by (metis One_nat_def Suc_1 length_Cons length_take list.size(3) min.cobounded1)
    then show ?thesis using stop less.prems by simp
  next
    case (line crlf h)
    have "headers_within (hs @ [h])"
      using line less.prems by (intro headers_within_snoc) (auto intro: parse_header_line_within)
    then show ?thesis
      using line less.prems(3) by (intro less.hyps [OF _ line(6)]) simp_all
  qed
qed

lemma headers_with_within:
  assumes "parse_headers_with lib finder buf = Inr (out, n)"
  shows "headers_within out" and "2 \<le> n" and "n \<le> length buf" and "take 2 (drop (n - 2) buf) = CRLF"
  using headers_loop_within [of lib buf 0 0 "[]" out n] assms
  by (auto simp: parse_headers_with_def headers_within_def if_Inl_Inr)

text \<open>The loop reads back every list of clean headers within the limits.\<close>

lemma headers_loop_step:
  assumes ok: "memchr_ok lib" and pos: "drop pos buf = render_header h @ rest" "pos \<le> length buf"
    and h: "clean_header h" "header_within h"
    and lim: "tot + header_cost h \<le> MAX_HEADERS_TOTAL_BYTES" "length hs < MAX_HEADER_COUNT"
  shows "parse_headers_loop lib finder buf pos tot hs
       = parse_headers_loop lib finder buf (pos + header_cost h) (tot + header_cost h) (hs @ [h])"
proof -
  let ?line = "hd_name h @ '': '' @ hd_value h"
  have dr: "drop pos buf = ?line @ CRLF @ rest" using pos(1) by (simp add: render_header_def)
  have cr: "CR \<notin> set ?line" using h(1) by (auto simp: clean_header_def CR_def)
  have c: "crlf_or finder (drop pos buf) msg = Inr (length ?line)" for msg
    unfolding dr by (rule crlf_or_line [OF cr])
  have not_end: "take 2 (drop pos buf) \<noteq> CRLF"
  proof
    assume a: "take 2 (drop pos buf) = CRLF"
    have "hd (take 2 (drop pos buf)) = hd ?line" unfolding dr by (cases "hd_name h") auto
    moreover have "hd ?line \<in> set ?line" by (cases "hd_name h") auto
    ultimately show False using a cr by simp
  qed
  have less: "\<not> length buf \<le> pos" using dr by (metis append_is_Nil_conv drop_all list.distinct(1))
  have line: "take (length ?line) (drop pos buf) = ?line" unfolding dr by simp
  have cost: "length ?line + 2 = header_cost h" by (simp add: header_cost_def)
  show ?thesis
    unfolding parse_headers_loop.simps [of lib finder buf pos] if_not_P [OF not_end] if_not_P [OF less]
      c and_then_simps line parse_header_line_clean [OF ok h] Let_def header_cost_def [symmetric] cost
    using lim by simp
qed

lemma headers_loop_complete:
  assumes "memchr_ok lib" "list_all clean_header hs" "list_all header_within hs"
    and "drop pos buf = concat (map render_header hs) @ CRLF @ rest" "pos \<le> length buf"
    and "tot + (\<Sum>h\<leftarrow>hs. header_cost h) \<le> MAX_HEADERS_TOTAL_BYTES"
    and "length acc + length hs \<le> MAX_HEADER_COUNT"
  shows "parse_headers_loop lib finder buf pos tot acc
       = Inr (acc @ hs, pos + (\<Sum>h\<leftarrow>hs. header_cost h) + 2)"
  using assms(2-)
proof (induction hs arbitrary: pos tot acc)
  case Nil
  then show ?case by (simp add: parse_headers_loop.simps)
next
  case (Cons h hs)
  have "drop (pos + header_cost h) buf = drop (header_cost h) (drop pos buf)" by (simp add: add.commute)
  also have "\<dots> = concat (map render_header hs) @ CRLF @ rest"
    unfolding Cons.prems(3) by (simp add: length_render_header [symmetric])
  finally have nxt: "drop (pos + header_cost h) buf = concat (map render_header hs) @ CRLF @ rest" .
  then have le: "pos + header_cost h \<le> length buf"
    by (metis append_Cons append_is_Nil_conv drop_all list.distinct(1) nat_le_linear)
  have "parse_headers_loop lib finder buf pos tot acc
      = parse_headers_loop lib finder buf (pos + header_cost h) (tot + header_cost h) (acc @ [h])"
    using Cons.prems
    by (intro headers_loop_step [OF assms(1), where rest = "concat (map render_header hs) @ CRLF @ rest"]) auto
  then show ?case using Cons.IH [OF _ _ nxt le, of "tot + header_cost h" "acc @ [h]"] Cons.prems by simp
qed

lemma headers_with_complete:
  assumes "memchr_ok lib" "list_all clean_header hs" "headers_within hs"
    and "length (concat (map render_header hs) @ CRLF @ rest) \<le> MAX_HEADER_BUFFER"
  shows "parse_headers_with lib finder (concat (map render_header hs) @ CRLF @ rest)
       = Inr (hs, (\<Sum>h\<leftarrow>hs. header_cost h) + 2)"
  using headers_loop_complete [of lib hs 0 "concat (map render_header hs) @ CRLF @ rest" rest 0 "[]"] assms
  unfolding parse_headers_with_def headers_within_def by simp

text \<open>No input makes the parser fault.\<close>

lemma header_line_no_fault: "parse_header_line lib line \<noteq> Inl (Fault f)"
  unfolding parse_header_line_def Let_def by (auto simp: and_then_Inl some_or_def split: option.splits)

lemma headers_loop_no_fault: "parse_headers_loop lib finder buf pos tot hs \<noteq> Inl (Fault f)"
proof (induction "length buf - pos" arbitrary: pos tot hs rule: less_induct)
  case less
  show ?case
  proof
    assume "parse_headers_loop lib finder buf pos tot hs = Inl (Fault f)"
    then have "pos < length buf \<and> (\<exists>crlf h. parse_headers_loop lib finder buf (pos + (crlf + 2))
        (tot + header_cost h) (hs @ [h]) = Inl (Fault f))"
      unfolding parse_headers_loop.simps [of lib finder buf pos] Let_def header_cost_def
      by (auto simp: and_then_Inl crlf_or_no_fault header_line_no_fault split: if_split_asm)
    then show False using less.hyps by (auto simp: diff_less_mono2)
  qed
qed

lemma headers_with_no_fault: "parse_headers_with lib finder buf \<noteq> Inl (Fault f)"
  by (simp add: parse_headers_with_def headers_loop_no_fault)

lemma request_line_no_fault: "parse_request_line_with lib finder buf \<noteq> Inl (Fault f)"
  unfolding parse_request_line_with_def Let_def
  by (auto simp: and_then_Inl crlf_or_no_fault some_or_def split: if_split_asm option.splits)

end

interpretation scalar_finder: crlf_finder "\<lambda>buf. Inr (find_crlf_scalar buf)"
  by unfold_locales (auto simp: find_crlf_scalar_Some find_crlf_scalar_None)

interpretation sse2_finder: crlf_finder find_crlf_sse2
  by unfold_locales (auto simp: find_crlf_sse2_scalar find_crlf_scalar_Some find_crlf_scalar_None)

interpretation avx2_finder: crlf_finder find_crlf_avx2
  by unfold_locales (auto simp: find_crlf_avx2_scalar find_crlf_scalar_Some find_crlf_scalar_None)

interpretation dispatched_finder: crlf_finder "find_crlf lvl" for lvl
  by unfold_locales (auto simp: find_crlf_scalar_eq find_crlf_scalar_Some find_crlf_scalar_None)

section \<open>Percent decoding and URI safety\<close>

text \<open>The percent encoding of one byte (RFC 3986), as a reference for the decoder.\<close>

definition hex_digit :: "8 word \<Rightarrow> char" where
  "hex_digit n = chr8 (if n < 10 then 0x30 + n else 0x41 + (n - 10))"

definition percent_encode_char :: "char \<Rightarrow> string" where
  "percent_encode_char c = [CHR ''%'', hex_digit (drop_bit 4 (u8_of c)), hex_digit (take_bit 4 (u8_of c))]"

lemma word_unat_back: "word_of_nat (unat w) = w"
  by simp

lemma u8_of_chr8 [simp]: "u8_of (chr8 w) = w"
proof -
  have "unat w < 256" using unsigned_less [of w, where 'a = nat] by simp
  then have "of_char (char_of (unat w)) = unat w" by (simp add: of_char_of)
  then have "word_of_nat (of_char (char_of (unat w))) = w" by (simp only: word_unat_back)
  then show ?thesis unfolding u8_of_def chr8_def of_nat_of_char .
qed

lemma chr8_u8_of [simp]: "chr8 (u8_of c) = c"
proof -
  have "u8_of c = word_of_nat (of_char c)" by (simp add: u8_of_def of_nat_of_char)
  then have "unat (u8_of c) = of_char c mod 256" by (simp only: unat_of_nat) simp
  then have "unat (u8_of c) = of_char c" by (simp only: of_char_mod_256)
  then show ?thesis by (simp add: chr8_def)
qed

lemma hex_nibble_digit:
  assumes "n < 16"
  shows "hex_nibble (hex_digit n) = Some n"
proof -
  have k: "unat n < 16" using assms by (simp add: word_less_nat_alt)
  then have "unat n \<in> {0,1,2,3,4,5,6,7,8,9,10,11,12,13,14,15}" by (simp only: insert_iff empty_iff) arith
  then have "n \<in> word_of_nat ` {0,1,2,3,4,5,6,7,8,9,10,11,12,13,14,15}"
    by (metis imageI word_unat_back)
  then show ?thesis by (auto simp: hex_nibble_def hex_digit_def)
qed

lemma nibble_less: "drop_bit 4 w < (16 :: 8 word)" "take_bit 4 w < (16 :: 8 word)"
proof -
  have "unat w < 256" using unsigned_less [of w, where 'a = nat] by simp
  then have "unat w div 16 < 16" by linarith
  then show "drop_bit 4 w < 16" by (simp only: word_less_nat_alt unat_drop_bit_eq) (simp add: drop_bit_eq_div)
  show "take_bit 4 w < 16" by (simp only: word_less_nat_alt unsigned_take_bit_eq) (simp add: take_bit_eq_mod)
qed

lemma nibbles_join: "push_bit 4 (drop_bit 4 w) OR take_bit 4 w = (w :: 8 word)"
  by (rule bit_eqI) (auto simp: bit_simps)

lemma hex_nibbles_of_char:
  "hex_nibble (hex_digit (drop_bit 4 (u8_of c))) = Some (drop_bit 4 (u8_of c))"
  "hex_nibble (hex_digit (take_bit 4 (u8_of c))) = Some (take_bit 4 (u8_of c))"
  by (intro hex_nibble_digit nibble_less)+

lemma percent_decode_encode_char:
  "simd_percent_decode (percent_encode_char c @ s) = c # simd_percent_decode s"
  by (simp add: percent_encode_char_def hex_nibbles_of_char nibbles_join)

lemma percent_decode_encode: "simd_percent_decode (concat (map percent_encode_char s)) = s"
  by (induction s) (simp_all add: percent_decode_encode_char)

lemma percent_decode_plain: "CHR ''%'' \<notin> set s \<Longrightarrow> simd_percent_decode s = s"
  by (induction s rule: simd_percent_decode.induct) auto

text \<open>What \<open>is_uri_safe\<close> means for the segments of a path: none but the last can climb to the
  parent directory, and none but the first and the last can be empty.\<close>

lemma is_uri_safe_no_sub:
  "is_uri_safe u \<Longrightarrow> s \<in> set FORBIDDEN_URI_SEQUENCES \<Longrightarrow> u \<noteq> a @ s @ b"
  using str_contains_iff [of u s] by (auto simp: is_uri_safe_def list_all_iff)

lemma is_uri_safe_dotdot: "is_uri_safe (a @ ''../'' @ b) = False"
  using is_uri_safe_no_sub [of _ "''../''" a b] by (auto simp: FORBIDDEN_URI_SEQUENCES_def)

lemma is_uri_safe_slashes: "is_uri_safe (a @ ''//'' @ b) = False"
  using is_uri_safe_no_sub [of _ "''//''" a b] by (auto simp: FORBIDDEN_URI_SEQUENCES_def)

lemma is_uri_safe_nul: "is_uri_safe u \<Longrightarrow> CHR 0x00 \<notin> set u"
  using is_uri_safe_no_sub [of u "[CHR 0x00]"] by (auto simp: FORBIDDEN_URI_SEQUENCES_def in_set_conv_decomp)

lemma split_on_segment:
  "split_on c u = xs @ p # q # ys \<Longrightarrow> \<exists>a b. u = a @ p @ c # b \<and> (xs = [] \<longrightarrow> a = [])"
proof (induction u arbitrary: xs p)
  case (Cons x u)
  obtain r rs where rs: "split_on c u = r # rs" by (cases "split_on c u") auto
  show ?case
  proof (cases xs)
    case Nil
    show ?thesis
    proof (cases "x = c")
      case False
      with Cons.prems Nil rs have "split_on c u = [] @ r # q # ys" "p = x # r" by auto
      with Cons.IH [of "[]" r] show ?thesis using Nil by auto
    qed (use Cons.prems Nil in auto)
  next
    case (Cons y xs')
    then have "split_on c u = (if x = c then xs' else r # xs') @ p # q # ys"
      using Cons.prems rs by (auto split: if_splits)
    from Cons.IH [OF this] obtain a b where "u = a @ p @ c # b" by blast
    then have "x # u = (x # a) @ p @ c # b" by simp
    then show ?thesis using Cons by blast
  qed
qed simp

lemma is_uri_safe_segments:
  assumes safe: "is_uri_safe u" and p: "p \<in> set (butlast (split_on (CHR ''/'') u))"
  shows "\<not> ends_with p ''..''"
proof
  assume "ends_with p ''..''"
  then obtain p' where p': "p = p' @ ''..''" by (auto simp: ends_with_iff)
  obtain xs z zs where "butlast (split_on (CHR ''/'') u) = xs @ p # zs"
    using p by (meson in_set_conv_decomp)
  then have "split_on (CHR ''/'') u = xs @ p # (zs @ [last (split_on (CHR ''/'') u)])"
    by (metis append_Cons append_assoc append_butlast_last_id split_on_nonempty)
  then obtain q ys where "split_on (CHR ''/'') u = xs @ p # q # ys" by (cases zs) auto
  then obtain a b where "u = a @ p @ CHR ''/'' # b" using split_on_segment by blast
  then have "u = (a @ p') @ ''../'' @ b" using p' by simp
  then show False using safe is_uri_safe_dotdot by metis
qed

section \<open>Properties\<close>

text \<open>C19: a request line that parses is the method, the target and the version separated by one
  space each and ended by CRLF, at the very start of the buffer; the method and the version hold
  no space, every part is within its limit, and the number of bytes consumed is the length of the
  line.\<close>

theorem request_line_soundness:
  assumes "memchr_ok lib" and "parse_request_line lib lvl buf = Inr (rl, n)"
  shows "buf = rl_method rl @ CHR '' '' # rl_uri rl @ CHR '' '' # rl_version rl @ CRLF @ drop n buf
     \<and> CHR '' '' \<notin> set (rl_method rl) \<and> CHR '' '' \<notin> set (rl_version rl)
     \<and> length (rl_method rl) \<le> MAX_METHOD_LEN \<and> length (rl_uri rl) \<le> MAX_URI_LEN
     \<and> length (rl_version rl) \<le> MAX_VERSION_LEN"
  using dispatched_finder.request_line_sound [OF assms(1), of lvl buf rl n] assms(2)
  by (simp add: parse_request_line_def)

text \<open>C20: every request line with parts within the limits is accepted at every SIMD level and
  split into exactly these parts, whatever follows it in the buffer.\<close>

theorem request_line_completeness:
  assumes "memchr_ok lib"
    and "CHR '' '' \<notin> set m" "CR \<notin> set m" "length m \<le> MAX_METHOD_LEN"
    and "CR \<notin> set u" "length u \<le> MAX_URI_LEN"
    and "CHR '' '' \<notin> set v" "CR \<notin> set v" "length v \<le> MAX_VERSION_LEN"
  shows "parse_request_line lib lvl (m @ CHR '' '' # u @ CHR '' '' # v @ CRLF @ rest)
         = Inr (\<lparr>rl_method = m, rl_uri = u, rl_version = v\<rparr>, length m + length u + length v + 4)"
  unfolding parse_request_line_def by (rule dispatched_finder.request_line_complete [OF assms])

theorem request_line_completeness_witness:
  "parse_request_line memchr_ref Avx2 (''GET'' @ CHR '' '' # ''/a b'' @ CHR '' '' # ''HTTP/1.1'' @ CRLF @ ''Host: x'')
   = Inr (\<lparr>rl_method = ''GET'', rl_uri = ''/a b'', rl_version = ''HTTP/1.1''\<rparr>, 19)"
  using request_line_completeness [OF memchr_ref_ok, of "''GET''" "''/a b''" "''HTTP/1.1''" Avx2 "''Host: x''"]
  by (simp add: limit_defs CR_def)

theorem request_line_soundness_witness: "CHR '' '' \<notin> set ''GET'' \<and> length ''/a b'' \<le> MAX_URI_LEN"
proof -
  have "parse_request_line memchr_ref Avx2 (''GET'' @ CHR '' '' # ''/a b'' @ CHR '' '' # ''HTTP/1.1'' @ CRLF @ [])
      = Inr (\<lparr>rl_method = ''GET'', rl_uri = ''/a b'', rl_version = ''HTTP/1.1''\<rparr>, 19)"
    unfolding parse_request_line_def
    using dispatched_finder.request_line_complete [OF memchr_ref_ok, of "''GET''" "''/a b''" "''HTTP/1.1''" Avx2 "[]"]
    by (simp add: limit_defs CR_def)
  from request_line_soundness [OF memchr_ref_ok this] show ?thesis by simp
qed

text \<open>A header block that parses keeps every limit: at most 100 headers, each name and value
  within its bound, the bytes charged within the total, and the count of consumed bytes stays in
  the buffer and stands right after an empty line.\<close>

theorem headers_bounded:
  assumes "parse_headers lib lvl buf = Inr (hs, n)"
  shows "length hs \<le> MAX_HEADER_COUNT
     \<and> list_all (\<lambda>h. length (hd_name h) \<le> MAX_HEADER_NAME_LEN \<and> length (hd_value h) \<le> MAX_HEADER_VALUE_LEN) hs
     \<and> (\<Sum>h\<leftarrow>hs. length (hd_name h) + 2 + length (hd_value h) + 2) \<le> MAX_HEADERS_TOTAL_BYTES
     \<and> 2 \<le> n \<and> n \<le> length buf \<and> take 2 (drop (n - 2) buf) = CRLF"
proof -
  have p: "parse_headers_with lib (find_crlf lvl) buf = Inr (hs, n)"
    using assms by (simp add: parse_headers_def)
  show ?thesis
    using dispatched_finder.headers_with_within [OF p]
    unfolding headers_within_def header_within_def header_cost_def by simp
qed

text \<open>C18: every list of clean headers within the limits is read back in order from its rendering,
  at every SIMD level, and parsing stops at the empty line.\<close>

theorem headers_roundtrip:
  assumes "memchr_ok lib" "list_all clean_header hs" "headers_within hs"
    and "length (concat (map render_header hs) @ CRLF @ rest) \<le> MAX_HEADER_BUFFER"
  shows "parse_headers lib lvl (concat (map render_header hs) @ CRLF @ rest)
         = Inr (hs, (\<Sum>h\<leftarrow>hs. header_cost h) + 2)"
  unfolding parse_headers_def by (rule dispatched_finder.headers_with_complete [OF assms])

definition demo_headers :: "header list" where
  "demo_headers = [\<lparr>hd_name = ''Host'', hd_value = ''example.com''\<rparr>, \<lparr>hd_name = ''A'', hd_value = ''b: c''\<rparr>]"

lemma demo_headers_ok:
  "list_all clean_header demo_headers" "headers_within demo_headers"
  "length (concat (map render_header demo_headers) @ CRLF @ []) \<le> MAX_HEADER_BUFFER"
  by (simp_all add: demo_headers_def clean_header_def trimmed_def is_blank_def CR_def headers_within_def
      header_within_def header_cost_def limit_defs render_header_def)

theorem headers_roundtrip_witness:
  "parse_headers memchr_ref Sse2 (concat (map render_header demo_headers) @ CRLF @ []) = Inr (demo_headers, 30)"
  using headers_roundtrip [OF memchr_ref_ok demo_headers_ok, of Sse2]
  by (simp add: demo_headers_def header_cost_def)

theorem headers_bounded_witness: "length demo_headers \<le> MAX_HEADER_COUNT"
  using headers_bounded [of memchr_ref Sse2 "concat (map render_header demo_headers) @ CRLF @ []"]
    dispatched_finder.headers_with_complete [OF memchr_ref_ok demo_headers_ok, of Sse2]
  by (simp add: parse_headers_def)

text \<open>No input makes the request parser read outside its buffer: neither the request line nor
  the headers ever end in a memory fault.\<close>

theorem parser_memory_safe:
  "parse_request_line lib lvl buf \<noteq> Inl (Fault f) \<and> parse_headers lib lvl buf \<noteq> Inl (Fault f)"
  unfolding parse_request_line_def parse_headers_def
  using dispatched_finder.request_line_no_fault dispatched_finder.headers_with_no_fault by blast

text \<open>Percent decoding undoes percent encoding for every byte string, and leaves a string
  without a percent sign as it is.\<close>

theorem percent_decode_inverse:
  "simd_percent_decode (concat (map percent_encode_char s)) = s
   \<and> (CHR ''%'' \<in> set s \<or> simd_percent_decode s = s)"
  using percent_decode_encode percent_decode_plain by blast

text \<open>A target that passes the URI check holds no NUL, and no segment of it but the last can
  step to the parent directory.\<close>

theorem uri_safe_no_traversal:
  assumes "is_uri_safe u"
  shows "CHR 0x00 \<notin> set u \<and> list_all (\<lambda>p. \<not> ends_with p ''..'') (butlast (split_on (CHR ''/'') u))"
  using is_uri_safe_nul [OF assms] is_uri_safe_segments [OF assms] by (simp add: list_all_iff)

lemma demo_uri_safe: "is_uri_safe ''/a/b..c/..''"
  by (simp add: is_uri_safe_def FORBIDDEN_URI_SEQUENCES_def starts_with_def is_utf8_ascii ascii_code_def)

theorem uri_safe_no_traversal_witness: "\<not> ends_with ''b..c'' ''..''"
  using uri_safe_no_traversal [OF demo_uri_safe] by simp

text \<open>The safety check runs on the target as received: a lower-case encoded slash passes it and is
  decoded to a slash.\<close>

lemma encoded_slash_passes:
  "is_uri_safe ''/a%2fb'' \<and> simd_percent_decode ''/a%2fb'' = ''/a/b''"
proof -
  have "chr8 47 = CHR ''/''" using chr8_u8_of [of "CHR ''/''"] by (simp add: u8_of_def)
  then show ?thesis
    by (simp add: is_uri_safe_def FORBIDDEN_URI_SEQUENCES_def starts_with_def is_utf8_ascii ascii_code_def
        hex_nibble_def u8_of_def)
qed

end
