(* ===== verification/Rust_Net.thy ===== *)
theory Rust_Net
  imports Rust_Num
begin

text \<open>
  The part of \<open>std::net\<close> the sources use: IP and socket addresses, the textual parser behind
  \<open>str::parse::<IpAddr>\<close> and \<open>str::parse::<SocketAddr>\<close>, and the address classes the SSRF
  checks ask for. An IPv6 address is the list of its eight 16-bit segments.
\<close>

datatype ip_addr = V4 "32 word" | V6 "16 word list"

record socket_addr =
  sa_ip :: ip_addr
  sa_port :: "16 word"

section \<open>The address parser\<close>

definition hex_digit_val :: "char \<Rightarrow> nat option" where
  "hex_digit_val c =
     (let n = ascii_code c
      in if 48 \<le> n \<and> n \<le> 57 then Some (n - 48)
         else if 97 \<le> n \<and> n \<le> 102 then Some (n - 87)
         else if 65 \<le> n \<and> n \<le> 70 then Some (n - 55)
         else None)"

definition is_digit_radix :: "nat \<Rightarrow> char \<Rightarrow> bool" where
  "is_digit_radix radix c = (case hex_digit_val c of None \<Rightarrow> False | Some d \<Rightarrow> d < radix)"

definition radix_value :: "nat \<Rightarrow> string \<Rightarrow> nat" where
  "radix_value radix s =
     foldl (\<lambda>n c. radix * n + (case hex_digit_val c of None \<Rightarrow> 0 | Some d \<Rightarrow> d)) 0 s"

text \<open>\<open>Parser::read_number\<close>: the longest run of digits; \<open>None\<close> when it is empty, has more than
  the allowed number of digits, has a forbidden leading zero, or does not fit the width.\<close>

definition read_number ::
  "nat \<Rightarrow> nat option \<Rightarrow> bool \<Rightarrow> nat \<Rightarrow> string \<Rightarrow> (nat \<times> string) option" where
  "read_number radix max_digits allow_zero_prefix bits s =
     (let ds = takeWhile (is_digit_radix radix) s; rest = dropWhile (is_digit_radix radix) s
      in if ds = [] then None
         else if (case max_digits of None \<Rightarrow> False | Some m \<Rightarrow> m < length ds) then None
         else if \<not> allow_zero_prefix \<and> hd ds = CHR ''0'' \<and> 1 < length ds then None
         else let n = radix_value radix ds in if n < 2 ^ bits then Some (n, rest) else None)"

definition read_given_char :: "char \<Rightarrow> string \<Rightarrow> string option" where
  "read_given_char c s = (case s of [] \<Rightarrow> None | x # xs \<Rightarrow> if x = c then Some xs else None)"

definition read_octet :: "string \<Rightarrow> (nat \<times> string) option" where
  "read_octet = read_number 10 (Some 3) False 8"

definition read_dot_octet :: "string \<Rightarrow> (nat \<times> string) option" where
  "read_dot_octet s = Option.bind (read_given_char (CHR ''.'') s) read_octet"

definition ipv4_of_octets :: "nat \<Rightarrow> nat \<Rightarrow> nat \<Rightarrow> nat \<Rightarrow> 32 word" where
  "ipv4_of_octets a b c d = of_nat (((a * 256 + b) * 256 + c) * 256 + d)"

definition read_ipv4_octets :: "string \<Rightarrow> ((nat \<times> nat \<times> nat \<times> nat) \<times> string) option" where
  "read_ipv4_octets s =
     Option.bind (read_octet s) (\<lambda>(a, s).
     Option.bind (read_dot_octet s) (\<lambda>(b, s).
     Option.bind (read_dot_octet s) (\<lambda>(c, s).
     Option.bind (read_dot_octet s) (\<lambda>(d, s). Some ((a, b, c, d), s)))))"

definition read_ipv4_addr :: "string \<Rightarrow> (32 word \<times> string) option" where
  "read_ipv4_addr s = map_option (\<lambda>((a, b, c, d), r). (ipv4_of_octets a b c d, r)) (read_ipv4_octets s)"

definition read_separator :: "nat \<Rightarrow> (string \<Rightarrow> ('a \<times> string) option) \<Rightarrow> string \<Rightarrow> ('a \<times> string) option" where
  "read_separator i inner s =
     (if i = 0 then inner s else Option.bind (read_given_char (CHR '':'') s) inner)"

text \<open>\<open>read_groups\<close>: 16-bit groups separated by colons, the last two possibly written as an
  embedded IPv4 address; the flag says whether they were.\<close>

function read_groups :: "nat \<Rightarrow> nat \<Rightarrow> string \<Rightarrow> nat list \<times> bool \<times> string" where
  "read_groups limit i s =
     (if limit \<le> i then ([], False, s)
      else case (if i < limit - 1 then read_separator i read_ipv4_octets s else None) of
             Some ((a, b, c, d), r) \<Rightarrow> ([a * 256 + b, c * 256 + d], True, r)
           | None \<Rightarrow>
               (case read_separator i (read_number 16 (Some 4) True 16) s of
                  None \<Rightarrow> ([], False, s)
                | Some (g, r) \<Rightarrow>
                    (let (gs, v4, r') = read_groups limit (Suc i) r in (g # gs, v4, r'))))"
  by pat_completeness auto
termination by (relation "measure (\<lambda>(limit, i, s). limit - i)") auto

declare read_groups.simps [simp del]

definition read_ipv6_addr :: "string \<Rightarrow> (16 word list \<times> string) option" where
  "read_ipv6_addr s =
     (let (hd_gs, hd_v4, r) = read_groups 8 0 s
      in if length hd_gs = 8 then Some (map of_nat hd_gs, r)
         else if hd_v4 then None
         else Option.bind (read_given_char (CHR '':'') r) (\<lambda>r.
              Option.bind (read_given_char (CHR '':'') r) (\<lambda>r.
              let (tl_gs, _, r) = read_groups (8 - (length hd_gs + 1)) 0 r
              in Some (map of_nat (hd_gs @ replicate (8 - length hd_gs - length tl_gs) 0 @ tl_gs), r))))"

definition whole :: "('a \<times> string) option \<Rightarrow> 'a option" where
  "whole m = (case m of Some (x, []) \<Rightarrow> Some x | _ \<Rightarrow> None)"

definition parse_ip_addr :: "string \<Rightarrow> ip_addr option" where
  "parse_ip_addr s =
     whole (case read_ipv4_addr s of
              Some (a, r) \<Rightarrow> Some (V4 a, r)
            | None \<Rightarrow> map_option (\<lambda>(a, r). (V6 a, r)) (read_ipv6_addr s))"

definition read_port :: "string \<Rightarrow> (nat \<times> string) option" where
  "read_port s = Option.bind (read_given_char (CHR '':'') s) (read_number 10 None True 16)"

definition read_socket_addr_v4 :: "string \<Rightarrow> (socket_addr \<times> string) option" where
  "read_socket_addr_v4 s =
     Option.bind (read_ipv4_addr s) (\<lambda>(a, r).
     Option.bind (read_port r) (\<lambda>(p, r).
     Some (\<lparr>sa_ip = V4 a, sa_port = of_nat p\<rparr>, r)))"

definition skip_scope_id :: "string \<Rightarrow> string" where
  "skip_scope_id s =
     (case Option.bind (read_given_char (CHR ''%'') s) (read_number 10 None True 32) of
        Some (_, r) \<Rightarrow> r | None \<Rightarrow> s)"

definition read_socket_addr_v6 :: "string \<Rightarrow> (socket_addr \<times> string) option" where
  "read_socket_addr_v6 s =
     Option.bind (read_given_char (CHR ''['') s) (\<lambda>r.
     Option.bind (read_ipv6_addr r) (\<lambda>(a, r).
     Option.bind (read_given_char (CHR '']'') (skip_scope_id r)) (\<lambda>r.
     Option.bind (read_port r) (\<lambda>(p, r).
     Some (\<lparr>sa_ip = V6 a, sa_port = of_nat p\<rparr>, r)))))"

definition parse_socket_addr :: "string \<Rightarrow> socket_addr option" where
  "parse_socket_addr s =
     whole (case read_socket_addr_v4 s of Some x \<Rightarrow> Some x | None \<Rightarrow> read_socket_addr_v6 s)"

section \<open>Address classes\<close>

definition octet :: "32 word \<Rightarrow> nat \<Rightarrow> nat" where
  "octet a i = (unat a div 2 ^ (8 * (3 - i))) mod 256"

fun is_loopback :: "ip_addr \<Rightarrow> bool" where
  "is_loopback (V4 a) = (octet a 0 = 127)"
| "is_loopback (V6 segs) = (segs = [0, 0, 0, 0, 0, 0, 0, 1])"

fun is_unspecified :: "ip_addr \<Rightarrow> bool" where
  "is_unspecified (V4 a) = (a = 0)"
| "is_unspecified (V6 segs) = (segs = [0, 0, 0, 0, 0, 0, 0, 0])"

definition is_private_v4 :: "32 word \<Rightarrow> bool" where
  "is_private_v4 a \<longleftrightarrow>
     octet a 0 = 10 \<or> (octet a 0 = 172 \<and> 16 \<le> octet a 1 \<and> octet a 1 \<le> 31) \<or>
     (octet a 0 = 192 \<and> octet a 1 = 168)"

definition is_link_local_v4 :: "32 word \<Rightarrow> bool" where
  "is_link_local_v4 a \<longleftrightarrow> octet a 0 = 169 \<and> octet a 1 = 254"

text \<open>An unmodified port number is a number too: \<open>SocketAddr::from(([0,0,0,0], port))\<close>.\<close>

definition any_v4 :: "nat \<Rightarrow> socket_addr" where
  "any_v4 port = \<lparr>sa_ip = V4 0, sa_port = of_nat port\<rparr>"

section \<open>Evaluation\<close>

text \<open>The definitions a closed address is evaluated with.\<close>

lemmas net_eval =
  parse_ip_addr_def parse_socket_addr_def whole_def read_ipv4_addr_def read_ipv4_octets_def
  read_octet_def read_dot_octet_def read_number_def read_given_char_def is_digit_radix_def
  hex_digit_val_def ascii_code_def radix_value_def ipv4_of_octets_def read_socket_addr_v4_def
  read_port_def Let_def

lemma parse_ip_loopback: "parse_ip_addr ''127.0.0.1'' = Some (V4 0x7F000001)"
  by (simp add: net_eval)

lemma parse_ip_metadata: "parse_ip_addr ''169.254.169.254'' = Some (V4 0xA9FEA9FE)"
  by (simp add: net_eval)

lemma parse_ip_leading_zero: "parse_ip_addr ''01.2.3.4'' = None"
  by (simp add: net_eval read_ipv6_addr_def read_groups.simps read_separator_def)

lemma parse_ip_v6_loopback: "parse_ip_addr ''::1'' = Some (V6 [0, 0, 0, 0, 0, 0, 0, 1])"
proof -
  have front: "read_groups 8 0 ''::1'' = ([], False, ''::1'')"
    by (simp add: net_eval read_groups.simps [of _ 0] read_separator_def)
  have tail: "read_groups 7 0 ''1'' = ([1], False, [])"
    by (simp add: net_eval read_groups.simps [of 7 0] read_groups.simps [of 7 "Suc 0"]
        read_separator_def)
  show ?thesis
    by (simp add: net_eval read_ipv6_addr_def front tail) (simp add: eval_nat_numeral)
qed

lemma parse_socket_example:
  "parse_socket_addr ''127.0.0.1:8080'' = Some \<lparr>sa_ip = V4 0x7F000001, sa_port = 8080\<rparr>"
  by (simp add: net_eval)

end
