(* ===== verification/Rust_Float.thy ===== *)
theory Rust_Float
  imports Complex_Main Rust_Num
begin

text \<open>
  IEEE floating point, for the two components that compute with it (the token bucket in
  \<open>f64\<close>, the scan score in \<open>f32\<close>). A value is a finite real, an infinity or NaN; the two
  signed zeros are identified. An operation on finite operands is the exact operation followed
  by a rounding function \<open>rnd\<close>, which is a parameter of the model: \<open>ieee_round\<close> states what
  IEEE 754 says about it (it is monotone, never NaN, and exact on integers of at most \<open>p\<close>
  bits), with \<open>p = 53\<close> for \<open>f64\<close> and \<open>p = 24\<close> for \<open>f32\<close>.
\<close>

datatype flt = Finite real | Infinity | Neg_Infinity | NaN

type_synonym rounding = "real \<Rightarrow> flt"

fun flt_le :: "flt \<Rightarrow> flt \<Rightarrow> bool" where
  "flt_le NaN _ = False"
| "flt_le _ NaN = False"
| "flt_le Neg_Infinity _ = True"
| "flt_le _ Infinity = True"
| "flt_le (Finite x) (Finite y) = (x \<le> y)"
| "flt_le _ _ = False"

fun flt_lt :: "flt \<Rightarrow> flt \<Rightarrow> bool" where
  "flt_lt NaN _ = False"
| "flt_lt _ NaN = False"
| "flt_lt (Finite x) (Finite y) = (x < y)"
| "flt_lt Neg_Infinity Neg_Infinity = False"
| "flt_lt Neg_Infinity _ = True"
| "flt_lt Infinity _ = False"
| "flt_lt (Finite _) Infinity = True"
| "flt_lt (Finite _) Neg_Infinity = False"

fun flt_add :: "rounding \<Rightarrow> flt \<Rightarrow> flt \<Rightarrow> flt" where
  "flt_add rnd NaN _ = NaN"
| "flt_add rnd _ NaN = NaN"
| "flt_add rnd (Finite x) (Finite y) = rnd (x + y)"
| "flt_add rnd Infinity Neg_Infinity = NaN"
| "flt_add rnd Neg_Infinity Infinity = NaN"
| "flt_add rnd Infinity _ = Infinity"
| "flt_add rnd _ Infinity = Infinity"
| "flt_add rnd Neg_Infinity _ = Neg_Infinity"
| "flt_add rnd _ Neg_Infinity = Neg_Infinity"

fun flt_neg :: "flt \<Rightarrow> flt" where
  "flt_neg NaN = NaN"
| "flt_neg (Finite x) = Finite (- x)"
| "flt_neg Infinity = Neg_Infinity"
| "flt_neg Neg_Infinity = Infinity"

definition flt_sub :: "rounding \<Rightarrow> flt \<Rightarrow> flt \<Rightarrow> flt" where
  "flt_sub rnd x y = flt_add rnd x (flt_neg y)"

definition signed_inf :: "bool \<Rightarrow> flt" where
  "signed_inf neg = (if neg then Neg_Infinity else Infinity)"

fun flt_mul :: "rounding \<Rightarrow> flt \<Rightarrow> flt \<Rightarrow> flt" where
  "flt_mul rnd NaN _ = NaN"
| "flt_mul rnd _ NaN = NaN"
| "flt_mul rnd (Finite x) (Finite y) = rnd (x * y)"
| "flt_mul rnd (Finite x) Infinity = (if x = 0 then NaN else signed_inf (x < 0))"
| "flt_mul rnd (Finite x) Neg_Infinity = (if x = 0 then NaN else signed_inf (0 < x))"
| "flt_mul rnd Infinity (Finite y) = (if y = 0 then NaN else signed_inf (y < 0))"
| "flt_mul rnd Neg_Infinity (Finite y) = (if y = 0 then NaN else signed_inf (0 < y))"
| "flt_mul rnd Infinity Infinity = Infinity"
| "flt_mul rnd Infinity Neg_Infinity = Neg_Infinity"
| "flt_mul rnd Neg_Infinity Infinity = Neg_Infinity"
| "flt_mul rnd Neg_Infinity Neg_Infinity = Infinity"

fun flt_div :: "rounding \<Rightarrow> flt \<Rightarrow> flt \<Rightarrow> flt" where
  "flt_div rnd NaN _ = NaN"
| "flt_div rnd _ NaN = NaN"
| "flt_div rnd (Finite x) (Finite y) =
     (if y = 0 then (if x = 0 then NaN else signed_inf (x < 0)) else rnd (x / y))"
| "flt_div rnd (Finite x) _ = Finite 0"
| "flt_div rnd Infinity (Finite y) = signed_inf (y < 0)"
| "flt_div rnd Neg_Infinity (Finite y) = signed_inf (0 \<le> y)"
| "flt_div rnd _ _ = NaN"

text \<open>\<open>f64::min\<close>: the other operand when one of them is NaN.\<close>

definition flt_min :: "flt \<Rightarrow> flt \<Rightarrow> flt" where
  "flt_min x y = (if x = NaN then y else if y = NaN then x else if flt_le x y then x else y)"

text \<open>\<open>x as u32\<close>: truncation towards zero, saturating, NaN to 0.\<close>

fun flt_to_u32 :: "flt \<Rightarrow> nat" where
  "flt_to_u32 NaN = 0"
| "flt_to_u32 Neg_Infinity = 0"
| "flt_to_u32 Infinity = 2 ^ 32 - 1"
| "flt_to_u32 (Finite x) = (if x \<le> 0 then 0 else min (2 ^ 32 - 1) (nat \<lfloor>x\<rfloor>))"

definition ieee_round :: "nat \<Rightarrow> rounding \<Rightarrow> bool" where
  "ieee_round p rnd \<longleftrightarrow>
     (\<forall>x y. x \<le> y \<longrightarrow> flt_le (rnd x) (rnd y)) \<and>
     (\<forall>n::int. \<bar>n\<bar> \<le> 2 ^ p \<longrightarrow> rnd (of_int n) = Finite (of_int n))"

text \<open>Exact arithmetic is one rounding function that meets the laws.\<close>

lemma ieee_round_exact: "ieee_round p Finite"
  by (simp add: ieee_round_def)

lemma ieee_round_mono: "ieee_round p rnd \<Longrightarrow> x \<le> y \<Longrightarrow> flt_le (rnd x) (rnd y)"
  by (simp add: ieee_round_def)

lemma ieee_round_nat: "ieee_round p rnd \<Longrightarrow> n \<le> 2 ^ p \<Longrightarrow> rnd (real n) = Finite (real n)"
proof -
  assume r: "ieee_round p rnd" and n: "n \<le> 2 ^ p"
  have "int n \<le> 2 ^ p"
    using n by (metis of_nat_le_iff of_nat_numeral of_nat_power)
  then have "\<bar>int n\<bar> \<le> 2 ^ p" by simp
  with r have "rnd (of_int (int n)) = Finite (of_int (int n))" by (simp only: ieee_round_def)
  then show ?thesis by simp
qed

lemma flt_le_trans: "flt_le x y \<Longrightarrow> flt_le y z \<Longrightarrow> flt_le x z"
  by (cases x; cases y; cases z) auto

lemma flt_le_refl: "x \<noteq> NaN \<Longrightarrow> flt_le x x"
  by (cases x) auto

lemma flt_not_le: "x \<noteq> NaN \<Longrightarrow> y \<noteq> NaN \<Longrightarrow> \<not> flt_le x y \<Longrightarrow> flt_le y x"
  by (cases x; cases y) auto

lemma flt_min_le: "y \<noteq> NaN \<Longrightarrow> flt_le (flt_min x y) y"
  by (auto simp: flt_min_def flt_le_refl)

lemma flt_min_not_NaN: "y \<noteq> NaN \<Longrightarrow> flt_min x y \<noteq> NaN"
  by (auto simp: flt_min_def)

text \<open>A rounded value between two exactly representable integers is finite and between them.\<close>

lemma ieee_round_between:
  assumes r: "ieee_round p rnd" and "real a \<le> x" "x \<le> real b" "b \<le> 2 ^ p"
  shows "\<exists>y. rnd x = Finite y \<and> real a \<le> y \<and> y \<le> real b"
proof -
  have "a \<le> b" using assms(2,3) by linarith
  then have "a \<le> 2 ^ p" using assms(4) by linarith
  then have "flt_le (Finite (real a)) (rnd x)" "flt_le (rnd x) (Finite (real b))"
    using ieee_round_mono [OF r assms(2)] ieee_round_mono [OF r assms(3)]
      ieee_round_nat [OF r] assms(4) by auto
  then show ?thesis by (cases "rnd x") auto
qed

section \<open>Decimal text\<close>

text \<open>\<open><f64 as FromStr>::from_str\<close> and that of \<open>f32\<close>, by the rounding: a sign, then an infinity or NaN by name in any case, or
  digits with an optional fraction and exponent; the decimal value is rounded once.\<close>

definition split_sign :: "string \<Rightarrow> bool \<times> string" where
  "split_sign s = (case s of [] \<Rightarrow> (False, [])
     | c # r \<Rightarrow> if c = CHR ''-'' then (True, r) else if c = CHR ''+'' then (False, r) else (False, s))"

definition parse_exponent :: "string \<Rightarrow> int option" where
  "parse_exponent s =
     (case s of [] \<Rightarrow> Some 0
      | c # r \<Rightarrow>
          if c = CHR ''e'' \<or> c = CHR ''E'' then
            (let (neg, d) = split_sign r
             in if d = [] \<or> \<not> list_all is_ascii_digit d then None
                else Some (if neg then - int (dec_value d) else int (dec_value d)))
          else None)"

definition scale10 :: "nat \<Rightarrow> int \<Rightarrow> real" where
  "scale10 m e = (if 0 \<le> e then real m * 10 ^ nat e else real m / 10 ^ nat (- e))"

definition parse_flt :: "rounding \<Rightarrow> string \<Rightarrow> flt option" where
  "parse_flt rnd s =
     (let (neg, body) = split_sign s;
          low = to_ascii_lowercase body
      in if low = ''inf'' \<or> low = ''infinity'' then Some (signed_inf neg)
         else if low = ''nan'' then Some NaN
         else
           let ip = takeWhile is_ascii_digit body;
               r1 = dropWhile is_ascii_digit body;
               (fp, r2) = (case r1 of [] \<Rightarrow> ([], [])
                           | c # r \<Rightarrow> if c = CHR ''.'' then (takeWhile is_ascii_digit r, dropWhile is_ascii_digit r)
                                     else ([], r1))
           in if ip = [] \<and> fp = [] then None
              else (case parse_exponent r2 of None \<Rightarrow> None
                    | Some e \<Rightarrow>
                        let x = scale10 (dec_value (ip @ fp)) (e - int (length fp))
                        in Some (rnd (if neg then - x else x))))"

lemmas parse_flt_eval =
  parse_flt_def split_sign_def parse_exponent_def scale10_def to_ascii_lowercase_def char_lower_def
  ascii_code_def is_ascii_digit_def dec_value_def digit_val_def Let_def

lemma parse_flt_examples:
  "parse_flt Finite ''0.60'' = Some (Finite (3 / 5))"
  "parse_flt Finite ''-5'' = Some (Finite (-5))"
  "parse_flt Finite ''1e3'' = Some (Finite 1000)"
  "parse_flt Finite ''.'' = None"
  by (simp_all add: parse_flt_eval)

end
