(* ===== verification/Config_Types.thy ===== *)
theory Config_Types
  imports Http_Limits Rust_Net Rust_Float
begin

text \<open>
  The configuration types of \<open>src/config/types.rs\<close>: one record or datatype per Rust type, in
  the file's order, with the two matching methods and the priority method. Fields carry a
  prefix (\<open>srv_\<close>, \<open>loc_\<close>, \<open>http_\<close>) because Isabelle field names are global.

  A compiled \<open>regex::Regex\<close> is the pattern it was compiled from; what it matches is a parameter
  (\<open>re_match\<close>). A \<open>url::Url\<close> is what the sources read of it: scheme, host, port and path.
  \<open>usize\<close>, \<open>u64\<close>, \<open>u32\<close> and \<open>u16\<close> configuration values are naturals below \<open>2 ^ 64\<close>, \<open>2 ^ 32\<close> and
  \<open>2 ^ 16\<close>: \<open>parse_uint\<close> rejects what does not fit, and the parser's only arithmetic on them
  (\<open>parse_size\<close>) writes its wrap-around out.
\<close>

record url =
  url_scheme :: string
  url_host :: "string option"
  url_port_or_known_default :: "nat option"
  url_path :: string

datatype worker_count = Auto | Fixed nat

datatype access_log = Log_Off | Log_File string | Log_Stderr

record listen_directive =
  ld_addr :: socket_addr
  ld_tls :: bool
  ld_http2 :: bool
  ld_default_server :: bool

datatype server_name = Exact_Name string | Wildcard string | Suffix string | CatchAll

datatype return_body = Empty_Body | Text_Body string | Url_Body string

record return_directive =
  rd_status :: nat
  rd_body :: return_body

record error_page =
  ep_codes :: "nat list"
  ep_uri :: string

datatype rewrite_flag = Last | Break | Redirect | Permanent

record rewrite_rule =
  rw_pattern :: string
  rw_replacement :: string
  rw_flag :: rewrite_flag

record auth_basic_config =
  ab_realm :: string
  ab_user_file :: string

record limit_req_zone_def =
  lz_name :: string
  lz_rate_rps :: flt

record limit_req_ref =
  lr_zone :: string
  lr_burst :: nat
  lr_nodelay :: bool

record upstream_group_def =
  ug_name :: string
  ug_peers :: "(string \<times> nat) list"
  ug_policy :: string
  ug_health_interval :: nat
  ug_health_timeout :: nat
  ug_fail_timeout :: nat
  ug_max_fails :: nat
  ug_keepalive :: nat

datatype location_pattern =
    Exact string
  | PrefixNoRegex string
  | Prefix string
  | Regex string string
  | RegexInsensitive string string
  | Named string

datatype fastcgi_upstream = UnixSocket string | Tcp socket_addr

record fastcgi_config =
  fc_upstream :: fastcgi_upstream
  fc_params :: "(string \<times> string) list"
  fc_index :: "string option"
  fc_read_timeout :: nat
  fc_connect_timeout :: nat

record proxy_config =
  pc_upstream :: url
  pc_set_headers :: "(string \<times> string) list"
  pc_read_timeout :: nat
  pc_connect_timeout :: nat
  pc_buffering :: bool
  pc_http2 :: bool
  pc_allow_internal :: bool

datatype location_handler =
    Static
  | FastCgi fastcgi_config
  | Proxy proxy_config
  | Return return_directive
  | UpstreamGroup string

datatype tls_version = Tls12 | Tls13

record tls_config =
  tls_cert_path :: string
  tls_key_path :: string
  tls_min_version :: tls_version

datatype try_files_entry = TF_Path string | TF_StatusCode nat | TF_Named string

record location_block =
  loc_pattern :: location_pattern
  loc_handler :: location_handler
  loc_root :: "string option"
  loc_index :: "string list option"
  loc_try_files :: "try_files_entry list option"
  loc_add_headers :: "(string \<times> string) list"
  loc_client_max_body_size :: "nat option"
  loc_return_directive :: "return_directive option"
  loc_gzip :: "bool option"
  loc_limit_req :: "limit_req_ref option"
  loc_rewrites :: "rewrite_rule list"
  loc_auth_basic :: "auth_basic_config option"

record server_block =
  srv_listen :: "listen_directive list"
  srv_server_names :: "server_name list"
  srv_root :: "string option"
  srv_index :: "string list"
  srv_locations :: "location_block list"
  srv_tls :: "tls_config option"
  srv_access_log :: "access_log option"
  srv_client_max_body_size :: "nat option"
  srv_error_pages :: "error_page list"
  srv_add_headers :: "(string \<times> string) list"
  srv_return_directive :: "return_directive option"
  srv_limit_req :: "limit_req_ref option"
  srv_rewrites :: "rewrite_rule list"
  srv_auth_basic :: "auth_basic_config option"
  srv_ssl_redirect :: bool
  srv_hsts_max_age :: "nat option"
  srv_hsts_include_subdomains :: bool

record http_block =
  http_servers :: "server_block list"
  http_gzip :: bool
  http_gzip_types :: "string list"
  http_gzip_min_length :: nat
  http_brotli :: bool
  http_brotli_types :: "string list"
  http_brotli_min_length :: nat
  http_access_log :: access_log
  http_client_max_body_size :: nat
  http_keepalive_timeout :: nat
  http_send_timeout :: nat
  http_api_key :: string
  http_webui_admin_user :: string
  http_webui_admin_password :: string
  http_limit_req_zones :: "limit_req_zone_def list"
  http_upstream_groups :: "upstream_group_def list"

record config =
  cfg_worker_processes :: worker_count
  cfg_worker_connections :: nat
  cfg_http :: http_block
  cfg_firewall_manage :: bool
  cfg_firewall_backend :: "string option"
  cfg_firewall_tag :: string
  cfg_icmp_protection :: bool
  cfg_numa_pin :: bool
  cfg_scan_detection :: bool
  cfg_scan_window_secs :: nat
  cfg_scan_req_threshold :: nat
  cfg_scan_error_rate :: flt
  cfg_scan_block_secs :: nat
  cfg_scan_abuseipdb_key :: "string option"
  cfg_scan_abuseipdb_report :: bool
  cfg_scan_whitelist :: "ip_addr list"

definition default_types :: "string list" where
  "default_types = [''text/html'', ''text/css'', ''application/javascript'', ''application/json'']"

definition default_http_block :: http_block where
  "default_http_block =
     \<lparr>http_servers = [], http_gzip = False, http_gzip_types = default_types,
      http_gzip_min_length = 1024, http_brotli = False, http_brotli_types = default_types,
      http_brotli_min_length = 1024,
      http_access_log = Log_File ''/var/log/runnginx/access.log'',
      http_client_max_body_size = DEFAULT_MAX_BODY_BYTES,
      http_keepalive_timeout = DEFAULT_KEEPALIVE_TIMEOUT_S, http_send_timeout = 60,
      http_api_key = '''', http_webui_admin_user = ''admin'', http_webui_admin_password = ''admin'',
      http_limit_req_zones = [], http_upstream_groups = []\<rparr>"

definition default_tls_version :: tls_version where
  "default_tls_version = Tls12"

section \<open>Server names\<close>

fun server_name_matches :: "server_name \<Rightarrow> string \<Rightarrow> bool" where
  "server_name_matches (Exact_Name n) host = eq_ignore_ascii_case n host"
| "server_name_matches CatchAll host = True"
| "server_name_matches (Suffix s) host =
     (let s' = trim_start_char (CHR ''.'') s
      in eq_ignore_ascii_case host s' \<or>
         ends_with (to_ascii_lowercase host) (CHR ''.'' # to_ascii_lowercase s'))"
| "server_name_matches (Wildcard w) host =
     (let suffix = trim_start_char (CHR ''*'') w
      in ends_with (to_ascii_lowercase host) (to_ascii_lowercase suffix))"

text \<open>Matching ignores the case of the host on every kind of name.\<close>

lemma server_name_matches_case:
  "server_name_matches n (to_ascii_lowercase host) = server_name_matches n host"
  by (cases n) (simp_all add: eq_ignore_ascii_case_def Let_def)

section \<open>Location patterns\<close>

fun location_priority :: "location_pattern \<Rightarrow> nat" where
  "location_priority (Exact _) = 4"
| "location_priority (PrefixNoRegex _) = 3"
| "location_priority (Regex _ _) = 2"
| "location_priority (RegexInsensitive _ _) = 2"
| "location_priority (Prefix _) = 1"
| "location_priority (Named _) = 0"

text \<open>\<open>re_match re s\<close> stands for \<open>Regex::is_match\<close> of the regex compiled from \<open>re\<close>.\<close>

fun location_matches :: "(string \<Rightarrow> string \<Rightarrow> bool) \<Rightarrow> location_pattern \<Rightarrow> string \<Rightarrow> bool" where
  "location_matches re_match (Exact p) path = (p = path)"
| "location_matches re_match (Prefix p) path = starts_with path p"
| "location_matches re_match (PrefixNoRegex p) path = starts_with path p"
| "location_matches re_match (Regex _ re) path = re_match re path"
| "location_matches re_match (RegexInsensitive _ re) path = re_match re path"
| "location_matches re_match (Named _) path = False"

end
