(* ===== verification/Ranking.thy ===== *)
theory Ranking
  imports Prelude
begin

text \<open>
  The choice of the best candidate of a list, the first one among equals, for a measure into any
  linear order. The router chooses servers and locations this way.
\<close>

text \<open>The first element with the largest value of a measure, and how to find it.\<close>

definition first_max :: "('a \<Rightarrow> 'k::linorder) \<Rightarrow> 'a list \<Rightarrow> 'a \<Rightarrow> bool" where
  "first_max f l x \<longleftrightarrow> (\<exists>xs ys. l = xs @ x # ys \<and> (\<forall>s \<in> set xs. f s < f x) \<and> (\<forall>s \<in> set ys. f s \<le> f x))"

fun first_best :: "('a \<Rightarrow> 'k::linorder) \<Rightarrow> 'a list \<Rightarrow> 'a option" where
  "first_best f [] = None"
| "first_best f (x # xs) =
     (case first_best f xs of None \<Rightarrow> Some x | Some y \<Rightarrow> if f x < f y then Some y else Some x)"

lemma first_best_None [simp]: "first_best f xs = None \<longleftrightarrow> xs = []"
  by (cases xs) (auto split: option.split)

lemma first_max_mem: "first_max f l x \<Longrightarrow> x \<in> set l"
  by (auto simp: first_max_def)

lemma first_max_ge: "first_max f l x \<Longrightarrow> y \<in> set l \<Longrightarrow> f y \<le> f x"
  by (fastforce simp: first_max_def)

lemma first_max_Cons:
  "first_max f (x # xs) y \<longleftrightarrow> (y = x \<and> (\<forall>s \<in> set xs. f s \<le> f x)) \<or> (first_max f xs y \<and> f x < f y)"
proof
  assume m: "first_max f (x # xs) y"
  then obtain as bs where l: "x # xs = as @ y # bs" "\<forall>s \<in> set as. f s < f y" "\<forall>s \<in> set bs. f s \<le> f y"
    by (auto simp: first_max_def)
  show "(y = x \<and> (\<forall>s \<in> set xs. f s \<le> f x)) \<or> (first_max f xs y \<and> f x < f y)"
    using l by (cases as) (auto simp: first_max_def)
next
  assume "(y = x \<and> (\<forall>s \<in> set xs. f s \<le> f x)) \<or> (first_max f xs y \<and> f x < f y)"
  then show "first_max f (x # xs) y"
  proof (elim disjE conjE)
    assume "y = x" "\<forall>s \<in> set xs. f s \<le> f x"
    then show ?thesis unfolding first_max_def by (intro exI [of _ "[]"] exI [of _ xs]) simp
  next
    assume "first_max f xs y" "f x < f y"
    then obtain as bs where "xs = as @ y # bs" "\<forall>s \<in> set as. f s < f y" "\<forall>s \<in> set bs. f s \<le> f y"
      by (auto simp: first_max_def)
    with \<open>f x < f y\<close> show ?thesis unfolding first_max_def by (intro exI [of _ "x # as"] exI [of _ bs]) simp
  qed
qed

lemma first_best_max: "first_best f l = Some x \<Longrightarrow> first_max f l x"
proof (induction l arbitrary: x)
  case (Cons a l)
  show ?case
  proof (cases "first_best f l")
    case None
    then show ?thesis using Cons.prems by (simp add: first_max_Cons)
  next
    case (Some y)
    then have y: "first_max f l y" by (rule Cons.IH)
    show ?thesis
    proof (cases "f a < f y")
      case True
      then show ?thesis using Cons.prems Some y by (simp add: first_max_Cons)
    next
      case False
      then have "\<forall>s \<in> set l. f s \<le> f a" using first_max_ge [OF y] by fastforce
      then show ?thesis using Cons.prems Some False by (simp add: first_max_Cons)
    qed
  qed
qed simp

lemma first_max_unique: "first_max f l x \<Longrightarrow> first_max f l y \<Longrightarrow> x = y"
proof (induction l)
  case (Cons a l)
  have "\<not> (\<forall>s \<in> set l. f s \<le> f a)" if "first_max f l z" "f a < f z" for z
    using first_max_mem [OF that(1)] that(2) by (auto simp: not_le)
  then show ?case using Cons by (auto simp: first_max_Cons)
qed (simp add: first_max_def)

lemma first_best_iff: "first_best f l = Some x \<longleftrightarrow> first_max f l x"
proof
  assume m: "first_max f l x"
  then have "l \<noteq> []" using first_max_mem by fastforce
  then obtain y where "first_best f l = Some y" by (cases "first_best f l") auto
  then show "first_best f l = Some x" using first_max_unique [OF m first_best_max] by simp
qed (rule first_best_max)

text \<open>Finding by a test is choosing the best when the test is being at the top.\<close>

lemma first_max_find:
  assumes "find P l = Some x" "\<forall>s \<in> set l. f s \<le> k" "\<And>s. s \<in> set l \<Longrightarrow> P s \<longleftrightarrow> f s = k"
  shows "first_max f l x"
proof -
  obtain i where i: "i < length l" "P (l ! i)" "x = l ! i" "\<forall>j < i. \<not> P (l ! j)"
    using assms(1) by (auto simp: find_Some_iff)
  then have l: "l = take i l @ x # drop (Suc i) l" by (simp add: id_take_nth_drop)
  have "f x = k" using i assms(3) by auto
  moreover have "f s < k" if s: "s \<in> set (take i l)" for s
  proof -
    obtain j where j: "j < i" "s = l ! j" using s i(1) by (auto simp: in_set_conv_nth)
    then have "f s \<le> k" "f s \<noteq> k" using assms(2,3) i by auto
    then show ?thesis by simp
  qed
  moreover have "f s \<le> k" if "s \<in> set (drop (Suc i) l)" for s
    using that assms(2) by (auto dest: in_set_dropD)
  ultimately show ?thesis using l unfolding first_max_def by blast
qed

text \<open>A loop that keeps the best candidate so far is the same choice.\<close>

definition keep_best :: "('a \<Rightarrow> 'k::linorder) \<Rightarrow> 'a \<Rightarrow> 'a option \<Rightarrow> 'a option" where
  "keep_best f x acc = (case acc of None \<Rightarrow> Some x | Some b \<Rightarrow> if f b < f x then Some x else acc)"

lemma first_best_append:
  "first_best f (xs @ ys) =
     (case first_best f xs of
        None \<Rightarrow> first_best f ys
      | Some b \<Rightarrow> (case first_best f ys of None \<Rightarrow> Some b | Some y \<Rightarrow> if f b < f y then Some y else Some b))"
  by (induction xs) (auto split: option.split)

lemma fold_keep_best: "fold (keep_best f) xs None = first_best f xs"
  by (induction xs rule: rev_induct) (auto simp: first_best_append keep_best_def split: option.split)

end
