(* ===== verification/Router.thy ===== *)
theory Router
  imports Config_Types Ranking
begin

text \<open>
  The request router of \<open>src/router/mod.rs\<close>: the server for a Host header and the location for a
  path. What a regex matches is the parameter \<open>re_match\<close>. Indexing an empty server list panics;
  the model returns \<open>None\<close> there.
\<close>

section \<open>Server selection\<close>

fun is_exact_name :: "server_name \<Rightarrow> bool" where
  "is_exact_name (Exact_Name _) = True" | "is_exact_name _ = False"

fun is_wildcard_name :: "server_name \<Rightarrow> bool" where
  "is_wildcard_name (Wildcard _) = True" | "is_wildcard_name _ = False"

fun is_suffix_name :: "server_name \<Rightarrow> bool" where
  "is_suffix_name (Suffix _) = True" | "is_suffix_name _ = False"

fun is_catch_all :: "server_name \<Rightarrow> bool" where
  "is_catch_all CatchAll = True" | "is_catch_all _ = False"

text \<open>One of the four nested loops: the first server with a name that passes the test.\<close>

definition first_with :: "(server_name \<Rightarrow> bool) \<Rightarrow> server_block list \<Rightarrow> server_block option" where
  "first_with test servers = find (\<lambda>srv. list_ex test (srv_server_names srv)) servers"

definition strip_port :: "string \<Rightarrow> string" where
  "strip_port host = str_trim (hd (split_on (CHR '':'') host))"

definition select_server :: "server_block list \<Rightarrow> string \<Rightarrow> server_block option" where
  "select_server servers raw_host =
     (let host = strip_port raw_host
      in case first_with (\<lambda>n. is_exact_name n \<and> server_name_matches n host) servers of
           Some srv \<Rightarrow> Some srv
         | None \<Rightarrow>
      case first_with (\<lambda>n. is_wildcard_name n \<and> server_name_matches n host) servers of
           Some srv \<Rightarrow> Some srv
         | None \<Rightarrow>
      case first_with (\<lambda>n. is_suffix_name n \<and> server_name_matches n host) servers of
           Some srv \<Rightarrow> Some srv
         | None \<Rightarrow>
      case first_with is_catch_all servers of
           Some srv \<Rightarrow> Some srv
         | None \<Rightarrow> nth_opt servers 0)"

text \<open>How well a server fits a host: 4 for an exact name down to 1 for a catch-all, 0 for none.\<close>

definition name_rank :: "string \<Rightarrow> server_name \<Rightarrow> nat" where
  "name_rank host n =
     (if \<not> server_name_matches n host then 0
      else case n of Exact_Name _ \<Rightarrow> 4 | Wildcard _ \<Rightarrow> 3 | Suffix _ \<Rightarrow> 2 | CatchAll \<Rightarrow> 1)"

definition server_rank :: "string \<Rightarrow> server_block \<Rightarrow> nat" where
  "server_rank host srv = foldr max (map (name_rank host) (srv_server_names srv)) 0"

lemma foldr_max_ge: "(k::nat) \<le> foldr max xs 0 \<longleftrightarrow> k = 0 \<or> list_ex ((\<le>) k) xs"
  by (induction xs) auto

lemma server_rank_ge:
  "k \<le> server_rank host srv \<longleftrightarrow> k = 0 \<or> list_ex (\<lambda>n. k \<le> name_rank host n) (srv_server_names srv)"
  by (simp add: server_rank_def foldr_max_ge list_ex_iff)

lemma server_rank_le4: "server_rank host srv \<le> 4"
proof -
  have "\<not> 5 \<le> server_rank host srv"
    by (auto simp: server_rank_ge list_ex_iff name_rank_def split: server_name.splits if_splits)
  then show ?thesis by simp
qed

lemma name_rank_iff:
  "name_rank host n = 4 \<longleftrightarrow> is_exact_name n \<and> server_name_matches n host"
  "name_rank host n = 3 \<longleftrightarrow> is_wildcard_name n \<and> server_name_matches n host"
  "name_rank host n = 2 \<longleftrightarrow> is_suffix_name n \<and> server_name_matches n host"
  "name_rank host n = Suc 0 \<longleftrightarrow> is_catch_all n"
  by (cases n; simp add: name_rank_def)+

text \<open>One loop, when no server fits better than its level.\<close>

lemma first_with_level:
  assumes le: "\<forall>s \<in> set servers. server_rank host s \<le> Suc k"
  shows "case first_with (\<lambda>n. name_rank host n = Suc k) servers of
      Some srv \<Rightarrow> first_max (server_rank host) servers srv
    | None \<Rightarrow> \<forall>s \<in> set servers. server_rank host s \<le> k"
proof -
  have iff: "list_ex (\<lambda>n. name_rank host n = Suc k) (srv_server_names s) \<longleftrightarrow> server_rank host s = Suc k"
    if s: "s \<in> set servers" for s
  proof -
    have no: "\<not> Suc (Suc k) \<le> server_rank host s" using le s by auto
    have "name_rank host n = Suc k \<longleftrightarrow> Suc k \<le> name_rank host n" if "n \<in> set (srv_server_names s)" for n
      using no that by (auto simp: server_rank_ge list_ex_iff not_less_eq_eq)
    then have "list_ex (\<lambda>n. name_rank host n = Suc k) (srv_server_names s)
        \<longleftrightarrow> list_ex (\<lambda>n. Suc k \<le> name_rank host n) (srv_server_names s)"
      by (auto simp: list_ex_iff)
    also have "\<dots> \<longleftrightarrow> Suc k \<le> server_rank host s" by (simp add: server_rank_ge)
    finally show ?thesis using no by auto
  qed
  show ?thesis
  proof (cases "first_with (\<lambda>n. name_rank host n = Suc k) servers")
    case None
    then have "\<forall>s \<in> set servers. server_rank host s \<noteq> Suc k"
      using iff by (auto simp: first_with_def find_None_iff)
    then show ?thesis unfolding None option.case using le by (auto simp: le_Suc_eq)
  next
    case (Some srv)
    then show ?thesis
      using first_max_find [OF _ le, of _ srv] iff by (simp add: first_with_def)
  qed
qed

lemma select_server_first_max:
  assumes "servers \<noteq> []"
  shows "\<exists>srv. select_server servers raw = Some srv \<and> first_max (server_rank (strip_port raw)) servers srv"
proof -
  let ?h = "strip_port raw"
  have l4: "\<forall>s \<in> set servers. server_rank ?h s \<le> Suc 3"
    using server_rank_le4 [of ?h] by (simp add: eval_nat_numeral)
  note lvl = first_with_level [of servers ?h]
  obtain s0 rest where sv: "servers = s0 # rest" using assms by (cases servers) auto
  have last: "first_max (server_rank ?h) servers s0" if "\<forall>s \<in> set servers. server_rank ?h s \<le> 0"
    using that sv by (auto simp: first_max_def intro!: exI [of _ "[]"])
  have ca: "is_catch_all = (\<lambda>n. name_rank ?h n = Suc 0)" by (rule ext) (simp add: name_rank_iff)
  show ?thesis
    unfolding select_server_def Let_def ca name_rank_iff(1-3) [symmetric]
    using lvl [OF l4] lvl [of 2] lvl [of 1] lvl [of 0] last sv
    by (auto simp: eval_nat_numeral nth_opt_def split: option.splits)
qed

lemma select_server_best: "select_server servers raw = first_best (server_rank (strip_port raw)) servers"
proof (cases "servers = []")
  case True
  then show ?thesis by (simp add: select_server_def first_with_def nth_opt_def)
next
  case False
  then show ?thesis using select_server_first_max [of servers raw] by (auto simp: first_best_iff [symmetric])
qed

section \<open>Location selection\<close>

text \<open>The four variables of the loop; the lengths are those the code keeps beside the blocks.\<close>

record scan_state =
  sc_exact :: "location_block option"
  sc_prefix_no_regex :: "(location_block \<times> nat) option"
  sc_first_regex :: "location_block option"
  sc_prefix :: "(location_block \<times> nat) option"

definition empty_scan :: scan_state where
  "empty_scan = \<lparr>sc_exact = None, sc_prefix_no_regex = None, sc_first_regex = None, sc_prefix = None\<rparr>"

text \<open>\<open>best.map_or(true, |(_, l)| len > l)\<close>\<close>

definition longer :: "nat \<Rightarrow> (location_block \<times> nat) option \<Rightarrow> bool" where
  "longer len best \<longleftrightarrow> (case best of None \<Rightarrow> True | Some (_, l) \<Rightarrow> l < len)"

fun scan_locations ::
  "(string \<Rightarrow> string \<Rightarrow> bool) \<Rightarrow> string \<Rightarrow> location_block list \<Rightarrow> scan_state \<Rightarrow> scan_state" where
  "scan_locations re_match path [] st = st"
| "scan_locations re_match path (loc # locs) st =
     (case loc_pattern loc of
        Exact p \<Rightarrow> if p = path then st\<lparr>sc_exact := Some loc\<rparr> else scan_locations re_match path locs st
      | PrefixNoRegex p \<Rightarrow>
          scan_locations re_match path locs
            (if starts_with path p \<and> longer (length p) (sc_prefix_no_regex st)
             then st\<lparr>sc_prefix_no_regex := Some (loc, length p)\<rparr> else st)
      | Regex _ re \<Rightarrow>
          scan_locations re_match path locs
            (if sc_first_regex st = None \<and> re_match re path then st\<lparr>sc_first_regex := Some loc\<rparr> else st)
      | RegexInsensitive _ re \<Rightarrow>
          scan_locations re_match path locs
            (if sc_first_regex st = None \<and> re_match re path then st\<lparr>sc_first_regex := Some loc\<rparr> else st)
      | Prefix p \<Rightarrow>
          scan_locations re_match path locs
            (if starts_with path p \<and> longer (length p) (sc_prefix st)
             then st\<lparr>sc_prefix := Some (loc, length p)\<rparr> else st)
      | Named _ \<Rightarrow> scan_locations re_match path locs st)"

definition scan_result :: "scan_state \<Rightarrow> location_block option" where
  "scan_result st =
     (if sc_exact st \<noteq> None then sc_exact st
      else if sc_prefix_no_regex st \<noteq> None then map_option fst (sc_prefix_no_regex st)
      else if sc_first_regex st \<noteq> None then sc_first_regex st
      else if sc_prefix st \<noteq> None then map_option fst (sc_prefix st)
      else None)"

definition select_location ::
  "(string \<Rightarrow> string \<Rightarrow> bool) \<Rightarrow> server_block \<Rightarrow> string \<Rightarrow> location_block option" where
  "select_location re_match server path =
     scan_result (scan_locations re_match path (srv_locations server) empty_scan)"

definition find_named_location :: "server_block \<Rightarrow> string \<Rightarrow> location_block option" where
  "find_named_location server name = find (\<lambda>loc. loc_pattern loc = Named name) (srv_locations server)"

section \<open>The order behind the selection\<close>

text \<open>How well a location fits a path: by its kind, and among prefixes of one kind by the length. The
  ranks are a linear order.\<close>

datatype location_rank = Unmatched | By_Prefix nat | By_Regex | By_Prefix_No_Regex nat | By_Exact

fun rank_kind :: "location_rank \<Rightarrow> nat" where
  "rank_kind Unmatched = 0"
| "rank_kind (By_Prefix _) = 1"
| "rank_kind By_Regex = 2"
| "rank_kind (By_Prefix_No_Regex _) = 3"
| "rank_kind By_Exact = 4"

fun rank_length :: "location_rank \<Rightarrow> nat" where
  "rank_length (By_Prefix n) = n"
| "rank_length (By_Prefix_No_Regex n) = n"
| "rank_length _ = 0"

lemma rank_eqI: "rank_kind a = rank_kind b \<Longrightarrow> rank_length a = rank_length b \<Longrightarrow> a = b"
  by (cases a; cases b) simp_all

instantiation location_rank :: linorder
begin

definition less_eq_location_rank :: "location_rank \<Rightarrow> location_rank \<Rightarrow> bool" where
  "less_eq_location_rank a b \<longleftrightarrow>
     rank_kind a < rank_kind b \<or> rank_kind a = rank_kind b \<and> rank_length a \<le> rank_length b"

definition less_location_rank :: "location_rank \<Rightarrow> location_rank \<Rightarrow> bool" where
  "less_location_rank a b \<longleftrightarrow>
     rank_kind a < rank_kind b \<or> rank_kind a = rank_kind b \<and> rank_length a < rank_length b"

instance
proof
  fix a b :: location_rank
  assume "a \<le> b" "b \<le> a"
  then show "a = b" by (intro rank_eqI) (auto simp: less_eq_location_rank_def)
qed (auto simp: less_eq_location_rank_def less_location_rank_def)

end

fun pattern_rank :: "location_pattern \<Rightarrow> location_rank" where
  "pattern_rank (Exact _) = By_Exact"
| "pattern_rank (PrefixNoRegex p) = By_Prefix_No_Regex (length p)"
| "pattern_rank (Regex _ _) = By_Regex"
| "pattern_rank (RegexInsensitive _ _) = By_Regex"
| "pattern_rank (Prefix p) = By_Prefix (length p)"
| "pattern_rank (Named _) = Unmatched"

definition location_rank :: "location_block \<Rightarrow> location_rank" where
  "location_rank loc = pattern_rank (loc_pattern loc)"

lemma rank_kind_priority: "rank_kind (pattern_rank pat) = location_priority pat"
  by (cases pat) simp_all

definition better :: "(string \<Rightarrow> string \<Rightarrow> bool) \<Rightarrow> string \<Rightarrow> location_block \<Rightarrow> location_block option \<Rightarrow> location_block option" where
  "better re_match path loc acc =
     (if location_matches re_match (loc_pattern loc) path then keep_best location_rank loc acc else acc)"

text \<open>What the variables of the loop hold.\<close>

definition scan_ok :: "scan_state \<Rightarrow> bool" where
  "scan_ok st \<longleftrightarrow> sc_exact st = None
     \<and> (case sc_prefix_no_regex st of None \<Rightarrow> True | Some (b, l) \<Rightarrow> \<exists>p. loc_pattern b = PrefixNoRegex p \<and> l = length p)
     \<and> (case sc_first_regex st of None \<Rightarrow> True | Some b \<Rightarrow> \<exists>p r. loc_pattern b = Regex p r \<or> loc_pattern b = RegexInsensitive p r)
     \<and> (case sc_prefix st of None \<Rightarrow> True | Some (b, l) \<Rightarrow> \<exists>p. loc_pattern b = Prefix p \<and> l = length p)"

lemma rank_less_simps [simp]:
  "By_Exact < r \<longleftrightarrow> False"
  "By_Prefix m < By_Prefix n \<longleftrightarrow> m < n"
  "By_Prefix_No_Regex m < By_Prefix_No_Regex n \<longleftrightarrow> m < n"
  "By_Prefix m < By_Regex" "By_Prefix m < By_Prefix_No_Regex n" "By_Regex < By_Prefix_No_Regex n"
  "\<not> By_Regex < By_Regex" "\<not> By_Regex < By_Prefix n" "\<not> By_Prefix_No_Regex m < By_Regex"
  "\<not> By_Prefix_No_Regex m < By_Prefix n"
  by (cases r; simp add: less_location_rank_def)+

lemma scan_result_below_exact:
  "scan_ok st \<Longrightarrow> scan_result st = Some b \<Longrightarrow> location_rank b < By_Exact"
  by (auto simp: scan_ok_def scan_result_def location_rank_def less_location_rank_def split: option.splits if_splits)

lemma fold_better_exact:
  "location_rank b = By_Exact \<Longrightarrow> fold (better re_match path) locs (Some b) = Some b"
  by (induction locs) (simp_all add: better_def keep_best_def)

lemmas scan_defs = scan_ok_def scan_result_def better_def keep_best_def location_rank_def longer_def

text \<open>Each step of the loop is one step of the search for the best location.\<close>

lemma scan_locations_best:
  "scan_ok st \<Longrightarrow> scan_result (scan_locations re_match path locs st) = fold (better re_match path) locs (scan_result st)"
proof (induction locs arbitrary: st)
  case (Cons loc locs)
  show ?case
  proof (cases "loc_pattern loc")
    case (Exact p)
    show ?thesis
    proof (cases "p = path")
      case True
      have "better re_match path loc (scan_result st) = Some loc"
        using scan_result_below_exact [OF Cons.prems] Exact True
        by (auto simp: better_def keep_best_def location_rank_def split: option.splits)
      then show ?thesis
        using Exact True by (simp add: fold_better_exact location_rank_def) (simp add: scan_result_def)
    next
      case False
      then show ?thesis using Exact Cons by (simp add: better_def)
    qed
  next
    case (Named n)
    then show ?thesis using Cons by (simp add: better_def)
  next
    case (PrefixNoRegex p)
    let ?st = "if starts_with path p \<and> longer (length p) (sc_prefix_no_regex st)
        then st\<lparr>sc_prefix_no_regex := Some (loc, length p)\<rparr> else st"
    have "scan_ok ?st" using Cons.prems PrefixNoRegex by (simp add: scan_ok_def)
    moreover have "scan_result ?st = better re_match path loc (scan_result st)"
      using Cons.prems PrefixNoRegex by (auto simp: scan_defs split: option.splits)
    ultimately show ?thesis using Cons.IH [of ?st] PrefixNoRegex by simp
  next
    case (Prefix p)
    let ?st = "if starts_with path p \<and> longer (length p) (sc_prefix st)
        then st\<lparr>sc_prefix := Some (loc, length p)\<rparr> else st"
    have "scan_ok ?st" using Cons.prems Prefix by (simp add: scan_ok_def)
    moreover have "scan_result ?st = better re_match path loc (scan_result st)"
      using Cons.prems Prefix by (auto simp: scan_defs split: option.splits)
    ultimately show ?thesis using Cons.IH [of ?st] Prefix by simp
  next
    case (Regex p r)
    let ?st = "if sc_first_regex st = None \<and> re_match r path then st\<lparr>sc_first_regex := Some loc\<rparr> else st"
    have "scan_ok ?st" using Cons.prems Regex by (simp add: scan_ok_def)
    moreover have "scan_result ?st = better re_match path loc (scan_result st)"
      using Cons.prems Regex by (auto simp: scan_defs split: option.splits)
    ultimately show ?thesis using Cons.IH [of ?st] Regex by simp
  next
    case (RegexInsensitive p r)
    let ?st = "if sc_first_regex st = None \<and> re_match r path then st\<lparr>sc_first_regex := Some loc\<rparr> else st"
    have "scan_ok ?st" using Cons.prems RegexInsensitive by (simp add: scan_ok_def)
    moreover have "scan_result ?st = better re_match path loc (scan_result st)"
      using Cons.prems RegexInsensitive by (auto simp: scan_defs split: option.splits)
    ultimately show ?thesis using Cons.IH [of ?st] RegexInsensitive by simp
  qed
qed simp

lemma fold_better_filter:
  "fold (better re_match path) locs acc
   = fold (keep_best location_rank) (filter (\<lambda>l. location_matches re_match (loc_pattern l) path) locs) acc"
  by (induction locs arbitrary: acc) (simp_all add: better_def)

lemma select_location_best:
  "select_location re_match server path
   = first_best location_rank (filter (\<lambda>l. location_matches re_match (loc_pattern l) path) (srv_locations server))"
proof -
  have "scan_ok empty_scan" "scan_result empty_scan = None"
    by (simp_all add: scan_ok_def empty_scan_def scan_result_def)
  then show ?thesis by (simp add: select_location_def scan_locations_best fold_better_filter fold_keep_best)
qed

lemma select_location_matches:
  assumes "select_location re_match server path = Some b"
  shows "b \<in> set (srv_locations server)" "location_matches re_match (loc_pattern b) path"
  using first_max_mem [OF first_best_max [OF assms [unfolded select_location_best]]] by simp_all

section \<open>Properties\<close>


text \<open>What the choice means, on the lists of the configuration.\<close>

lemma select_location_beats:
  assumes "select_location re_match server path = Some b"
    and "l \<in> set (srv_locations server)" "location_matches re_match (loc_pattern l) path"
  shows "location_rank l \<le> location_rank b"
  using first_max_ge [OF first_best_max [OF assms(1) [unfolded select_location_best]]] assms(2,3) by simp

lemma caret_tilde_over_longer_prefix:
  assumes "select_location re_match server path = Some b"
    and "l \<in> set (srv_locations server)" "loc_pattern l = PrefixNoRegex p" "starts_with path p"
  shows "\<exists>q. loc_pattern b = Exact q \<or> loc_pattern b = PrefixNoRegex q \<and> length p \<le> length q"
  using select_location_beats [OF assms(1,2)] assms(3,4)
  by (cases "loc_pattern b") (simp_all add: location_rank_def less_eq_location_rank_def)

definition demo_srv :: "server_name list \<Rightarrow> server_block" where
  "demo_srv names =
     \<lparr>srv_listen = [], srv_server_names = names, srv_root = None, srv_index = [], srv_locations = [],
      srv_tls = None, srv_access_log = None, srv_client_max_body_size = None, srv_error_pages = [],
      srv_add_headers = [], srv_return_directive = None, srv_limit_req = None, srv_rewrites = [],
      srv_auth_basic = None, srv_ssl_redirect = False, srv_hsts_max_age = None,
      srv_hsts_include_subdomains = True\<rparr>"

end
