(* ===== verification/Rewrite.thy ===== *)
theory Rewrite
  imports Config_Types
begin

text \<open>
  The rewrite engine of \<open>src/rewrite/mod.rs\<close>. The regex crate is the parameter \<open>regex_lib\<close>: whether
  a pattern compiles, whether it matches, and the replacement of the first match.
\<close>

record regex_lib =
  rx_ok :: "string \<Rightarrow> bool"
  rx_is_match :: "string \<Rightarrow> string \<Rightarrow> bool"
  rx_replace :: "string \<Rightarrow> string \<Rightarrow> string \<Rightarrow> string"

datatype rewrite_outcome =
    Rewritten (rewritten_uri: string) (rewritten_stop: bool)
  | RewriteRedirect (redirect_uri: string) (redirect_status: nat)
  | NoMatch

fun rule_outcome :: "rewrite_flag \<Rightarrow> string \<Rightarrow> rewrite_outcome" where
  "rule_outcome Last uri = Rewritten uri False"
| "rule_outcome Break uri = Rewritten uri True"
| "rule_outcome Redirect uri = RewriteRedirect uri 302"
| "rule_outcome Permanent uri = RewriteRedirect uri 301"

fun apply_rewrites :: "regex_lib \<Rightarrow> rewrite_rule list \<Rightarrow> string \<Rightarrow> rewrite_outcome" where
  "apply_rewrites rx [] uri = NoMatch"
| "apply_rewrites rx (rule # rules) uri =
     (if \<not> rx_ok rx (rw_pattern rule) then apply_rewrites rx rules uri
      else if \<not> rx_is_match rx (rw_pattern rule) uri then apply_rewrites rx rules uri
      else rule_outcome (rw_flag rule) (rx_replace rx (rw_pattern rule) uri (rw_replacement rule)))"

definition rule_applies :: "regex_lib \<Rightarrow> string \<Rightarrow> rewrite_rule \<Rightarrow> bool" where
  "rule_applies rx uri rule \<longleftrightarrow> rx_ok rx (rw_pattern rule) \<and> rx_is_match rx (rw_pattern rule) uri"

lemma apply_rewrites_find:
  "apply_rewrites rx rules uri =
     (case find (rule_applies rx uri) rules of None \<Rightarrow> NoMatch
      | Some rule \<Rightarrow> rule_outcome (rw_flag rule) (rx_replace rx (rw_pattern rule) uri (rw_replacement rule)))"
  by (induction rules) (auto simp: rule_applies_def)

lemma rule_outcome_cases:
  "rule_outcome f uri = Rewritten u s \<Longrightarrow> u = uri \<and> (s \<longleftrightarrow> f = Break)"
  "rule_outcome f uri = RewriteRedirect u n \<Longrightarrow> u = uri \<and> (n = 301 \<or> n = 302)"
  by (cases f; auto)+

section \<open>Properties\<close>

text \<open>The outcome is that of the first rule whose pattern compiles and matches: rules that do not
  compile are passed over, later rules have no effect, and a redirect is a 301 or a 302.\<close>

theorem apply_rewrites_first_match:
  "apply_rewrites rx (pre @ rule # post) uri =
     (if list_all (\<lambda>r. \<not> rule_applies rx uri r) pre
      then if rule_applies rx uri rule
           then rule_outcome (rw_flag rule) (rx_replace rx (rw_pattern rule) uri (rw_replacement rule))
           else apply_rewrites rx post uri
      else apply_rewrites rx pre uri)
   \<and> (\<forall>u n. apply_rewrites rx (pre @ rule # post) uri \<noteq> RewriteRedirect u n \<or> n = 301 \<or> n = 302)"
proof
  show "apply_rewrites rx (pre @ rule # post) uri =
     (if list_all (\<lambda>r. \<not> rule_applies rx uri r) pre
      then if rule_applies rx uri rule
           then rule_outcome (rw_flag rule) (rx_replace rx (rw_pattern rule) uri (rw_replacement rule))
           else apply_rewrites rx post uri
      else apply_rewrites rx pre uri)"
    by (induction pre) (auto simp: rule_applies_def)
  show "\<forall>u n. apply_rewrites rx (pre @ rule # post) uri \<noteq> RewriteRedirect u n \<or> n = 301 \<or> n = 302"
    unfolding apply_rewrites_find using rule_outcome_cases(2) by (auto split: option.splits)
qed

text \<open>The disjunction in the statement at a concrete rule list.\<close>

definition demo_rx :: regex_lib where
  "demo_rx = \<lparr>rx_ok = (\<lambda>p. p \<noteq> ''(''), rx_is_match = (=), rx_replace = (\<lambda>p s r. r)\<rparr>"

definition demo_rule :: "string \<Rightarrow> rewrite_flag \<Rightarrow> rewrite_rule" where
  "demo_rule p f = \<lparr>rw_pattern = p, rw_replacement = ''/new'', rw_flag = f\<rparr>"

theorem apply_rewrites_first_match_witness:
  "apply_rewrites demo_rx ([demo_rule ''('' Last] @ demo_rule ''/a'' Permanent # [demo_rule ''/a'' Break]) ''/a''
   = RewriteRedirect ''/new'' 301"
  using apply_rewrites_first_match [of demo_rx "[demo_rule ''('' Last]" "demo_rule ''/a'' Permanent" "[demo_rule ''/a'' Break]" "''/a''"]
  by (simp add: rule_applies_def demo_rx_def demo_rule_def)

end
