(* ===== verification/Limiter.thy ===== *)
theory Limiter
  imports Prelude
begin

text \<open>
  The contract of a per-client rate limiter: a decision depends on the state the limiter keeps
  for that client and on nothing else. What follows from it (no client can change what another
  one is allowed) is proved once here, and used for the \<open>limit_req\<close> zones and for the request
  limiter of the management API.
\<close>

text \<open>A run of a limiter over a sequence of requests: who asked, and the answer.\<close>

fun run_limiter :: "('t \<Rightarrow> 'z \<Rightarrow> 'k \<Rightarrow> bool \<times> 'z) \<Rightarrow> 'z \<Rightarrow> ('t \<times> 'k) list \<Rightarrow> ('k \<times> bool) list" where
  "run_limiter allow z [] = []"
| "run_limiter allow z ((t, k) # es) =
     (let (ok, z') = allow t z k in (k, ok) # run_limiter allow z' es)"

definition answers_for :: "'k \<Rightarrow> ('k \<times> bool) list \<Rightarrow> bool list" where
  "answers_for k rs = map snd (filter (\<lambda>(k', _). k' = k) rs)"

definition requests_of :: "'k \<Rightarrow> ('t \<times> 'k) list \<Rightarrow> ('t \<times> 'k) list" where
  "requests_of k es = filter (\<lambda>(_, k'). k' = k) es"

definition allowed_count :: "bool list \<Rightarrow> nat" where
  "allowed_count bs = length (filter id bs)"

lemma allowed_count_simps [simp]:
  "allowed_count [] = 0"
  "allowed_count (True # bs) = Suc (allowed_count bs)"
  "allowed_count (False # bs) = allowed_count bs"
  by (simp_all add: allowed_count_def)

lemma allowed_count_le: "allowed_count bs \<le> length bs"
  by (simp add: allowed_count_def)

lemma requests_of_simps [simp]:
  "requests_of k [] = []"
  "requests_of k ((t, k') # es) = (if k' = k then (t, k') # requests_of k es else requests_of k es)"
  by (simp_all add: requests_of_def)

locale per_client_limiter =
  fixes allow :: "'t \<Rightarrow> 'z \<Rightarrow> 'k \<Rightarrow> bool \<times> 'z"
    and view :: "'z \<Rightarrow> 'k \<Rightarrow> 'v"
  assumes others_untouched: "k' \<noteq> k \<Longrightarrow> view (snd (allow t z k)) k' = view z k'"
    and own_answer: "view z k = view z' k \<Longrightarrow> fst (allow t z k) = fst (allow t z' k)"
    and own_view: "view z k = view z' k \<Longrightarrow> view (snd (allow t z k)) k = view (snd (allow t z' k)) k"
begin

lemma answers_from_view:
  "view z k = view z' k \<Longrightarrow>
   answers_for k (run_limiter allow z es) = map snd (run_limiter allow z' (requests_of k es))"
proof (induction es arbitrary: z z')
  case Nil
  then show ?case by (simp add: answers_for_def)
next
  case (Cons e es)
  obtain t k' where e: "e = (t, k')" by (cases e)
  obtain ok y where a: "allow t z k' = (ok, y)" by (cases "allow t z k'")
  show ?case
  proof (cases "k' = k")
    case True
    obtain ok' y' where a': "allow t z' k = (ok', y')" by (cases "allow t z' k")
    have "ok' = ok" "view y k = view y' k"
      using own_answer [OF Cons.prems, of t] own_view [OF Cons.prems, of t] a a' True by auto
    then show ?thesis using Cons.IH [of y y'] a a' True by (simp add: e answers_for_def)
  next
    case False
    then have "view y k = view z' k" using others_untouched [of k k' t z] a Cons.prems by simp
    then show ?thesis using Cons.IH [of y z'] a False by (simp add: e answers_for_def)
  qed
qed

text \<open>Isolation: the answers a client gets do not change when the other clients' requests are
  taken out of the run.\<close>

lemma isolation:
  "answers_for k (run_limiter allow z es) = map snd (run_limiter allow z (requests_of k es))"
  by (rule answers_from_view) (rule refl)

end

end
