(* ===== verification/Limit_Req.thy ===== *)
theory Limit_Req
  imports Limiter Rust_Float Rust_Net
begin

text \<open>
  The token bucket limiter of \<open>src/limit_req/mod.rs\<close>. A zone keeps one bucket per client
  address; a request refills its bucket by the time since the last one and takes a token.
  Instants are nanoseconds, the clock is an argument (\<open>now\<close>), \<open>f64\<close> arithmetic is \<open>flt\<close> with
  the rounding \<open>rnd\<close>. \<open>DashMap\<close> is a map; the shard lock is held for a whole call of \<open>allow\<close>,
  so calls are steps.
\<close>

section \<open>Zones\<close>

record bucket =
  bk_tokens :: flt
  bk_last_check :: nat

record zone =
  zn_name :: string
  zn_rate :: flt
  zn_buckets :: "ip_addr \<rightharpoonup> bucket"

definition new_zone :: "string \<Rightarrow> flt \<Rightarrow> zone" where
  "new_zone name rate = \<lparr>zn_name = name, zn_rate = rate, zn_buckets = Map.empty\<rparr>"

text \<open>\<open>Duration::as_secs_f64\<close> of a number of nanoseconds, and \<open>Instant::duration_since\<close>, which is
  zero when the clock went back.\<close>

definition as_secs_f64 :: "rounding \<Rightarrow> nat \<Rightarrow> flt" where
  "as_secs_f64 rnd ns =
     flt_add rnd (rnd (real (ns div 1000000000)))
                 (flt_div rnd (rnd (real (ns mod 1000000000))) (rnd 1000000000))"

definition duration_since :: "nat \<Rightarrow> nat \<Rightarrow> nat" where
  "duration_since now earlier = now - earlier"

definition bucket_take :: "rounding \<Rightarrow> flt \<Rightarrow> nat \<Rightarrow> nat \<Rightarrow> bucket \<Rightarrow> bool \<times> bucket" where
  "bucket_take rnd rate burst now b =
     (let burst_f = rnd (real burst);
          elapsed = as_secs_f64 rnd (duration_since now (bk_last_check b));
          tokens = flt_min (flt_add rnd (bk_tokens b) (flt_mul rnd elapsed rate)) burst_f
      in if flt_le (rnd 1) tokens
         then (True, \<lparr>bk_tokens = flt_sub rnd tokens (rnd 1), bk_last_check = now\<rparr>)
         else (False, \<lparr>bk_tokens = tokens, bk_last_check = now\<rparr>))"

text \<open>\<open>LimitReqZone::allow\<close>; the argument pairs the instant with the burst of the location.\<close>

definition zone_allow :: "rounding \<Rightarrow> nat \<times> nat \<Rightarrow> zone \<Rightarrow> ip_addr \<Rightarrow> bool \<times> zone" where
  "zone_allow rnd nb z ip =
     (let (now, burst) = nb;
          b = (case zn_buckets z ip of
                 Some b \<Rightarrow> b | None \<Rightarrow> \<lparr>bk_tokens = rnd (real burst), bk_last_check = now\<rparr>);
          (ok, b') = bucket_take rnd (zn_rate z) burst now b
      in (ok, z\<lparr>zn_buckets := (zn_buckets z)(ip \<mapsto> b')\<rparr>))"

definition evict_idle :: "rounding \<Rightarrow> nat \<Rightarrow> zone \<Rightarrow> zone" where
  "evict_idle rnd burst z =
     z\<lparr>zn_buckets := (\<lambda>ip. case zn_buckets z ip of None \<Rightarrow> None
         | Some b \<Rightarrow> if flt_lt (bk_tokens b) (flt_mul rnd (rnd (real burst)) (rnd (99 / 100)))
                     then Some b else None)\<rparr>"

section \<open>The zone registry\<close>

type_synonym zone_registry = "string \<rightharpoonup> zone"

definition new_registry :: zone_registry where
  "new_registry = Map.empty"

definition register_zone :: "string \<Rightarrow> flt \<Rightarrow> zone_registry \<Rightarrow> zone_registry" where
  "register_zone name rate reg = reg(name \<mapsto> new_zone name rate)"

definition get_zone :: "zone_registry \<Rightarrow> string \<Rightarrow> zone option" where
  "get_zone reg name = reg name"

definition parse_rate :: "rounding \<Rightarrow> string \<Rightarrow> flt option" where
  "parse_rate rnd s =
     (case strip_suffix s ''r/s'' of
        Some n \<Rightarrow> parse_flt rnd (str_trim n)
      | None \<Rightarrow>
          (case strip_suffix s ''r/m'' of
             Some n \<Rightarrow> map_option (\<lambda>v. flt_div rnd v (rnd 60)) (parse_flt rnd (str_trim n))
           | None \<Rightarrow> None))"

section \<open>Isolation between clients\<close>

definition zone_view :: "zone \<Rightarrow> ip_addr \<Rightarrow> flt \<times> bucket option" where
  "zone_view z ip = (zn_rate z, zn_buckets z ip)"

interpretation zone_limiter: per_client_limiter "zone_allow rnd" zone_view for rnd
  by unfold_locales
     (auto simp: zone_view_def zone_allow_def Let_def split_beta)

section \<open>The bucket\<close>

lemma as_secs_exact: "as_secs_f64 Finite ns = Finite (real ns / 1000000000)"
proof -
  have "real ns = real (ns div 1000000000) * 1000000000 + real (ns mod 1000000000)"
    by (metis div_mult_mod_eq of_nat_add of_nat_mult of_nat_numeral)
  then show ?thesis by (simp add: as_secs_f64_def field_simps)
qed

lemma as_secs_zero: "ieee_round 53 rnd \<Longrightarrow> as_secs_f64 rnd 0 = Finite 0"
proof -
  assume r: "ieee_round 53 rnd"
  have "rnd 0 = Finite 0" "rnd 1000000000 = Finite 1000000000"
    using ieee_round_nat [OF r, of 0] ieee_round_nat [OF r, of 1000000000] by simp_all
  then show ?thesis by (simp add: as_secs_f64_def)
qed

text \<open>Whatever the arithmetic and the rate, a bucket never holds more than the burst.\<close>

lemma bucket_take_le_burst:
  assumes r: "ieee_round 53 rnd" and b: "burst < 2 ^ 32"
  shows "flt_le (bk_tokens (snd (bucket_take rnd rate burst now bk))) (rnd (real burst))"
proof -
  have bf: "rnd (real burst) = Finite (real burst)" and one: "rnd 1 = Finite 1"
    using ieee_round_nat [OF r, of burst] ieee_round_nat [OF r, of 1] b by simp_all
  define t where "t = flt_min (flt_add rnd (bk_tokens bk)
      (flt_mul rnd (as_secs_f64 rnd (duration_since now (bk_last_check bk))) rate)) (rnd (real burst))"
  have t: "flt_le t (rnd (real burst))" unfolding t_def by (rule flt_min_le) (simp add: bf)
  have sub: "flt_le (flt_sub rnd t (rnd 1)) (rnd (real burst))" if "flt_le (rnd 1) t"
  proof (cases t)
    case (Finite x)
    then have "x - 1 \<le> real burst" using t by (simp add: bf)
    then have "flt_le (rnd (x - 1)) (rnd (real burst))" by (rule ieee_round_mono [OF r])
    then show ?thesis by (simp add: Finite flt_sub_def one)
  qed (use t that bf one in auto)
  show ?thesis using t sub unfolding bucket_take_def Let_def t_def [symmetric] by auto
qed

text \<open>The exact arithmetic run: what a client gets in total is bounded by what the bucket held
  plus what the rate has refilled.\<close>

fun bucket_run :: "rounding \<Rightarrow> flt \<Rightarrow> nat \<Rightarrow> bucket \<Rightarrow> nat list \<Rightarrow> bool list" where
  "bucket_run rnd rate burst b [] = []"
| "bucket_run rnd rate burst b (t # ts) =
     (let (ok, b') = bucket_take rnd rate burst t b in ok # bucket_run rnd rate burst b' ts)"

lemma bucket_take_exact:
  assumes "m = min (x + real (t - l) * r / 1000000000) (real burst)"
  shows "bucket_take Finite (Finite r) burst t \<lparr>bk_tokens = Finite x, bk_last_check = l\<rparr>
       = (if 1 \<le> m then (True, \<lparr>bk_tokens = Finite (m - 1), bk_last_check = t\<rparr>)
          else (False, \<lparr>bk_tokens = Finite m, bk_last_check = t\<rparr>))"
proof -
  have "flt_min (Finite (x + real (t - l) * r / 1000000000)) (Finite (real burst)) = Finite m"
    using assms by (simp add: flt_min_def min_def)
  then show ?thesis
    by (simp add: bucket_take_def as_secs_exact duration_since_def Let_def flt_sub_def)
qed

lemma bucket_run_exact:
  assumes "0 \<le> r" "0 \<le> x" "sorted (l # ts)"
  shows "real (allowed_count (bucket_run Finite (Finite r) burst \<lparr>bk_tokens = Finite x, bk_last_check = l\<rparr> ts))
       \<le> x + r * (real (last (l # ts)) - real l) / 1000000000"
  using assms(2,3)
proof (induction ts arbitrary: x l)
  case Nil
  then show ?case by simp
next
  case (Cons t ts)
  define m where "m = min (x + real (t - l) * r / 1000000000) (real burst)"
  have lt: "l \<le> t" "sorted (t # ts)" using Cons.prems by auto
  have m0: "0 \<le> m" using Cons.prems assms(1) by (simp add: m_def)
  have "m \<le> x + real (t - l) * r / 1000000000" by (simp add: m_def)
  then have "m \<le> x + (real t - real l) * r / 1000000000" using lt by (simp add: of_nat_diff)
  then have my: "m + r * (real (last (t # ts)) - real t) / 1000000000
      \<le> x + r * (real (last (l # t # ts)) - real l) / 1000000000"
    by (simp add: field_simps del: last.simps) (simp add: field_simps)
  note step = bucket_take_exact [OF m_def] and run = bucket_run.simps(2) [of Finite]
  show ?case
  proof (cases "1 \<le> m")
    case True
    have "real (allowed_count (bucket_run Finite (Finite r) burst \<lparr>bk_tokens = Finite (m - 1), bk_last_check = t\<rparr> ts))
       \<le> m - 1 + r * (real (last (t # ts)) - real t) / 1000000000"
      by (rule Cons.IH) (use True lt in auto)
    then show ?thesis using my True unfolding run step by (simp del: last.simps)
  next
    case False
    have "real (allowed_count (bucket_run Finite (Finite r) burst \<lparr>bk_tokens = Finite m, bk_last_check = t\<rparr> ts))
       \<le> m + r * (real (last (t # ts)) - real t) / 1000000000"
      by (rule Cons.IH) (use m0 lt in auto)
    then show ?thesis using my False unfolding run step by (simp del: last.simps)
  qed
qed

text \<open>Under IEEE rounding, at one instant: a bucket with \<open>n\<close> whole tokens gives exactly \<open>n\<close>.\<close>

lemma bucket_take_same_instant:
  assumes r: "ieee_round 53 rnd" and "n \<le> burst" "burst < 2 ^ 32"
  shows "bucket_take rnd (Finite q) burst t \<lparr>bk_tokens = Finite (real n), bk_last_check = t\<rparr>
       = (0 < n, \<lparr>bk_tokens = Finite (real (n - 1)), bk_last_check = t\<rparr>)"
proof -
  have ints: "rnd (real k) = Finite (real k)" if "k < 2 ^ 32" for k
    using ieee_round_nat [OF r, of k] that by simp
  have k: "rnd 0 = Finite 0" "rnd 1 = Finite 1" "rnd (real n) = Finite (real n)"
    "rnd (real burst) = Finite (real burst)" "rnd (real n - 1) = Finite (real (n - 1))" if "0 < n"
    using ints [of 0] ints [of 1] ints [of n] ints [of burst] ints [of "n - 1"] assms that
    by (simp_all add: of_nat_diff)
  have k0: "rnd 0 = Finite 0" "rnd 1 = Finite 1" "rnd (real burst) = Finite (real burst)"
    using ints [of 0] ints [of 1] ints [of burst] assms by simp_all
  show ?thesis
  proof (cases "n = 0")
    case True
    then show ?thesis
      using k0 by (simp add: bucket_take_def as_secs_zero [OF r] duration_since_def Let_def flt_min_def)
  next
    case False
    then show ?thesis
      using k assms(2)
      by (simp add: bucket_take_def as_secs_zero [OF r] duration_since_def Let_def flt_min_def flt_sub_def)
  qed
qed

lemma bucket_run_same_instant:
  assumes r: "ieee_round 53 rnd" and b: "burst < 2 ^ 32"
  shows "n \<le> burst \<Longrightarrow>
    bucket_run rnd (Finite q) burst \<lparr>bk_tokens = Finite (real n), bk_last_check = t\<rparr> (replicate k t)
    = replicate (min n k) True @ replicate (k - n) False"
proof (induction k arbitrary: n)
  case 0
  then show ?case by simp
next
  case (Suc k)
  show ?case
    using Suc.IH [of "n - 1"] Suc.prems
    unfolding replicate_Suc bucket_run.simps bucket_take_same_instant [OF r Suc.prems b]
    by (cases n) simp_all
qed

section \<open>From zones to buckets\<close>

text \<open>A client of a zone sees exactly its bucket.\<close>

lemma zone_run_bucket:
  assumes "zn_buckets z ip = Some b"
  shows "map snd (run_limiter (zone_allow rnd) z (map (\<lambda>t. ((t, burst), ip)) ts))
       = bucket_run rnd (zn_rate z) burst b ts"
  using assms
proof (induction ts arbitrary: z b)
  case Nil
  then show ?case by simp
next
  case (Cons t ts)
  then show ?case by (simp add: zone_allow_def split_beta Let_def)
qed

lemma zone_run_fresh:
  assumes "zn_buckets z ip = None"
  shows "map snd (run_limiter (zone_allow rnd) z (map (\<lambda>t. ((t, burst), ip)) (t # ts)))
       = bucket_run rnd (zn_rate z) burst \<lparr>bk_tokens = rnd (real burst), bk_last_check = t\<rparr> (t # ts)"
  using assms by (simp add: zone_allow_def split_beta Let_def zone_run_bucket)

section \<open>Properties\<close>

text \<open>No client can change what another client of the zone is allowed: the answers a client
  gets in any interleaving of requests are those it gets when it is alone.\<close>

theorem zone_isolation:
  "answers_for ip (run_limiter (zone_allow rnd) z es)
   = map snd (run_limiter (zone_allow rnd) z (requests_of ip es))"
  by (rule zone_limiter.isolation)

text \<open>C27: in exact arithmetic a new client is allowed at most its burst plus what the rate refills
  between its first and its last request, for every sequence of request times.\<close>

theorem token_bucket_bound:
  assumes "0 \<le> r" "sorted (t # ts)" "zn_rate z = Finite r" "zn_buckets z ip = None"
  shows "real (allowed_count (map snd (run_limiter (zone_allow Finite) z (map (\<lambda>t. ((t, burst), ip)) (t # ts)))))
       \<le> real burst + r * (real (last (t # ts)) - real t) / 1000000000"
proof -
  have "sorted (t # t # ts)" using assms(2) by auto
  then show ?thesis
    unfolding zone_run_fresh [OF assms(4)] assms(3)
    using bucket_run_exact [OF assms(1), of "real burst" t "t # ts" burst] by simp
qed

theorem token_bucket_bound_witness:
  "real (allowed_count (map snd (run_limiter (zone_allow Finite) (new_zone ''z'' (Finite 2))
      (map (\<lambda>t. ((t, 1), V4 1)) [0, 500000000])))) \<le> 2"
  using token_bucket_bound [of 2 0 "[500000000]" "new_zone ''z'' (Finite 2)" "V4 1" 1]
  by (simp add: new_zone_def)

text \<open>Under IEEE arithmetic, with a finite rate, of the requests a new client sends at one
  instant exactly the first \<open>burst\<close> are allowed; with the default burst of 0 that is none.\<close>

theorem burst_exact:
  assumes "ieee_round 53 rnd" "burst < 2 ^ 32" "zn_rate z = Finite q" "zn_buckets z ip = None"
  shows "map snd (run_limiter (zone_allow rnd) z (map (\<lambda>t. ((t, burst), ip)) (replicate k t)))
       = replicate (min burst k) True @ replicate (k - burst) False"
proof (cases k)
  case (Suc j)
  have b: "rnd (real burst) = Finite (real burst)"
    using ieee_round_nat [OF assms(1), of burst] assms(2) by simp
  show ?thesis
    unfolding Suc replicate_Suc zone_run_fresh [OF assms(4)] assms(3) b
    using bucket_run_same_instant [OF assms(1,2) order_refl, of q t "Suc j"] by simp
qed simp

theorem burst_exact_witness:
  "map snd (run_limiter (zone_allow Finite) (new_zone ''z'' (Finite 10)) (map (\<lambda>t. ((t, 0), V4 1)) (replicate 2 5)))
   = [False, False]"
  using burst_exact [OF ieee_round_exact, of 0 "new_zone ''z'' (Finite 10)" 10 "V4 1" 2 5]
  by (simp add: new_zone_def numeral_2_eq_2)

text \<open>Whatever the rate and the rounding, the tokens left in a bucket never exceed the burst of
  the request that last used it.\<close>

theorem bucket_capped:
  assumes "ieee_round 53 rnd" "burst < 2 ^ 32"
    and "zn_buckets (snd (zone_allow rnd (now, burst) z ip)) ip = Some b"
  shows "flt_le (bk_tokens b) (Finite (real burst))"
proof -
  have "rnd (real burst) = Finite (real burst)"
    using ieee_round_nat [OF assms(1), of burst] assms(2) by simp
  then show ?thesis
    using assms(3) bucket_take_le_burst [OF assms(1,2)]
    by (fastforce simp: zone_allow_def Let_def split_beta)
qed

theorem bucket_capped_witness:
  "\<exists>b. zn_buckets (snd (zone_allow Finite (7, 3) (new_zone ''z'' NaN) (V4 1))) (V4 1) = Some b
       \<and> flt_le (bk_tokens b) (Finite 3)"
proof -
  obtain b where b: "zn_buckets (snd (zone_allow Finite (7, 3) (new_zone ''z'' NaN) (V4 1))) (V4 1) = Some b"
    by (simp add: zone_allow_def Let_def split_beta)
  with bucket_capped [OF ieee_round_exact _ b] show ?thesis by simp
qed

end
