(* ===== verification/Scan_Detector.thy ===== *)
theory Scan_Detector
  imports Limiter Rust_Float Rust_Net
begin

text \<open>
  The scan detector of \<open>src/scan_detector/mod.rs\<close>: one record per client address, a score out of
  100 in \<open>f32\<close> arithmetic (\<open>flt\<close> with the rounding \<open>rnd\<close>), a block once the score reaches 60. The
  tracker lock is held for a whole call, so calls are steps; instants are nanoseconds and the clock
  is an argument. The report to AbuseIPDB runs \<open>curl\<close> in a thread of its own; the model records that
  it is sent, as the third component of \<open>scan_record\<close>.
\<close>

definition SCORE_TRIGGER :: nat where "SCORE_TRIGGER = 60"

definition PROBE_PATHS :: "string list" where
  "PROBE_PATHS =
     [''/.env'', ''/.git'', ''/.gitignore'', ''/.htaccess'', ''/.htpasswd'',
      ''/wp-login.php'', ''/wp-admin'', ''/xmlrpc.php'', ''/wp-config.php'',
      ''/admin'', ''/administrator'', ''/phpmyadmin'', ''/phpMyAdmin'',
      ''/setup.php'', ''/config.php'', ''/install.php'', ''/upgrade.php'',
      ''/cgi-bin/'', ''/shell.php'', ''/webshell.php'', ''/c99.php'', ''/r57.php'',
      ''/proc/self/environ'', ''/etc/passwd'', ''/etc/shadow'',
      ''/.DS_Store'', ''/thumbs.db'',
      ''/actuator'', ''/actuator/health'', ''/actuator/env'',
      ''/console'', ''/manager/html'',
      ''/.aws/credentials'', ''/.ssh/id_rsa'',
      ''/api/swagger'', ''/swagger-ui.html'', ''/openapi.json'',
      ''/vendor/phpunit'', ''/vendor/autoload.php'',
      ''/backup.sql'', ''/backup.zip'', ''/database.sql'']"

record scan_config =
  sn_enabled :: bool
  sn_window_secs :: nat
  sn_req_threshold :: nat
  sn_error_rate_threshold :: flt
  sn_block_secs :: nat
  sn_abuseipdb_key :: "string option"
  sn_abuseipdb_report :: bool
  sn_whitelist :: "ip_addr list"

definition default_scan_config :: "rounding \<Rightarrow> scan_config" where
  "default_scan_config rnd =
     \<lparr>sn_enabled = True, sn_window_secs = 60, sn_req_threshold = 100,
      sn_error_rate_threshold = rnd (60 / 100), sn_block_secs = 3600, sn_abuseipdb_key = None,
      sn_abuseipdb_report = False, sn_whitelist = []\<rparr>"

record ip_record =
  ir_window_start :: nat
  ir_req_count :: nat
  ir_error_4xx :: nat
  ir_probe_paths :: "string set"
  ir_blocked_until :: "nat option"
  ir_last_reported :: "nat option"

definition new_record :: "nat \<Rightarrow> ip_record" where
  "new_record now = \<lparr>ir_window_start = now, ir_req_count = 0, ir_error_4xx = 0, ir_probe_paths = {},
                     ir_blocked_until = None, ir_last_reported = None\<rparr>"

definition reset_window :: "nat \<Rightarrow> ip_record \<Rightarrow> ip_record" where
  "reset_window now r =
     r\<lparr>ir_window_start := now, ir_req_count := 0, ir_error_4xx := 0, ir_probe_paths := {}\<rparr>"

definition scan_score :: "rounding \<Rightarrow> scan_config \<Rightarrow> ip_record \<Rightarrow> nat" where
  "scan_score rnd cfg r =
     (if ir_req_count r = 0 then 0
      else
        let vol = flt_to_u32 (flt_min (flt_mul rnd (flt_div rnd (rnd (real (ir_req_count r))) (rnd (real (sn_req_threshold cfg)))) (rnd 30)) (rnd 30));
            err_rate = flt_div rnd (rnd (real (ir_error_4xx r))) (rnd (real (ir_req_count r)));
            err = (if flt_le (sn_error_rate_threshold cfg) err_rate
                   then flt_to_u32 (flt_min (flt_mul rnd (flt_div rnd err_rate (sn_error_rate_threshold cfg)) (rnd 30)) (rnd 40))
                   else 0);
            probe = min (card (ir_probe_paths r) * 10 mod 2 ^ 32) 30
        in (vol + err + probe) mod 2 ^ 32)"

type_synonym tracker = "ip_addr \<rightharpoonup> ip_record"

record scan_detector =
  sd_config :: scan_config
  sd_tracker :: tracker

definition new_detector :: "scan_config \<Rightarrow> scan_detector" where
  "new_detector cfg = \<lparr>sd_config = cfg, sd_tracker = Map.empty\<rparr>"

definition nanos :: "nat \<Rightarrow> nat" where
  "nanos secs = secs * 1000000000"

definition probes_of :: "string \<Rightarrow> string list" where
  "probes_of path =
     (let path_lower = to_ascii_lowercase path
      in filter (\<lambda>p. starts_with path_lower p \<or> str_contains path_lower p) PROBE_PATHS)"

text \<open>The counting part of \<open>record\<close>, once the client is known not to be blocked.\<close>

definition count_request :: "scan_config \<Rightarrow> nat \<Rightarrow> string \<Rightarrow> nat \<Rightarrow> ip_record \<Rightarrow> ip_record" where
  "count_request cfg now path status r =
     (let r = (if nanos (sn_window_secs cfg) < now - ir_window_start r then reset_window now r else r);
          r = r\<lparr>ir_req_count := (ir_req_count r + 1) mod 2 ^ 64\<rparr>;
          r = (if 400 \<le> status \<and> status < 500 then r\<lparr>ir_error_4xx := (ir_error_4xx r + 1) mod 2 ^ 64\<rparr> else r)
      in r\<lparr>ir_probe_paths := ir_probe_paths r \<union> set (probes_of path)\<rparr>)"

definition scan_record ::
  "rounding \<Rightarrow> nat \<times> string \<times> nat \<Rightarrow> scan_detector \<Rightarrow> ip_addr \<Rightarrow> bool \<times> scan_detector \<times> (ip_addr \<times> nat) list" where
  "scan_record rnd req d ip =
     (let (now, path, status) = req; cfg = sd_config d
      in if \<not> sn_enabled cfg then (False, d, [])
         else if ip \<in> set (sn_whitelist cfg) then (False, d, [])
         else
           let r = (case sd_tracker d ip of Some r \<Rightarrow> r | None \<Rightarrow> new_record now);
               put = (\<lambda>r. d\<lparr>sd_tracker := (sd_tracker d)(ip \<mapsto> r)\<rparr>)
           in if (case ir_blocked_until r of Some e \<Rightarrow> now < e | None \<Rightarrow> False) then (True, put r, [])
              else
                let r = count_request cfg now path status (r\<lparr>ir_blocked_until := None\<rparr>);
                    score = scan_score rnd cfg r
                in if SCORE_TRIGGER \<le> score then
                     let r = r\<lparr>ir_blocked_until :=
                           (if 0 < sn_block_secs cfg then Some (now + nanos (sn_block_secs cfg)) else None)\<rparr>;
                         already = (case ir_last_reported r of Some t \<Rightarrow> now - t < nanos 86400 | None \<Rightarrow> False)
                     in if \<not> already \<and> sn_abuseipdb_report cfg \<and> sn_abuseipdb_key cfg \<noteq> None
                        then (True, put (r\<lparr>ir_last_reported := Some now\<rparr>), [(ip, score)])
                        else (True, put r, [])
                   else (False, put r, []))"

definition is_blocked :: "nat \<Rightarrow> scan_detector \<Rightarrow> ip_addr \<Rightarrow> bool" where
  "is_blocked now d ip =
     (if \<not> sn_enabled (sd_config d) then False
      else case sd_tracker d ip of
             None \<Rightarrow> False
           | Some r \<Rightarrow> (case ir_blocked_until r of None \<Rightarrow> False | Some e \<Rightarrow> now < e))"

definition scan_gc :: "nat \<Rightarrow> scan_detector \<Rightarrow> scan_detector" where
  "scan_gc now d =
     d\<lparr>sd_tracker := (\<lambda>ip. case sd_tracker d ip of None \<Rightarrow> None
        | Some r \<Rightarrow>
            if (case ir_blocked_until r of Some e \<Rightarrow> now < e | None \<Rightarrow> False)
               \<or> now - ir_window_start r < nanos (sn_window_secs (sd_config d) * 3 mod 2 ^ 64)
            then Some r else None)\<rparr>"

section \<open>The score\<close>

lemma flt_min_to_u32:
  assumes "ieee_round 24 rnd" "n \<le> 2 ^ 24"
  shows "flt_to_u32 (flt_min x (rnd (real n))) \<le> n"
proof -
  have r: "rnd (real n) = Finite (real n)" using ieee_round_nat [OF assms] .
  then have "flt_le (flt_min x (rnd (real n))) (Finite (real n))"
    using flt_min_le [of "rnd (real n)" x] by simp
  then show ?thesis
  proof (cases "flt_min x (rnd (real n))")
    case (Finite y)
    assume "flt_le (flt_min x (rnd (real n))) (Finite (real n))"
    then have "y \<le> real n" by (simp add: Finite)
    then have "nat \<lfloor>y\<rfloor> \<le> n" by (simp add: floor_le_iff nat_le_iff)
    then show ?thesis by (simp add: Finite min.coboundedI2)
  qed auto
qed

lemma scan_score_le_100:
  assumes "ieee_round 24 rnd"
  shows "scan_score rnd cfg r \<le> 100"
proof -
  have v: "flt_to_u32 (flt_min x (rnd 30)) \<le> 30" and e: "flt_to_u32 (flt_min x (rnd 40)) \<le> 40" for x
    using flt_min_to_u32 [OF assms, of 30] flt_min_to_u32 [OF assms, of 40] by simp_all
  have sum: "(a + b + min c 30) mod 2 ^ 32 \<le> 100" if "a \<le> 30" "b \<le> 40" for a b c :: nat
    using that by (intro order_trans [OF mod_less_eq_dividend]) simp
  show ?thesis
  proof (cases "ir_req_count r = 0")
    case False
    show ?thesis
      unfolding scan_score_def Let_def if_not_P [OF False]
      by (intro sum v) (simp add: e)
  qed (simp add: scan_score_def)
qed

section \<open>Blocks\<close>

text \<open>\<open>record\<close> as a limiter, the answer being whether the client is blocked.\<close>

definition scan_answer ::
  "rounding \<Rightarrow> nat \<times> string \<times> nat \<Rightarrow> scan_detector \<Rightarrow> ip_addr \<Rightarrow> bool \<times> scan_detector" where
  "scan_answer rnd req d ip = (let (b, d', _) = scan_record rnd req d ip in (b, d'))"

definition scan_view :: "scan_detector \<Rightarrow> ip_addr \<Rightarrow> scan_config \<times> ip_record option" where
  "scan_view d ip = (sd_config d, sd_tracker d ip)"

interpretation scan_limiter: per_client_limiter "scan_answer rnd" scan_view for rnd
  by unfold_locales
     (auto simp: scan_view_def scan_answer_def scan_record_def Let_def split_beta)

text \<open>A client with a block that ends at \<open>e\<close>.\<close>

definition blocked_till :: "scan_detector \<Rightarrow> ip_addr \<Rightarrow> nat \<Rightarrow> bool" where
  "blocked_till d ip e \<longleftrightarrow> sn_enabled (sd_config d) \<and> ip \<notin> set (sn_whitelist (sd_config d))
     \<and> (\<exists>r. sd_tracker d ip = Some r \<and> ir_blocked_until r = Some e)"

lemma blocked_till_answers:
  "blocked_till d ip e \<Longrightarrow> now < e \<Longrightarrow> is_blocked now d ip \<and> fst (scan_record rnd (now, path, status) d ip)"
  by (auto simp: blocked_till_def is_blocked_def scan_record_def Let_def)

lemma blocked_till_record:
  "blocked_till d ip e \<Longrightarrow> now < e \<Longrightarrow> blocked_till (fst (snd (scan_record rnd (now, path, status) d ip'))) ip e"
  by (auto simp: blocked_till_def scan_record_def Let_def)

lemma blocked_till_gc: "blocked_till d ip e \<Longrightarrow> now < e \<Longrightarrow> blocked_till (scan_gc now d) ip e"
  by (auto simp: blocked_till_def scan_gc_def)

text \<open>What may happen to the detector, with the instant at which it happens.\<close>

datatype scan_event = Request nat ip_addr string nat | Collect nat

fun event_time :: "scan_event \<Rightarrow> nat" where
  "event_time (Request t _ _ _) = t" | "event_time (Collect t) = t"

fun scan_event_step :: "rounding \<Rightarrow> scan_event \<Rightarrow> scan_detector \<Rightarrow> scan_detector" where
  "scan_event_step rnd (Request t ip path status) d = fst (snd (scan_record rnd (t, path, status) d ip))"
| "scan_event_step rnd (Collect t) d = scan_gc t d"

lemma blocked_till_events:
  "blocked_till d ip e \<Longrightarrow> list_all (\<lambda>ev. event_time ev < e) evs
   \<Longrightarrow> blocked_till (fold (scan_event_step rnd) evs d) ip e"
proof (induction evs arbitrary: d)
  case (Cons ev evs)
  then show ?case by (cases ev) (auto simp: blocked_till_record blocked_till_gc)
qed simp

lemma scan_record_blocks:
  assumes "fst (scan_record rnd (now, path, status) d ip)" "\<not> is_blocked now d ip" "0 < sn_block_secs (sd_config d)"
  shows "blocked_till (fst (snd (scan_record rnd (now, path, status) d ip))) ip (now + nanos (sn_block_secs (sd_config d)))"
  using assms
  by (auto simp: scan_record_def is_blocked_def blocked_till_def new_record_def Let_def split: if_splits option.splits)

section \<open>Properties\<close>

text \<open>The score never exceeds 100, whatever the counts, the thresholds and the rounding (division
  by a zero threshold included).\<close>

theorem scan_score_bounded:
  assumes "ieee_round 24 rnd"
  shows "scan_score rnd cfg r \<le> 100"
  by (rule scan_score_le_100 [OF assms])

theorem scan_score_bounded_witness:
  "scan_score Finite (default_scan_config Finite) (new_record 0\<lparr>ir_req_count := 7, ir_error_4xx := 7\<rparr>) \<le> 100"
  by (rule scan_score_bounded) (rule ieee_round_exact)

text \<open>C34: a client the detector has just blocked stays blocked until the block time is over: no request
  of anybody and no garbage collection before that lifts the block, and every further request of
  the client is refused.\<close>

theorem block_holds_until_expiry:
  assumes "fst (scan_record rnd (now, path, status) d ip)" "\<not> is_blocked now d ip"
    and "e = now + nanos (sn_block_secs (sd_config d))" "0 < sn_block_secs (sd_config d)"
    and "list_all (\<lambda>ev. event_time ev < e) evs" "later < e"
  shows "is_blocked later (fold (scan_event_step rnd) evs (fst (snd (scan_record rnd (now, path, status) d ip)))) ip
       \<and> fst (scan_record rnd (later, path', status')
               (fold (scan_event_step rnd) evs (fst (snd (scan_record rnd (now, path, status) d ip)))) ip)"
  using blocked_till_answers [OF blocked_till_events [OF scan_record_blocks [OF assms(1,2,4)], folded assms(3), OF assms(5)] assms(6)]
  by blast

lemma gitignore_blocks:
  "scan_record Finite (5, ''/.gitignore'', 404) (new_detector (default_scan_config Finite)) ip
   = (True, (new_detector (default_scan_config Finite))\<lparr>sd_tracker :=
        [ip \<mapsto> \<lparr>ir_window_start = 5, ir_req_count = 1, ir_error_4xx = 1, ir_probe_paths = {''/.git'', ''/.gitignore''},
               ir_blocked_until = Some 3600000000005, ir_last_reported = None\<rparr>]\<rparr>, [])"
proof -
  have p: "probes_of ''/.gitignore'' = [''/.git'', ''/.gitignore'']"
    by (simp add: probes_of_def PROBE_PATHS_def starts_with_def to_ascii_lowercase_def char_lower_def ascii_code_def)
  have f: "\<lfloor>(30 :: real) / 100\<rfloor> = 0" by (simp add: floor_eq_iff)
  show ?thesis
    by (simp add: scan_record_def new_detector_def default_scan_config_def new_record_def count_request_def
        scan_score_def p SCORE_TRIGGER_def nanos_def Let_def flt_min_def reset_window_def f insert_commute)
qed

theorem block_holds_until_expiry_witness:
  "is_blocked 3600000000000 (fold (scan_event_step Finite) [Collect 400000000000]
     (fst (snd (scan_record Finite (5, ''/.gitignore'', 404) (new_detector (default_scan_config Finite)) (V4 1))))) (V4 1)"
proof -
  let ?d = "new_detector (default_scan_config Finite)"
  have secs: "sn_block_secs (sd_config ?d) = 3600" by (simp add: new_detector_def default_scan_config_def)
  have "\<not> is_blocked 5 ?d (V4 1)" by (simp add: is_blocked_def new_detector_def)
  moreover have "fst (scan_record Finite (5, ''/.gitignore'', 404) ?d (V4 1))" by (simp add: gitignore_blocks)
  moreover have "3600000000005 = 5 + nanos (sn_block_secs (sd_config ?d))" by (simp add: secs nanos_def)
  ultimately show ?thesis
    using block_holds_until_expiry [of Finite 5 "''/.gitignore''" 404 ?d "V4 1"
        3600000000005 "[Collect 400000000000]" 3600000000000] secs
    by simp
qed

text \<open>The detector's answers to a client do not depend on the requests of other clients.\<close>

theorem scan_isolation:
  "answers_for ip (run_limiter (scan_answer rnd) d es) = map snd (run_limiter (scan_answer rnd) d (requests_of ip es))"
  by (rule scan_limiter.isolation)

text \<open>With the default configuration one request for one missing file can block a client for an
  hour: the first 404 on a path that holds two of the probe names scores 60.\<close>

theorem single_probe_blocks:
  "fst (scan_record Finite (5, ''/.gitignore'', 404) (new_detector (default_scan_config Finite)) ip)
   \<and> is_blocked 3600000000004 (fst (snd (scan_record Finite (5, ''/.gitignore'', 404)
        (new_detector (default_scan_config Finite)) ip))) ip"
  unfolding gitignore_blocks by (simp add: is_blocked_def new_detector_def default_scan_config_def)

text \<open>Two of the probe names can never match, because the path is made lower case first.\<close>

lemma upper_case_probes_dead:
  "''/phpMyAdmin'' \<notin> set (probes_of path) \<and> ''/.DS_Store'' \<notin> set (probes_of path)"
proof -
  have low: "char_lower c = c" if "c \<in> set (to_ascii_lowercase path)" for c
    using that by (auto simp: to_ascii_lowercase_def)
  have c: "\<not> str_contains (to_ascii_lowercase path) p" if "c \<in> set p" "char_lower c \<noteq> c" for p c
    using low that by (auto simp: str_contains_iff)
  have s: "\<not> starts_with (to_ascii_lowercase path) p" if "c \<in> set p" "char_lower c \<noteq> c" for p c
    using low that by (auto simp: starts_with_iff)
  have up: "char_lower (CHR ''M'') \<noteq> CHR ''M''" "char_lower (CHR ''D'') \<noteq> CHR ''D''"
    by code_simp+
  have "p \<notin> set (probes_of path)" if "c \<in> set p" "char_lower c \<noteq> c" for p c
    using c [OF that] s [OF that] by (simp add: probes_of_def Let_def)
  from this [OF _ up(1)] this [OF _ up(2)] show ?thesis by simp
qed

end
