(* ===== verification/Upstream.thy ===== *)
theory Upstream
  imports Config_Types Steps "HOL-Library.Multiset"
begin

text \<open>
  The load balancer of \<open>src/upstream/mod.rs\<close>. A group is its peers, in order, with their atomic
  counters; a peer is named by its position, as the code's \<open>Arc\<close> is. \<open>connect\<close> is split where it
  awaits: \<open>begin_connect\<close> picks a peer and counts the connection, \<open>connect_ok\<close> or \<open>connect_failed\<close>
  ends the attempt; other tasks may run in between. \<open>u32\<close> and \<open>u64\<close> arithmetic is natural
  arithmetic with its wrap-around written out.
\<close>

datatype lb_policy = RoundRobin | LeastConn | IpHash | Random

record peer_config =
  pcfg_addr :: socket_addr
  pcfg_weight :: nat

record upstream_group_config =
  ugc_name :: string
  ugc_peers :: "peer_config list"
  ugc_policy :: lb_policy
  ugc_fail_timeout_secs :: nat
  ugc_max_fails :: nat

record peer_state =
  pe_addr :: socket_addr
  pe_weight :: nat
  pe_active_conns :: nat
  pe_fails :: nat
  pe_down_until :: nat

record upstream_group =
  up_name :: string
  up_peers :: "peer_state list"
  up_policy :: lb_policy
  up_rr_counter :: nat
  up_fail_timeout_secs :: nat
  up_max_fails :: nat

abbreviation wrap32 :: "nat \<Rightarrow> nat" where "wrap32 n \<equiv> n mod 2 ^ 32"
abbreviation wrap64 :: "nat \<Rightarrow> nat" where "wrap64 n \<equiv> n mod 2 ^ 64"

definition new_peer :: "peer_config \<Rightarrow> peer_state" where
  "new_peer p = \<lparr>pe_addr = pcfg_addr p, pe_weight = pcfg_weight p, pe_active_conns = 0, pe_fails = 0,
                 pe_down_until = 0\<rparr>"

definition new_group :: "upstream_group_config \<Rightarrow> upstream_group" where
  "new_group cfg =
     \<lparr>up_name = ugc_name cfg, up_peers = map new_peer (ugc_peers cfg), up_policy = ugc_policy cfg,
      up_rr_counter = 0, up_fail_timeout_secs = ugc_fail_timeout_secs cfg,
      up_max_fails = ugc_max_fails cfg\<rparr>"

definition parse_lb_policy :: "string \<Rightarrow> lb_policy" where
  "parse_lb_policy s =
     (if s = ''least_conn'' then LeastConn else if s = ''ip_hash'' then IpHash
      else if s = ''random'' then Random else RoundRobin)"

section \<open>Choosing a peer\<close>

definition available :: "upstream_group \<Rightarrow> nat \<Rightarrow> nat list" where
  "available g now = filter (\<lambda>i. pe_down_until (up_peers g ! i) \<le> now) [0..<length (up_peers g)]"

text \<open>The weighted choice: the first available peer whose cumulated weight exceeds the slot.\<close>

fun slot_peer :: "(nat \<Rightarrow> nat) \<Rightarrow> nat \<Rightarrow> nat \<Rightarrow> nat list \<Rightarrow> nat option" where
  "slot_peer weight cum slot [] = None"
| "slot_peer weight cum slot (i # js) =
     (let cum = wrap32 (cum + weight i)
      in if slot < cum then Some i else slot_peer weight cum slot js)"

definition total_weight :: "(nat \<Rightarrow> nat) \<Rightarrow> nat list \<Rightarrow> nat" where
  "total_weight weight js = wrap32 (\<Sum>i\<leftarrow>js. weight i)"

definition weighted_choice :: "(nat \<Rightarrow> nat) \<Rightarrow> nat list \<Rightarrow> nat \<Rightarrow> nat" where
  "weighted_choice weight js idx =
     (let slot = wrap32 idx mod max (total_weight weight js) 1
      in case slot_peer weight 0 slot js of Some i \<Rightarrow> i | None \<Rightarrow> hd js)"

text \<open>\<open>min_by_key\<close>: the first of the smallest.\<close>

fun min_by_key :: "('a \<Rightarrow> nat) \<Rightarrow> 'a list \<Rightarrow> 'a option" where
  "min_by_key f [] = None"
| "min_by_key f (x # xs) =
     (case min_by_key f xs of None \<Rightarrow> Some x | Some y \<Rightarrow> if f y < f x then Some y else Some x)"

fun ip_hash :: "ip_addr \<Rightarrow> nat" where
  "ip_hash (V4 v4) = (let n = unat v4 in n XOR (n div 2 ^ 16))"
| "ip_hash (V6 segments) = foldl (\<lambda>h s. wrap64 (wrap64 (h * 31) + unat s)) 0 segments"

definition pick_peer :: "upstream_group \<Rightarrow> nat \<Rightarrow> ip_addr option \<Rightarrow> (nat \<times> upstream_group) option" where
  "pick_peer g now client_ip =
     (let av = available g now
      in if av = [] then None
         else case up_policy g of
           RoundRobin \<Rightarrow>
             Some (weighted_choice (\<lambda>i. pe_weight (up_peers g ! i)) av (up_rr_counter g),
                   g\<lparr>up_rr_counter := wrap64 (up_rr_counter g + 1)\<rparr>)
         | LeastConn \<Rightarrow>
             (case min_by_key (\<lambda>i. pe_active_conns (up_peers g ! i)) av of
                Some i \<Rightarrow> Some (i, g) | None \<Rightarrow> None)
         | IpHash \<Rightarrow>
             (let hash = (case client_ip of Some ip \<Rightarrow> ip_hash ip | None \<Rightarrow> 0)
              in Some (av ! (hash mod length av), g))
         | Random \<Rightarrow> Some (av ! ((now XOR (now div 2 ^ 17)) mod length av), g))"

definition on_peer :: "nat \<Rightarrow> (peer_state \<Rightarrow> peer_state) \<Rightarrow> upstream_group \<Rightarrow> upstream_group" where
  "on_peer i f g = g\<lparr>up_peers := (up_peers g)[i := f (up_peers g ! i)]\<rparr>"

definition add_conn :: "peer_state \<Rightarrow> peer_state" where
  "add_conn p = p\<lparr>pe_active_conns := wrap32 (pe_active_conns p + 1)\<rparr>"

definition sub_conn :: "peer_state \<Rightarrow> peer_state" where
  "sub_conn p = p\<lparr>pe_active_conns := wrap32 (pe_active_conns p + 2 ^ 32 - 1)\<rparr>"

section \<open>Connecting\<close>

definition begin_connect :: "upstream_group \<Rightarrow> nat \<Rightarrow> ip_addr option \<Rightarrow> (nat \<times> upstream_group) option" where
  "begin_connect g now client_ip =
     (case pick_peer g now client_ip of None \<Rightarrow> None | Some (i, g) \<Rightarrow> Some (i, on_peer i add_conn g))"

definition mark_fail :: "nat \<Rightarrow> nat \<Rightarrow> upstream_group \<Rightarrow> upstream_group" where
  "mark_fail i now g =
     on_peer i (\<lambda>p.
       let old = pe_fails p; p = p\<lparr>pe_fails := wrap32 (old + 1)\<rparr>
       in if up_max_fails g \<le> wrap32 (old + 1) \<and> 0 < up_fail_timeout_secs g
          then p\<lparr>pe_down_until := wrap64 (now + up_fail_timeout_secs g)\<rparr> else p) g"

definition connect_ok :: "nat \<Rightarrow> upstream_group \<Rightarrow> upstream_group" where
  "connect_ok i g = on_peer i (\<lambda>p. p\<lparr>pe_fails := 0\<rparr>) g"

definition connect_failed :: "nat \<Rightarrow> nat \<Rightarrow> upstream_group \<Rightarrow> upstream_group" where
  "connect_failed i now g = mark_fail i now (on_peer i sub_conn g)"

text \<open>\<open>stream.set_nodelay(true)?\<close> failing: the connection is dropped and nothing is undone.\<close>

definition connect_nodelay_failed :: "nat \<Rightarrow> upstream_group \<Rightarrow> upstream_group" where
  "connect_nodelay_failed i g = g"

fun find_index :: "('a \<Rightarrow> bool) \<Rightarrow> 'a list \<Rightarrow> nat option" where
  "find_index P [] = None"
| "find_index P (x # xs) = (if P x then Some 0 else map_option Suc (find_index P xs))"

definition release :: "socket_addr \<Rightarrow> upstream_group \<Rightarrow> upstream_group" where
  "release addr g =
     (case find_index (\<lambda>p. pe_addr p = addr) (up_peers g) of
        None \<Rightarrow> g | Some i \<Rightarrow> on_peer i sub_conn g)"

text \<open>One peer of one round of the health check loop; \<open>ok\<close> is the outcome of the probe.\<close>

definition health_probe :: "nat \<Rightarrow> bool \<Rightarrow> nat \<Rightarrow> upstream_group \<Rightarrow> upstream_group" where
  "health_probe i ok now g =
     (if ok \<and> now < pe_down_until (up_peers g ! i)
      then on_peer i (\<lambda>p. p\<lparr>pe_down_until := 0, pe_fails := 0\<rparr>) g
      else if \<not> ok then mark_fail i now g
      else g)"

section \<open>The registry\<close>

type_synonym upstream_registry = "string \<rightharpoonup> upstream_group"

definition register_group :: "upstream_group \<Rightarrow> upstream_registry \<Rightarrow> upstream_registry" where
  "register_group g reg = reg(up_name g \<mapsto> g)"

definition get_group :: "upstream_registry \<Rightarrow> string \<Rightarrow> upstream_group option" where
  "get_group reg name = reg name"

section \<open>The choice\<close>

lemma slot_peer_mem: "slot_peer w cum slot js = Some i \<Longrightarrow> i \<in> set js"
  by (induction w cum slot js rule: slot_peer.induct) (auto simp: Let_def split: if_splits)

lemma weighted_choice_mem: "js \<noteq> [] \<Longrightarrow> weighted_choice w js idx \<in> set js"
  by (auto simp: weighted_choice_def Let_def split: option.splits intro: slot_peer_mem)

lemma min_by_key_mem: "min_by_key f xs = Some x \<Longrightarrow> x \<in> set xs \<and> (\<forall>y \<in> set xs. f x \<le> f y)"
proof (induction xs arbitrary: x)
  case (Cons a xs)
  show ?case
  proof (cases "min_by_key f xs")
    case None
    then have "xs = []" by (cases xs) (auto split: option.splits if_splits)
    then show ?thesis using Cons.prems by simp
  next
    case (Some y)
    then show ?thesis using Cons.IH [OF Some] Cons.prems by (auto split: if_splits)
  qed
qed simp

lemma min_by_key_None: "min_by_key f xs = None \<longleftrightarrow> xs = []"
proof (cases xs)
  case (Cons a l)
  then show ?thesis by (cases "min_by_key f l") auto
qed simp

lemma pick_peer_available:
  "pick_peer g now ip = Some (i, g') \<Longrightarrow> i \<in> set (available g now) \<and> up_peers g' = up_peers g"
  by (auto simp: pick_peer_def Let_def weighted_choice_mem dest!: min_by_key_mem
      split: if_splits lb_policy.splits option.splits)

lemma pick_peer_None: "pick_peer g now ip = None \<longleftrightarrow> available g now = []"
  by (auto simp: pick_peer_def Let_def min_by_key_None split: lb_policy.splits option.splits)

section \<open>Fairness of the weighted round robin\<close>

text \<open>Without overflow of the weights, the slots of one period are shared out by weight.\<close>

lemma slot_peer_shift:
  assumes "cum + (\<Sum>i\<leftarrow>js. weight i) < 2 ^ 32" "cum \<le> slot"
  shows "slot_peer weight cum slot js = slot_peer weight 0 (slot - cum) js"
  using assms
proof (induction js arbitrary: cum slot)
  case (Cons i js)
  have sm: "cum + weight i < 2 ^ 32" "weight i < 2 ^ 32" "weight i + (\<Sum>i\<leftarrow>js. weight i) < 2 ^ 32"
    using Cons.prems by simp_all
  show ?case
  proof (cases "slot < cum + weight i")
    case True
    then show ?thesis using sm Cons.prems by (simp add: Let_def) linarith
  next
    case False
    then have "slot_peer weight (cum + weight i) slot js = slot_peer weight 0 (slot - (cum + weight i)) js"
      using Cons.IH [of "cum + weight i" slot] Cons.prems by simp
    moreover have "slot_peer weight (weight i) (slot - cum) js = slot_peer weight 0 (slot - cum - weight i) js"
      using Cons.IH [of "weight i" "slot - cum"] False sm Cons.prems by simp
    ultimately show ?thesis using sm False Cons.prems by (simp add: Let_def) linarith
  qed
qed simp

lemma slot_peer_shares:
  assumes "distinct js" "(\<Sum>i\<leftarrow>js. weight i) < 2 ^ 32" "i \<in> set js"
  shows "length (filter (\<lambda>s. slot_peer weight 0 s js = Some i) [0..<\<Sum>i\<leftarrow>js. weight i]) = weight i"
  using assms
proof (induction js)
  case (Cons a js)
  let ?W = "\<Sum>i\<leftarrow>js. weight i"
  have small: "weight a < 2 ^ 32" "?W < 2 ^ 32" "weight a + ?W < 2 ^ 32" using Cons.prems by simp_all
  have split: "[0..<\<Sum>i\<leftarrow>a # js. weight i] = [0..<weight a] @ map (\<lambda>s. s + weight a) [0..<?W]"
    using upt_add_eq_append [of 0 "weight a" ?W] map_add_upt [of "weight a" ?W] by (simp add: add.commute [of ?W])
  have first: "filter (\<lambda>s. slot_peer weight 0 s (a # js) = Some i) [0..<weight a]
      = (if i = a then [0..<weight a] else [])"
    using small by (auto simp: filter_id_conv filter_empty_conv Let_def)
  have "slot_peer weight 0 (s + weight a) (a # js) = slot_peer weight 0 s js" for s
    using small slot_peer_shift [where cum = "weight a" and js = js and weight = weight and slot = "s + weight a"] by (simp add: Let_def)
  then have rest: "length (filter (\<lambda>s. slot_peer weight 0 s (a # js) = Some i) (map (\<lambda>s. s + weight a) [0..<?W]))
      = length (filter (\<lambda>s. slot_peer weight 0 s js = Some i) [0..<?W])"
    by (simp only: filter_map o_def length_map)
  show ?case
  proof (cases "i = a")
    case True
    then have "filter (\<lambda>s. slot_peer weight 0 s js = Some i) [0..<?W] = []"
      using Cons.prems by (auto simp: filter_empty_conv dest: slot_peer_mem)
    then show ?thesis unfolding split filter_append length_append first rest using True by simp
  next
    case False
    then show ?thesis unfolding split filter_append length_append first rest using Cons small by simp
  qed
qed simp

lemma filter_rotate_length: "length (filter P (rotate n xs)) = length (filter P xs)"
proof -
  have "mset (rotate n xs) = mset xs"
    by (simp add: rotate_drop_take) (metis append_take_drop_id mset_append union_commute)
  then show ?thesis by (metis mset_filter size_mset)
qed

lemma map_mod_rotate: "map (\<lambda>k. (c + k) mod W) [0..<W] = rotate c [0..<W]"
  by (rule nth_equalityI) (auto simp: nth_rotate add.commute)

text \<open>A run of picks at one time, with nothing else changing the group.\<close>

primrec pick_many :: "upstream_group \<Rightarrow> nat \<Rightarrow> ip_addr option \<Rightarrow> nat \<Rightarrow> nat list" where
  "pick_many g now ip 0 = []"
| "pick_many g now ip (Suc n) =
     (case pick_peer g now ip of None \<Rightarrow> [] | Some (i, g') \<Rightarrow> i # pick_many g' now ip n)"

abbreviation weight_of :: "upstream_group \<Rightarrow> nat \<Rightarrow> nat" where
  "weight_of g i \<equiv> pe_weight (up_peers g ! i)"

lemma available_counter [simp]: "available (g\<lparr>up_rr_counter := c\<rparr>) now = available g now"
  by (simp add: available_def)

lemma pick_many_round_robin:
  assumes "up_policy g = RoundRobin" "available g now \<noteq> []" "up_rr_counter g + n \<le> 2 ^ 32"
  shows "pick_many g now ip n
       = map (\<lambda>k. weighted_choice (weight_of g) (available g now) (up_rr_counter g + k)) [0..<n]"
  using assms
proof (induction n arbitrary: g)
  case (Suc n)
  let ?g = "g\<lparr>up_rr_counter := up_rr_counter g + 1\<rparr>"
  have w: "wrap64 (up_rr_counter g + 1) = up_rr_counter g + 1" using Suc.prems by simp
  have p: "pick_peer g now ip = Some (weighted_choice (weight_of g) (available g now) (up_rr_counter g), ?g)"
    using Suc.prems w by (simp add: pick_peer_def Let_def)
  have "pick_many ?g now ip n = map (\<lambda>k. weighted_choice (weight_of ?g) (available ?g now) (up_rr_counter ?g + k)) [0..<n]"
    using Suc.prems by (intro Suc.IH) simp_all
  then show ?case
    by (simp add: p map_upt_Suc del: upt_Suc)
qed simp

lemma weighted_choice_slot:
  assumes "(\<Sum>i\<leftarrow>js. weight i) = W" "0 < W" "W < 2 ^ 32" "idx < 2 ^ 32"
  shows "weighted_choice weight js idx = (case slot_peer weight 0 (idx mod W) js of Some i \<Rightarrow> i | None \<Rightarrow> hd js)"
proof -
  have "wrap32 W = W" "max W 1 = W" "wrap32 idx = idx" using assms by simp_all
  then show ?thesis using assms(1) by (simp only: weighted_choice_def total_weight_def Let_def)
qed

lemma slot_peer_total:
  "slot < (\<Sum>i\<leftarrow>js. weight i) \<Longrightarrow> (\<Sum>i\<leftarrow>js. weight i) < 2 ^ 32 \<Longrightarrow> \<exists>i. slot_peer weight 0 slot js = Some i"
proof (induction js arbitrary: slot)
  case (Cons a js)
  show ?case
  proof (cases "slot < weight a")
    case False
    then have "slot_peer weight (weight a) slot js = slot_peer weight 0 (slot - weight a) js"
      using Cons.prems by (intro slot_peer_shift) auto
    then show ?thesis using Cons.IH [of "slot - weight a"] False Cons.prems by (simp add: Let_def)
  qed (use Cons.prems in \<open>simp add: Let_def\<close>)
qed simp

lemma round_robin_fair:
  assumes "up_policy g = RoundRobin" "(\<Sum>i\<leftarrow>available g now. weight_of g i) = W" "0 < W" "W < 2 ^ 32"
    and "up_rr_counter g + W \<le> 2 ^ 32" "i \<in> set (available g now)"
  shows "length (filter (\<lambda>j. j = i) (pick_many g now ip W)) = weight_of g i"
proof -
  let ?av = "available g now" and ?c = "up_rr_counter g"
  have choice: "weighted_choice (weight_of g) ?av (?c + k) = j \<longleftrightarrow> slot_peer (weight_of g) 0 ((?c + k) mod W) ?av = Some j"
    if "k < W" for k j
    using weighted_choice_slot [OF assms(2-4), where idx = "?c + k"] slot_peer_total [where slot = "(?c + k) mod W" and js = ?av and weight = "weight_of g"]
      that assms(2-5) by auto
  have "?av \<noteq> []" using assms(6) by auto
  then have run: "filter (\<lambda>j. j = i) (pick_many g now ip W)
      = map (\<lambda>k. weighted_choice (weight_of g) ?av (?c + k))
          (filter (\<lambda>k. weighted_choice (weight_of g) ?av (?c + k) = i) [0..<W])"
    by (simp add: pick_many_round_robin [OF assms(1) _ assms(5)] filter_map o_def)
  have "filter (\<lambda>k. weighted_choice (weight_of g) ?av (?c + k) = i) [0..<W]
      = filter (\<lambda>k. slot_peer (weight_of g) 0 ((?c + k) mod W) ?av = Some i) [0..<W]"
    by (rule filter_cong) (auto simp: choice)
  then have "length (filter (\<lambda>j. j = i) (pick_many g now ip W))
      = length (filter (\<lambda>s. slot_peer (weight_of g) 0 s ?av = Some i) (map (\<lambda>k. (?c + k) mod W) [0..<W]))"
    unfolding run by (simp add: filter_map o_def)
  also have "\<dots> = length (filter (\<lambda>s. slot_peer (weight_of g) 0 s ?av = Some i) [0..<W])"
    unfolding map_mod_rotate by (rule filter_rotate_length)
  also have "\<dots> = weight_of g i"
    using slot_peer_shares [where js = ?av and weight = "weight_of g" and i = i] assms by (simp add: available_def)
  finally show ?thesis .
qed

section \<open>Connection counting as a state machine\<close>

text \<open>The group with, as a ghost, the positions of the peers of all attempts in flight and
  connections open, one entry each. Any task may move at any time.\<close>

inductive up_step :: "upstream_group \<times> nat list \<Rightarrow> upstream_group \<times> nat list \<Rightarrow> bool" where
  start: "begin_connect g now ip = Some (i, g') \<Longrightarrow> up_step (g, conns) (g', i # conns)"
| succeed: "i \<in> set conns \<Longrightarrow> up_step (g, conns) (connect_ok i g, conns)"
| fail: "i \<in> set conns \<Longrightarrow> up_step (g, conns) (connect_failed i now g, remove1 i conns)"
| finish: "i \<in> set conns \<Longrightarrow> up_step (g, conns) (release (pe_addr (up_peers g ! i)) g, remove1 i conns)"
| probe: "i < length (up_peers g) \<Longrightarrow> up_step (g, conns) (health_probe i ok now g, conns)"

inductive_cases up_stepE: "up_step s t"

definition conns_ok :: "upstream_group \<times> nat list \<Rightarrow> bool" where
  "conns_ok s \<longleftrightarrow> (case s of (g, conns) \<Rightarrow>
     distinct (map pe_addr (up_peers g)) \<and> set conns \<subseteq> {..<length (up_peers g)}
     \<and> (\<forall>i < length (up_peers g). pe_active_conns (up_peers g ! i) = wrap32 (count_list conns i)))"

lemma on_peer_simps [simp]:
  "length (up_peers (on_peer i f g)) = length (up_peers g)"
  "up_peers (on_peer i f g) = (up_peers g)[i := f (up_peers g ! i)]"
  by (simp_all add: on_peer_def)

lemma map_addr_update:
  "pe_addr (f (ps ! i)) = pe_addr (ps ! i) \<Longrightarrow> map pe_addr (ps[i := f (ps ! i)]) = map pe_addr ps"
  by (metis list_update_id map_update)

lemma nth_update: "j < length xs \<Longrightarrow> xs[i := y] ! j = (if i = j then y else xs ! j)"
  by simp

text \<open>An update that leaves the address and the count alone changes nothing for the invariant.\<close>

lemma conns_ok_on_peer:
  assumes "conns_ok (g, conns)" "pe_addr (f (up_peers g ! i)) = pe_addr (up_peers g ! i)"
    and "pe_active_conns (f (up_peers g ! i)) = pe_active_conns (up_peers g ! i)"
  shows "conns_ok (on_peer i f g, conns)"
  using assms by (auto simp: conns_ok_def map_addr_update nth_update)

lemma conns_ok_mark_fail: "conns_ok (g, conns) \<Longrightarrow> conns_ok (mark_fail i now g, conns)"
  unfolding mark_fail_def by (erule conns_ok_on_peer) (simp_all add: Let_def)

lemma wrap32_sub: "0 < n \<Longrightarrow> wrap32 (wrap32 n + 2 ^ 32 - 1) = wrap32 (n - 1)"
proof -
  assume "0 < n"
  have "wrap32 n + 2 ^ 32 - 1 = wrap32 n + (2 ^ 32 - 1)" by simp
  then have "wrap32 (wrap32 n + 2 ^ 32 - 1) = wrap32 (n + (2 ^ 32 - 1))" by (metis mod_add_left_eq)
  also have "n + (2 ^ 32 - 1) = (n - 1) + 2 ^ 32" using \<open>0 < n\<close> by simp
  finally show ?thesis by (metis mod_add_self2)
qed

lemma count_list_remove1: "i \<in> set xs \<Longrightarrow> count_list (remove1 i xs) j = count_list xs j - (if j = i then 1 else 0)"
  by (induction xs) (auto simp: count_list_0_iff)

lemma conns_ok_sub:
  assumes "conns_ok (g, conns)" "i \<in> set conns"
  shows "conns_ok (on_peer i sub_conn g, remove1 i conns)"
proof -
  have c: "0 < count_list conns i" using assms(2) by (metis count_list_0_iff gr0I)
  have "set (remove1 i conns) \<subseteq> {..<length (up_peers g)}"
    using assms(1) by (auto simp: conns_ok_def dest: in_set_remove1 [THEN iffD1, rotated] notin_set_remove1)
  then show ?thesis
    using assms c
    by (auto simp: conns_ok_def map_addr_update nth_update sub_conn_def count_list_remove1 wrap32_sub [simplified])
qed

lemma find_index_distinct:
  "distinct (map f xs) \<Longrightarrow> i < length xs \<Longrightarrow> find_index (\<lambda>x. f x = f (xs ! i)) xs = Some i"
proof (induction xs arbitrary: i)
  case (Cons x xs)
  then show ?case by (cases i) auto
qed simp

lemma up_step_ok: "up_step s t \<Longrightarrow> conns_ok s \<Longrightarrow> conns_ok t"
proof (erule up_stepE)
  fix g now ip i g' conns
  assume s: "s = (g, conns)" "t = (g', i # conns)" and b: "begin_connect g now ip = Some (i, g')" and ok: "conns_ok s"
  obtain h where h: "pick_peer g now ip = Some (i, h)" and g': "g' = on_peer i add_conn h"
    using b by (auto simp: begin_connect_def split: option.splits)
  have i: "i < length (up_peers g)" "up_peers h = up_peers g"
    using pick_peer_available [OF h] by (auto simp: available_def)
  have "wrap32 (wrap32 n + 1) = wrap32 (Suc n)" for n by (simp add: mod_Suc_eq)
  then show "conns_ok t"
    using ok i unfolding s g' by (auto simp: conns_ok_def map_addr_update nth_update add_conn_def)
next
  fix g conns i
  assume "s = (g, conns)" "t = (connect_ok i g, conns)" "conns_ok s"
  then show "conns_ok t" unfolding connect_ok_def by (simp add: conns_ok_on_peer)
next
  fix g conns i now
  assume "s = (g, conns)" "t = (connect_failed i now g, remove1 i conns)" "conns_ok s" "i \<in> set conns"
  then show "conns_ok t" unfolding connect_failed_def by (simp add: conns_ok_mark_fail conns_ok_sub)
next
  fix g conns i
  assume s: "s = (g, conns)" "t = (release (pe_addr (up_peers g ! i)) g, remove1 i conns)" "conns_ok s" "i \<in> set conns"
  then have "find_index (\<lambda>p. pe_addr p = pe_addr (up_peers g ! i)) (up_peers g) = Some i"
    by (intro find_index_distinct) (auto simp: conns_ok_def)
  then show "conns_ok t" using s by (simp add: release_def conns_ok_sub)
next
  fix g conns i ok now
  assume "s = (g, conns)" "t = (health_probe i ok now g, conns)" "conns_ok s"
  then show "conns_ok t" unfolding health_probe_def by (simp add: conns_ok_on_peer conns_ok_mark_fail)
qed

interpretation group_run: invariant_steps up_step conns_ok
  by unfold_locales (rule up_step_ok)

lemma new_group_ok:
  "distinct (map pcfg_addr (ugc_peers cfg)) \<Longrightarrow> conns_ok (new_group cfg, [])"
  by (simp add: conns_ok_def new_group_def new_peer_def o_def)

section \<open>Peers marked down\<close>

lemma connect_failed_down:
  assumes "i < length (up_peers g)" "up_max_fails g \<le> pe_fails (up_peers g ! i) + 1"
    and "pe_fails (up_peers g ! i) + 1 < 2 ^ 32" "0 < up_fail_timeout_secs g" "now + up_fail_timeout_secs g < 2 ^ 64"
  shows "pe_down_until (up_peers (connect_failed i now g) ! i) = now + up_fail_timeout_secs g"
  using assms by (simp add: connect_failed_def mark_fail_def on_peer_def sub_conn_def Let_def)

lemma begin_connect_Some:
  assumes "begin_connect g now ip = Some (i, g')"
  shows "i < length (up_peers g)" "pe_down_until (up_peers g ! i) \<le> now"
    "up_peers g' = (up_peers g)[i := add_conn (up_peers g ! i)]"
  using assms pick_peer_available [of g now ip i]
  by (auto simp: begin_connect_def available_def split: option.splits)

section \<open>Properties\<close>

definition demo_addr :: "nat \<Rightarrow> socket_addr" where
  "demo_addr port = \<lparr>sa_ip = V4 0x7F000001, sa_port = word_of_nat port\<rparr>"

definition demo_group_config :: "lb_policy \<Rightarrow> upstream_group_config" where
  "demo_group_config policy =
     \<lparr>ugc_name = ''app'', ugc_peers = [\<lparr>pcfg_addr = demo_addr 1, pcfg_weight = 2\<rparr>, \<lparr>pcfg_addr = demo_addr 2, pcfg_weight = 1\<rparr>],
      ugc_policy = policy, ugc_fail_timeout_secs = 30, ugc_max_fails = 1\<rparr>"

definition demo_group :: "lb_policy \<Rightarrow> upstream_group" where
  "demo_group policy = new_group (demo_group_config policy)"

lemma demo_group_eval:
  "available (demo_group policy) now = [0, 1]"
  "up_peers (demo_group policy) = [new_peer \<lparr>pcfg_addr = demo_addr 1, pcfg_weight = 2\<rparr>, new_peer \<lparr>pcfg_addr = demo_addr 2, pcfg_weight = 1\<rparr>]"
  "up_policy (demo_group policy) = policy" "up_rr_counter (demo_group policy) = 0"
  "up_max_fails (demo_group policy) = 1" "up_fail_timeout_secs (demo_group policy) = 30"
  by (simp_all add: demo_group_def demo_group_config_def new_group_def available_def new_peer_def upt_rec)

text \<open>C33: weighted round robin is fair: over one period (as many picks as the sum of the weights of
  the available peers) every available peer is picked exactly as often as its weight, from any
  counter value, while no weight sum or counter overflows.\<close>

theorem round_robin_fairness:
  assumes "up_policy g = RoundRobin" "(\<Sum>i\<leftarrow>available g now. pe_weight (up_peers g ! i)) = W"
    and "0 < W" "W < 2 ^ 32" "up_rr_counter g + W \<le> 2 ^ 32" "i \<in> set (available g now)"
  shows "length (filter (\<lambda>j. j = i) (pick_many g now ip W)) = pe_weight (up_peers g ! i)"
  by (rule round_robin_fair [OF assms])

theorem round_robin_fairness_witness:
  "length (filter (\<lambda>j. j = 0) (pick_many (demo_group RoundRobin) 7 None 3)) = 2"
  using round_robin_fairness [of "demo_group RoundRobin" 7 3 0 None]
  by (simp add: demo_group_eval new_peer_def)



text \<open>A connect only goes to a peer that is not marked down, and the one whose failure reaches
  \<open>max_fails\<close> is not chosen again before \<open>fail_timeout\<close> has passed, under any policy.\<close>

theorem failed_peer_avoided:
  assumes "i < length (up_peers g)" "up_max_fails g \<le> pe_fails (up_peers g ! i) + 1"
    and "pe_fails (up_peers g ! i) + 1 < 2 ^ 32" "0 < up_fail_timeout_secs g" "now + up_fail_timeout_secs g < 2 ^ 64"
    and "begin_connect (connect_failed i now g) later ip = Some (j, g')" "later < now + up_fail_timeout_secs g"
  shows "j \<noteq> i"
  using begin_connect_Some(2) [OF assms(6)] connect_failed_down [OF assms(1-5)] assms(7) by auto

theorem failed_peer_avoided_witness:
  "fst (the (begin_connect (connect_failed 0 100 (demo_group LeastConn)) 120 None)) \<noteq> 0"
proof -
  have "begin_connect (connect_failed 0 100 (demo_group LeastConn)) 120 None
      = Some (1, on_peer 1 add_conn (connect_failed 0 100 (demo_group LeastConn)))"
    by (simp add: begin_connect_def pick_peer_def available_def connect_failed_def mark_fail_def on_peer_def
        demo_group_eval new_peer_def sub_conn_def Let_def upt_rec)
  then show ?thesis
    using failed_peer_avoided [of 0 "demo_group LeastConn" 100 120 None 1 "on_peer 1 add_conn (connect_failed 0 100 (demo_group LeastConn))"]
    by (simp add: demo_group_eval new_peer_def)
qed

text \<open>Connecting fails without a peer exactly when every peer is marked down (there is no
  fallback to a peer that is down), and least-conn picks an available peer with the fewest active
  connections.\<close>

theorem connect_choice:
  "(begin_connect g now ip = None) = list_all (\<lambda>p. now < pe_down_until p) (up_peers g)
   \<and> (\<forall>i g' j. up_policy g = LeastConn \<longrightarrow> begin_connect g now ip = Some (i, g')
        \<longrightarrow> j < length (up_peers g) \<longrightarrow> pe_down_until (up_peers g ! j) \<le> now
        \<longrightarrow> pe_active_conns (up_peers g ! i) \<le> pe_active_conns (up_peers g ! j))"
proof
  show "(begin_connect g now ip = None) = list_all (\<lambda>p. now < pe_down_until p) (up_peers g)"
    using pick_peer_None [of g now ip]
    by (cases "pick_peer g now ip")
       (auto simp: begin_connect_def available_def filter_empty_conv list_all_length not_le)
  show "\<forall>i g' j. up_policy g = LeastConn \<longrightarrow> begin_connect g now ip = Some (i, g')
        \<longrightarrow> j < length (up_peers g) \<longrightarrow> pe_down_until (up_peers g ! j) \<le> now
        \<longrightarrow> pe_active_conns (up_peers g ! i) \<le> pe_active_conns (up_peers g ! j)"
    by (auto simp: begin_connect_def pick_peer_def available_def Let_def dest!: min_by_key_mem
        split: option.splits if_splits)
qed

theorem connect_choice_witness:
  "begin_connect (connect_failed 0 100 (connect_failed 1 100 (demo_group LeastConn))) 120 None = None"
  using connect_choice [of "connect_failed 0 100 (connect_failed 1 100 (demo_group LeastConn))" 120 None]
  by (simp add: connect_failed_def mark_fail_def on_peer_def demo_group_eval new_peer_def sub_conn_def Let_def)

text \<open>With two peers at one address, releasing a connection of the second takes it off the first,
  whose counter wraps around.\<close>

lemma duplicate_address_release:
  assumes "up_peers g = [p, p]" "pe_active_conns p = 0"
  shows "pe_active_conns (up_peers (release (pe_addr p) (on_peer 1 add_conn g)) ! 0) = 2 ^ 32 - 1"
  using assms by (simp add: release_def on_peer_def sub_conn_def)

end
