(* ===== verification/Cache.thy ===== *)
theory Cache
  imports Prelude Rust_Num "HOL-Library.AList"
begin

text \<open>
  The response cache of \<open>src/cache/mod.rs\<close>. The \<open>DashMap\<close> is an association list with distinct keys;
  the order in which it iterates is the parameter \<open>it\<close>, of which \<open>iteration_order\<close> only says that it
  visits every entry once. Instants and durations are nanoseconds, the clock is an argument.
\<close>

record cache_entry =
  ce_bytes :: string
  ce_status :: nat
  ce_expires_at :: nat

type_synonym cache_entries = "(string \<times> cache_entry) list"

record response_cache =
  ca_entries :: cache_entries
  ca_ttl :: nat
  ca_max_size :: nat
  ca_enabled :: bool

definition iteration_order :: "(cache_entries \<Rightarrow> cache_entries) \<Rightarrow> bool" where
  "iteration_order it \<longleftrightarrow> (\<forall>m. set (it m) = set m)"

definition new_cache :: "nat \<Rightarrow> nat \<Rightarrow> response_cache" where
  "new_cache ttl_secs max_size =
     \<lparr>ca_entries = [], ca_ttl = ttl_secs * 1000000000, ca_max_size = max_size,
      ca_enabled = (0 < ttl_secs \<and> 0 < max_size)\<rparr>"

definition cache_key :: "string \<Rightarrow> string \<Rightarrow> string \<Rightarrow> string" where
  "cache_key host method uri = host @ ''|'' @ method @ ''|'' @ uri"

definition cache_get :: "nat \<Rightarrow> string \<Rightarrow> response_cache \<Rightarrow> string option \<times> response_cache" where
  "cache_get now key c =
     (if \<not> ca_enabled c then (None, c)
      else case map_of (ca_entries c) key of
             None \<Rightarrow> (None, c)
           | Some e \<Rightarrow>
               if ce_expires_at e < now then (None, c\<lparr>ca_entries := AList.delete key (ca_entries c)\<rparr>)
               else (Some (ce_bytes e), c))"

definition insert_entry :: "nat \<Rightarrow> string \<Rightarrow> string \<Rightarrow> nat \<Rightarrow> response_cache \<Rightarrow> response_cache" where
  "insert_entry now key bytes status c =
     c\<lparr>ca_entries := AList.update key
         \<lparr>ce_bytes = bytes, ce_status = status, ce_expires_at = now + ca_ttl c\<rparr> (ca_entries c)\<rparr>"

definition cache_put ::
  "(cache_entries \<Rightarrow> cache_entries) \<Rightarrow> nat \<Rightarrow> string \<Rightarrow> string \<Rightarrow> nat \<Rightarrow> response_cache \<Rightarrow> response_cache" where
  "cache_put it now key bytes status c =
     (if \<not> ca_enabled c then c
      else if ca_max_size c \<le> length (ca_entries c) then
        (case find (\<lambda>(k, e). ce_expires_at e < now) (it (ca_entries c)) of
           Some (k, e) \<Rightarrow> insert_entry now key bytes status (c\<lparr>ca_entries := AList.delete k (ca_entries c)\<rparr>)
         | None \<Rightarrow> c)
      else insert_entry now key bytes status c)"

definition invalidate_all :: "response_cache \<Rightarrow> response_cache" where
  "invalidate_all c = c\<lparr>ca_entries := []\<rparr>"

section \<open>What may be cached\<close>

definition header_forbids_caching :: "string \<times> string \<Rightarrow> bool" where
  "header_forbids_caching h =
     (let (k, v) = h
      in (eq_ignore_ascii_case k ''cache-control'' \<and>
            (let v = to_ascii_lowercase v
             in str_contains v ''no-store'' \<or> str_contains v ''no-cache'' \<or> str_contains v ''private''))
         \<or> eq_ignore_ascii_case k ''set-cookie'')"

definition is_cacheable :: "string \<Rightarrow> nat \<Rightarrow> (string \<times> string) list \<Rightarrow> bool" where
  "is_cacheable method status headers \<longleftrightarrow>
     method \<in> set [''GET'', ''HEAD''] \<and> status \<in> set [200, 301, 302, 304, 404]
     \<and> \<not> list_ex header_forbids_caching headers"

definition request_bypasses_cache :: "(string \<times> string) list \<Rightarrow> bool" where
  "request_bypasses_cache headers =
     list_ex (\<lambda>(k, v).
       (eq_ignore_ascii_case k ''cache-control'' \<and>
          (let v = to_ascii_lowercase v in str_contains v ''no-cache'' \<or> str_contains v ''no-store''))
       \<or> (eq_ignore_ascii_case k ''pragma'' \<and> eq_ignore_ascii_case v ''no-cache'')) headers"

section \<open>Invariant\<close>

definition cache_ok :: "response_cache \<Rightarrow> bool" where
  "cache_ok c \<longleftrightarrow> distinct (map fst (ca_entries c)) \<and> length (ca_entries c) \<le> ca_max_size c"

lemma length_delete_le: "length (AList.delete k m) \<le> length m"
  by (simp add: AList.delete_eq)

lemma length_delete_less: "k \<in> fst ` set m \<Longrightarrow> length (AList.delete k m) < length m"
  by (induction m) (auto simp: AList.delete_eq le_imp_less_Suc)

lemma length_update_le: "length (AList.update k v m) \<le> Suc (length m)"
  by (induction m) auto

lemma cache_get_ok: "cache_ok c \<Longrightarrow> cache_ok (snd (cache_get now key c))"
  using length_delete_le [of key "ca_entries c"]
  by (auto simp: cache_get_def cache_ok_def distinct_delete split: option.splits)

lemma insert_entry_ok:
  "distinct (map fst (ca_entries c)) \<Longrightarrow> length (ca_entries c) < ca_max_size c \<Longrightarrow> cache_ok (insert_entry now key bytes status c)"
  by (auto simp: cache_ok_def insert_entry_def distinct_update intro: order_trans [OF length_update_le])

lemma cache_put_ok:
  assumes "iteration_order it" "cache_ok c"
  shows "cache_ok (cache_put it now key bytes status c)"
proof -
  have "cache_ok (insert_entry now key bytes status (c\<lparr>ca_entries := AList.delete k (ca_entries c)\<rparr>))"
    if "find (\<lambda>(k, e). ce_expires_at e < now) (it (ca_entries c)) = Some (k, e)" for k e
  proof -
    have "(k, e) \<in> set (ca_entries c)"
      using that assms(1) by (metis find_Some_iff iteration_order_def nth_mem)
    then have "length (AList.delete k (ca_entries c)) < length (ca_entries c)"
      by (intro length_delete_less) (auto intro: rev_image_eqI)
    then show ?thesis using assms(2) by (intro insert_entry_ok) (auto simp: cache_ok_def distinct_delete)
  qed
  then show ?thesis
    using assms(2) by (auto simp: cache_put_def not_le cache_ok_def [of c] split: option.splits intro: insert_entry_ok)
qed

text \<open>The operations on the cache, for runs of any length.\<close>

datatype cache_op = Op_Get nat string | Op_Put nat string string nat | Op_Invalidate

fun cache_step :: "(cache_entries \<Rightarrow> cache_entries) \<Rightarrow> cache_op \<Rightarrow> response_cache \<Rightarrow> response_cache" where
  "cache_step it (Op_Get now key) c = snd (cache_get now key c)"
| "cache_step it (Op_Put now key bytes status) c = cache_put it now key bytes status c"
| "cache_step it Op_Invalidate c = invalidate_all c"

lemma cache_step_ok: "iteration_order it \<Longrightarrow> cache_ok c \<Longrightarrow> cache_ok (cache_step it op c)"
  by (cases op) (auto simp: cache_get_ok cache_put_ok invalidate_all_def cache_ok_def [of "_\<lparr>ca_entries := []\<rparr>"])

lemma cache_step_max: "ca_max_size (cache_step it op c) = ca_max_size c"
  by (cases op) (auto simp: cache_get_def cache_put_def insert_entry_def invalidate_all_def split: option.splits)

lemma cache_run_ok:
  "iteration_order it \<Longrightarrow> cache_ok c \<Longrightarrow> cache_ok (fold (cache_step it) ops c) \<and> ca_max_size (fold (cache_step it) ops c) = ca_max_size c"
  by (induction ops arbitrary: c) (auto simp: cache_step_ok cache_step_max)

lemma map_of_insert: "map_of (ca_entries (insert_entry now key bytes status c)) key
    = Some \<lparr>ce_bytes = bytes, ce_status = status, ce_expires_at = now + ca_ttl c\<rparr>"
  by (simp add: insert_entry_def update_conv')

section \<open>Properties\<close>

text \<open>The cache never holds more entries than its maximum, after any sequence of lookups, stores
  and invalidations, at any times and in any iteration order of the map.\<close>

theorem cache_size_bounded:
  assumes "iteration_order it"
  shows "length (ca_entries (fold (cache_step it) ops (new_cache ttl max_size))) \<le> max_size"
  using cache_run_ok [OF assms, of "new_cache ttl max_size" ops]
  by (simp add: cache_ok_def new_cache_def)

theorem cache_size_bounded_witness:
  "length (ca_entries (fold (cache_step rev) [Op_Put 0 ''a'' ''x'' 200, Op_Put 1 ''b'' ''y'' 200] (new_cache 1 1))) \<le> 1"
  by (rule cache_size_bounded) (simp add: iteration_order_def)

text \<open>A response stored in an enabled cache with room is what a lookup of its key returns until the
  time to live has passed, and after that the lookup misses and drops the entry.\<close>

theorem cache_lookup_after_store:
  assumes "ca_enabled c" "length (ca_entries c) < ca_max_size c"
  shows "fst (cache_get later key (cache_put it now key bytes status c))
         = (if later \<le> now + ca_ttl c then Some bytes else None)"
proof -
  have "cache_put it now key bytes status c = insert_entry now key bytes status c"
    using assms by (simp add: cache_put_def)
  moreover have "ca_enabled (insert_entry now key bytes status c)" using assms by (simp add: insert_entry_def)
  ultimately show ?thesis by (simp add: cache_get_def map_of_insert)
qed

theorem cache_lookup_after_store_witness:
  "fst (cache_get 5 ''k'' (cache_put id 3 ''k'' ''body'' 200 (new_cache 60 10))) = Some ''body''"
  using cache_lookup_after_store [of "new_cache 60 10" 5 "''k''" id 3 "''body''" 200]
  by (simp add: new_cache_def)

text \<open>A disabled cache (time to live 0, as the server builds it) stores and returns nothing.\<close>

lemma cache_disabled: "\<not> ca_enabled c \<Longrightarrow> cache_put it now key bytes status c = c \<and> cache_get now key c = (None, c)"
  by (simp add: cache_put_def cache_get_def)

end
