(* ===== verification/Rust_Bytes.thy ===== *)
theory Rust_Bytes
  imports Rust_Num
begin

text \<open>
  Byte-level helpers the protocol clients share: truncation to one byte, \<open>slice::chunks\<close>, the
  search for a byte sequence (\<open>windows(n).position(..)\<close>), the text of a \<open>Utf8Error\<close>, and what
  the searches and \<open>str::lines\<close> give on a header section of lines ended by CRLF.
\<close>

text \<open>\<open>n as u8\<close>\<close>

definition byte :: "nat \<Rightarrow> char" where
  "byte n = char_of n"

lemma ascii_code_byte [simp]: "ascii_code (byte n) = n mod 256"
  by (simp add: ascii_code_def byte_def of_char_of)

lemma byte_ascii_code [simp]: "byte (ascii_code c) = c"
  by (simp add: ascii_code_def byte_def)

lemma ascii_code_less [simp]: "ascii_code c < 256"
  unfolding ascii_code_def by (rule nat_of_char_less_256)

function chunks :: "nat \<Rightarrow> 'a list \<Rightarrow> 'a list list" where
  "chunks n s = (if n = 0 \<or> s = [] then [] else take n s # chunks n (drop n s))"
  by pat_completeness auto
termination by (relation "measure (\<lambda>(n, s). length s)") auto

declare chunks.simps [simp del]

lemma chunks_Nil [simp]: "chunks n [] = []"
  by (subst chunks.simps) simp

lemma concat_chunks: "0 < n \<Longrightarrow> concat (chunks n s) = s"
proof (induction n s rule: chunks.induct)
  case (1 n s)
  then show ?case by (subst chunks.simps) auto
qed

lemma chunks_bounds: "c \<in> set (chunks n s) \<Longrightarrow> c \<noteq> [] \<and> length c \<le> n"
proof (induction n s rule: chunks.induct)
  case (1 n s)
  from 1(2) show ?case
    by (subst (asm) chunks.simps) (use 1(1) in \<open>auto split: if_splits\<close>)
qed

lemma str_trim_space: "str_trim (CHR '' '' # s) = str_trim s"
proof -
  have "ws_len (CHR '' '' # s) = 1" by (simp add: ws_len_def white_space_def starts_with_def)
  then show ?thesis by (simp add: str_trim_def trim_start.simps [of "CHR '' '' # s"])
qed

section \<open>Searching\<close>

fun str_find :: "string \<Rightarrow> string \<Rightarrow> nat option" where
  "str_find p [] = (if p = [] then Some 0 else None)"
| "str_find p (c # s) = (if starts_with (c # s) p then Some 0 else map_option Suc (str_find p s))"

lemma str_find_Some: "str_find p s = Some i \<Longrightarrow> starts_with (drop i s) p"
proof (induction s arbitrary: i)
  case Nil
  then show ?case by (auto split: if_splits simp: starts_with_def)
next
  case (Cons c s)
  then show ?case by (cases i) (auto split: if_splits)
qed

lemma str_find_least: "str_find p s = Some i \<Longrightarrow> j < i \<Longrightarrow> \<not> starts_with (drop j s) p"
proof (induction s arbitrary: i j)
  case Nil
  then show ?case by (auto split: if_splits)
next
  case (Cons c s)
  then obtain i' where i: "i = Suc i'" "str_find p s = Some i'" "\<not> starts_with (c # s) p"
    by (auto split: if_splits)
  show ?case
  proof (cases j)
    case 0
    then show ?thesis using i(3) by simp
  next
    case (Suc j')
    then show ?thesis using Cons i by simp
  qed
qed

lemma str_find_skip:
  "c \<notin> set l \<Longrightarrow> str_find (c # p) (l @ s) = map_option ((+) (length l)) (str_find (c # p) s)"
proof (induction l)
  case Nil
  then show ?case by (simp add: option.map_ident)
next
  case (Cons x l)
  then show ?case by (auto simp: starts_with_def option.map_comp o_def)
qed

lemma find_in_set: "find P xs = Some x \<Longrightarrow> x \<in> set xs"
  by (induction xs) (auto split: if_splits)

lemma str_find_short: "length s < length p \<Longrightarrow> str_find p s = None"
proof (rule ccontr)
  assume l: "length s < length p" and "str_find p s \<noteq> None"
  then obtain i r where "drop i s = p @ r" using str_find_Some by (fastforce simp: starts_with_iff)
  then have "length (drop i s) = length p + length r" by simp
  with l show False by simp
qed

lemma str_find_take:
  "str_find p s = Some i \<Longrightarrow> p \<noteq> [] \<Longrightarrow>
   str_find p (take n s) = (if i + length p \<le> n then Some i else None)"
proof (induction s arbitrary: i n)
  case Nil
  then show ?case by (simp split: if_splits)
next
  case (Cons c s)
  show ?case
  proof (cases n)
    case 0
    then show ?thesis using Cons.prems(2) by simp
  next
    case (Suc m)
    have eq: "starts_with (c # take m s) p = (length p \<le> Suc m \<and> starts_with (c # s) p)"
    proof -
      have "take (length p) (c # take m s) = take (min (length p) (Suc m)) (c # s)"
        by (cases p) (simp_all add: min_def)
      then show ?thesis
        by (auto simp: starts_with_def min_def split: if_splits dest: arg_cong [where f = length])
    qed
    show ?thesis
    proof (cases "starts_with (c # s) p")
      case True
      then have i: "i = 0" using Cons.prems(1) by simp
      show ?thesis
      proof (cases "length p \<le> n")
        case True
        then show ?thesis using \<open>starts_with (c # s) p\<close> i Suc eq by simp
      next
        case False
        then have "length (take n (c # s)) < length p" by simp
        then show ?thesis using i False by (simp only: str_find_short) simp
      qed
    next
      case False
      then obtain j where "i = Suc j" "str_find p s = Some j" using Cons.prems(1) by auto
      then show ?thesis using Cons.IH [of j m] Cons.prems(2) False Suc eq by simp
    qed
  qed
qed

section \<open>Header sections\<close>

definition good_line :: "string \<Rightarrow> bool" where
  "good_line l \<longleftrightarrow> l \<noteq> [] \<and> CR \<notin> set l \<and> LF \<notin> set l"

text \<open>Lines separated by CRLF; the section is followed by the blank line.\<close>

fun join_crlf :: "string list \<Rightarrow> string" where
  "join_crlf [] = []"
| "join_crlf [l] = l"
| "join_crlf (l # ls) = l @ CRLF @ join_crlf ls"

lemma find_crlf2:
  "list_all good_line ls \<Longrightarrow> ls \<noteq> [] \<Longrightarrow>
   str_find (CRLF @ CRLF) (join_crlf ls @ CRLF @ CRLF @ body) = Some (length (join_crlf ls))"
proof (induction ls rule: join_crlf.induct)
  case (2 l)
  then have "CR \<notin> set l" by (simp add: good_line_def)
  then show ?case by (simp add: str_find_skip starts_with_def)
next
  case (3 l l' ls)
  then have l: "CR \<notin> set l" and l': "good_line l'" by (simp_all add: good_line_def)
  obtain x r where x: "l' = x # r" "x \<noteq> CR"
    using l' by (cases l') (auto simp: good_line_def)
  obtain r' where r': "join_crlf (l' # ls) = x # r'"
    using x by (cases ls) auto
  have "str_find (CRLF @ CRLF) (CRLF @ join_crlf (l' # ls) @ CRLF @ CRLF @ body)
      = Some (2 + length (join_crlf (l' # ls)))"
    using 3 x(2) by (simp add: r' starts_with_def)
  then show ?case using l by (simp add: str_find_skip)
qed simp

lemma strip_cr_snoc [simp]: "strip_cr (l @ [CR]) = l"
  using strip_suffix_Some [of "l @ [CR]" "[CR]" l] by (simp add: strip_cr_def)

lemma lines_of_Cons: "ls \<noteq> [] \<Longrightarrow> lines_of (l # ls) = strip_cr l # lines_of ls"
  by (cases ls) auto

lemma str_lines_join: "list_all good_line ls \<Longrightarrow> str_lines (join_crlf ls) = ls"
proof (induction ls rule: join_crlf.induct)
  case 1
  then show ?case by (simp add: str_lines_def)
next
  case (2 l)
  then show ?case by (simp add: str_lines_def good_line_def split_on_none)
next
  case (3 l l' ls)
  then have "LF \<notin> set (l @ [CR])" by (simp add: good_line_def)
  then have "split_on LF ((l @ [CR]) @ LF # join_crlf (l' # ls)) = (l @ [CR]) # split_on LF (join_crlf (l' # ls))"
    by (rule split_on_append)
  then show ?case using 3 by (simp add: str_lines_def lines_of_Cons)
qed

section \<open>The text of a UTF-8 error\<close>

function utf8_error_text :: "nat \<Rightarrow> string \<Rightarrow> string" where
  "utf8_error_text i s =
     (if s = [] then []
      else (case utf8_head s of
              Inr n \<Rightarrow> utf8_error_text (i + n) (drop n s)
            | Inl n \<Rightarrow>
                if length s = n \<and> byte_in 194 244 s 0
                then ''incomplete utf-8 byte sequence from index '' @ show_nat i
                else ''invalid utf-8 sequence of '' @ show_nat n @ '' bytes from index '' @ show_nat i))"
  by pat_completeness auto
termination
  by (relation "measure (\<lambda>(i, s). length s)") (auto dest: utf8_head_pos)

declare utf8_error_text.simps [simp del]

end
