(* ===== verification/Rust_Path.thy ===== *)
theory Rust_Path
  imports Prelude
begin

text \<open>
  What the sources use of \<open>std::path\<close> on Unix and of \<open>str::replace\<close>: components, joining,
  the component-wise \<open>starts_with\<close>, the extension of the file name. A path is its byte string.
\<close>

definition is_absolute :: "string \<Rightarrow> bool" where
  "is_absolute p \<longleftrightarrow> starts_with p ''/''"

text \<open>\<open>Path::components\<close>: empty pieces and dots are dropped, except a leading dot of a relative
  path; the root is the component \<open>''/''\<close>.\<close>

definition path_components :: "string \<Rightarrow> string list" where
  "path_components p =
     (let pieces = split_on (CHR ''/'') p
      in (if is_absolute p then [''/''] else if hd pieces = ''.'' then [''.''] else [])
         @ filter (\<lambda>c. c \<noteq> [] \<and> c \<noteq> ''.'') pieces)"

definition path_starts_with :: "string \<Rightarrow> string \<Rightarrow> bool" where
  "path_starts_with p base \<longleftrightarrow>
     take (length (path_components base)) (path_components p) = path_components base"

lemma path_starts_with_refl [simp]: "path_starts_with p p"
  by (simp add: path_starts_with_def)

text \<open>\<open>Path::join\<close>: an absolute argument replaces the path.\<close>

definition path_join :: "string \<Rightarrow> string \<Rightarrow> string" where
  "path_join a b =
     (if is_absolute b then b
      else if a = [] \<or> last a = CHR ''/'' then a @ b
      else a @ ''/'' @ b)"

text \<open>\<open>Path::file_name\<close> and \<open>Path::extension\<close>.\<close>

definition path_file_name :: "string \<Rightarrow> string option" where
  "path_file_name p =
     (let cs = path_components p
      in if cs = [] \<or> last cs \<in> {''/'', ''.'', ''..''} then None else Some (last cs))"

definition path_extension :: "string \<Rightarrow> string option" where
  "path_extension p =
     (case path_file_name p of
        None \<Rightarrow> None
      | Some f \<Rightarrow>
          (case index_of (CHR ''.'') (rev f) of
             None \<Rightarrow> None
           | Some i \<Rightarrow> if Suc i = length f then None else Some (drop (length f - i) f)))"

text \<open>\<open>Path::parent\<close>: the path without its last component; \<open>trim_tail\<close> drops what \<open>components\<close>
  skips at the end, the empty pieces and the dots.\<close>

definition last_piece :: "string \<Rightarrow> string" where
  "last_piece s = rev (takeWhile (\<lambda>c. c \<noteq> CHR ''/'') (rev s))"

definition drop_last_piece :: "string \<Rightarrow> string" where
  "drop_last_piece s = rev (tl (dropWhile (\<lambda>c. c \<noteq> CHR ''/'') (rev s)))"

lemma drop_last_piece_length: "s \<noteq> [] \<Longrightarrow> length (drop_last_piece s) < length s"
  unfolding drop_last_piece_def
  by (metis (no_types, lifting) One_nat_def diff_less length_dropWhile_le length_greater_0_conv length_rev
      length_tl less_le_trans less_one list.size(3) nat_less_le not_gr_zero order_le_less_trans zero_diff)

function trim_tail :: "string \<Rightarrow> string" where
  "trim_tail s =
     (if s \<noteq> [] \<and> (last_piece s = [] \<or> last_piece s = ''.'') then trim_tail (drop_last_piece s) else s)"
  by pat_completeness auto
termination
  by (relation "measure length") (auto simp: drop_last_piece_length)

declare trim_tail.simps [simp del]

definition path_parent :: "string \<Rightarrow> string option" where
  "path_parent p =
     (let dot = (\<not> is_absolute p \<and> hd (split_on (CHR ''/'') p) = ''.'');
          pre = (if is_absolute p then ''/'' else if dot then ''.'' else []);
          body = trim_tail (drop (length pre) p)
      in if body = [] then (if dot then Some [] else None)
         else Some (pre @ trim_tail (drop_last_piece body)))"

text \<open>One name joined to a path adds one component.\<close>

definition plain_name :: "string \<Rightarrow> bool" where
  "plain_name n \<longleftrightarrow> n \<noteq> [] \<and> n \<noteq> ''.'' \<and> CHR ''/'' \<notin> set n"

lemma split_on_slash: "split_on c (a @ c # b) = split_on c a @ split_on c b"
  by (induction a) (auto split: list.split)

lemma path_components_join:
  assumes "plain_name n"
  shows "path_components (path_join a n) = path_components a @ [n]"
proof -
  have n: "n \<noteq> []" "n \<noteq> ''.''" "CHR ''/'' \<notin> set n" using assms by (simp_all add: plain_name_def)
  then have n': "\<not> is_absolute n" by (cases n) (auto simp: is_absolute_def starts_with_def)
  note n = n n' split_on_none [OF n(3)]
  consider "a = []" | a' where "a = a' @ ''/''" | "a \<noteq> []" "last a \<noteq> CHR ''/''"
    by (metis append_butlast_last_id)
  then show ?thesis
  proof cases
    case 1
    then show ?thesis using n by (simp add: path_join_def path_components_def is_absolute_def starts_with_def)
  next
    case 2
    have "split_on (CHR ''/'') (a @ n) = split_on (CHR ''/'') a' @ [n]"
      and "split_on (CHR ''/'') a = split_on (CHR ''/'') a' @ [[]]"
      using split_on_slash [of "CHR ''/''" a' n] split_on_slash [of "CHR ''/''" a' "[]"] n 2 by simp_all
    moreover have "is_absolute (a @ n) = is_absolute a" using 2 by (cases a') (auto simp: is_absolute_def starts_with_def)
    ultimately show ?thesis using n 2 by (simp add: path_join_def path_components_def Let_def)
  next
    case 3
    have "split_on (CHR ''/'') (a @ ''/'' @ n) = split_on (CHR ''/'') a @ [n]"
      using split_on_slash [of "CHR ''/''" a n] n by simp
    moreover have "is_absolute (a @ ''/'' @ n) = is_absolute a"
      using 3 by (cases a) (auto simp: is_absolute_def starts_with_def)
    ultimately show ?thesis using n 3 by (simp add: path_join_def path_components_def Let_def)
  qed
qed

text \<open>A path below another, without going up.\<close>

definition path_below :: "string \<Rightarrow> string \<Rightarrow> bool" where
  "path_below p base \<longleftrightarrow>
     path_starts_with p base \<and> ''..'' \<notin> set (drop (length (path_components base)) (path_components p))"

lemma path_below_refl [simp]: "path_below p p"
  by (simp add: path_below_def)

lemma path_below_join:
  "path_below p base \<Longrightarrow> plain_name n \<Longrightarrow> n \<noteq> ''..'' \<Longrightarrow> path_below (path_join p n) base"
  unfolding path_below_def path_starts_with_def path_components_join
  by (cases "length (path_components base) \<le> length (path_components p)") (auto simp: not_le)

text \<open>\<open>str::replace\<close> with a pattern that is not empty.\<close>

function str_replace :: "string \<Rightarrow> string \<Rightarrow> string \<Rightarrow> string" where
  "str_replace p q s =
     (case s of
        [] \<Rightarrow> []
      | c # cs \<Rightarrow>
          if p \<noteq> [] \<and> starts_with s p then q @ str_replace p q (drop (length p) s)
          else c # str_replace p q cs)"
  by pat_completeness auto
termination
  by (relation "measure (\<lambda>(p, q, s). length s)") (auto simp: starts_with_iff)

declare str_replace.simps [simp del]

lemma str_replace_Nil [simp]: "str_replace p q [] = []"
  by (subst str_replace.simps) simp

lemma str_replace_Cons:
  "str_replace p q (c # cs) =
     (if p \<noteq> [] \<and> starts_with (c # cs) p then q @ str_replace p q (drop (length p) (c # cs))
      else c # str_replace p q cs)"
  by (subst str_replace.simps) simp

lemma str_replace_char: "str_replace [c] q s = concat (map (\<lambda>x. if x = c then q else [x]) s)"
  by (induction s) (simp_all add: str_replace_Cons starts_with_def)

end
