(* ===== verification/Static_Files.thy ===== *)
theory Static_Files
  imports Rust_Path Router
begin

text \<open>
  The static file handler, \<open>src/server/static_files.rs\<close>: root and index selection, percent
  decoding, \<open>try_files\<close>, the jail check, conditional and range requests. The file system is a
  parameter, the record \<open>file_system\<close>: what the handler asks of it, as one snapshot. Log warnings
  are left out.
\<close>

record static_response =
  sr_status :: nat
  sr_headers :: "(string \<times> string) list"
  sr_body :: string

text \<open>\<open>fs_metadata\<close> gives the size and the modification time in seconds (0 when there is none);
  \<open>fs_read_at\<close> is open, seek and \<open>read_exact\<close> of a number of bytes.\<close>

record file_system =
  fs_exists :: "string \<Rightarrow> bool"
  fs_is_dir :: "string \<Rightarrow> bool"
  fs_is_file :: "string \<Rightarrow> bool"
  fs_canonicalize :: "string \<Rightarrow> string option"
  fs_metadata :: "string \<Rightarrow> (nat \<times> nat) option"
  fs_read :: "string \<Rightarrow> string option"
  fs_read_at :: "string \<Rightarrow> nat \<Rightarrow> nat \<Rightarrow> string option"

section \<open>Helpers\<close>

definition error_response :: "nat \<Rightarrow> string \<Rightarrow> static_response" where
  "error_response status message =
     (let body = ''<html><body>'' @ show_nat status @ '' '' @ message @ ''</body></html>'' @ [LF]
      in \<lparr>sr_status = status,
          sr_headers = [(''Content-Type'', ''text/html; charset=utf-8''),
                        (''Content-Length'', show_nat (length body))],
          sr_body = body\<rparr>)"

definition not_implemented :: "string \<Rightarrow> static_response" where
  "not_implemented msg =
     (let body = ''<html><body>501 Not Implemented: '' @ msg @ ''</body></html>'' @ [LF]
      in \<lparr>sr_status = 501,
          sr_headers = [(''Content-Type'', ''text/html; charset=utf-8''),
                        (''Content-Length'', show_nat (length body))],
          sr_body = body\<rparr>)"

definition get_header :: "(string \<times> string) list \<Rightarrow> string \<Rightarrow> string option" where
  "get_header headers name =
     map_option snd (find (\<lambda>(k, _). eq_ignore_ascii_case k name) headers)"

definition find_error_page_uri :: "server_block \<Rightarrow> nat \<Rightarrow> string option" where
  "find_error_page_uri server status =
     map_option ep_uri (find (\<lambda>ep. status \<in> set (ep_codes ep)) (srv_error_pages server))"

definition hex_val :: "char \<Rightarrow> 8 word option" where
  "hex_val c =
     (let b = u8_of c
      in if 48 \<le> b \<and> b \<le> 57 then Some (b - 48)
         else if 97 \<le> b \<and> b \<le> 102 then Some (b - 97 + 10)
         else if 65 \<le> b \<and> b \<le> 70 then Some (b - 65 + 10)
         else None)"

text \<open>The decoder pushes every byte as the character with that code: a byte above 127 becomes
  two bytes of UTF-8. A percent sign less than two bytes before the end is kept.\<close>

fun percent_decode :: "string \<Rightarrow> string option" where
  "percent_decode (c # h # l # s) =
     (if c = CHR ''%'' then
        (case (hex_val h, hex_val l) of
           (Some hi, Some lo) \<Rightarrow>
             (let b = push_bit 4 hi OR lo
              in if b = 0 then None else map_option ((@) (push_latin1 b)) (percent_decode s))
         | _ \<Rightarrow> None)
      else map_option ((@) (push_latin1 (u8_of c))) (percent_decode (h # l # s)))"
| "percent_decode (c # s) = map_option ((@) (push_latin1 (u8_of c))) (percent_decode s)"
| "percent_decode [] = Some []"

definition mime_table :: "(string \<times> string) list" where
  "mime_table =
     [(''html'', ''text/html; charset=utf-8''), (''htm'', ''text/html; charset=utf-8''),
      (''css'', ''text/css; charset=utf-8''),
      (''js'', ''application/javascript; charset=utf-8''),
      (''mjs'', ''application/javascript; charset=utf-8''),
      (''json'', ''application/json''), (''xml'', ''application/xml''),
      (''txt'', ''text/plain; charset=utf-8''), (''png'', ''image/png''), (''jpg'', ''image/jpeg''),
      (''jpeg'', ''image/jpeg''), (''gif'', ''image/gif''), (''webp'', ''image/webp''),
      (''svg'', ''image/svg+xml''), (''ico'', ''image/x-icon''), (''woff'', ''font/woff''),
      (''woff2'', ''font/woff2''), (''ttf'', ''font/ttf''), (''otf'', ''font/otf''),
      (''pdf'', ''application/pdf''), (''zip'', ''application/zip''), (''gz'', ''application/gzip''),
      (''tar'', ''application/x-tar''), (''mp4'', ''video/mp4''), (''webm'', ''video/webm''),
      (''mp3'', ''audio/mpeg''), (''ogg'', ''audio/ogg''), (''wasm'', ''application/wasm'')]"

definition mime_for_path :: "string \<Rightarrow> string" where
  "mime_for_path path =
     (case path_extension path of
        None \<Rightarrow> ''application/octet-stream''
      | Some e \<Rightarrow>
          (case map_of mime_table e of
             None \<Rightarrow> ''application/octet-stream''
           | Some m \<Rightarrow> m))"

definition quote :: "string \<Rightarrow> string" where
  "quote s = [CHR 0x22] @ s @ [CHR 0x22]"

definition base_headers :: "string \<Rightarrow> nat \<Rightarrow> string \<Rightarrow> (string \<times> string) list" where
  "base_headers mime file_size etag =
     [(''Content-Type'', mime), (''Content-Length'', show_nat file_size), (''ETag'', quote etag),
      (''Accept-Ranges'', ''bytes''), (''Cache-Control'', ''public, max-age=3600'')]"

section \<open>Range requests\<close>

text \<open>\<open>file_size - 1\<close> wraps for an empty file, in a release build.\<close>

definition dec64 :: "nat \<Rightarrow> nat" where
  "dec64 n = (n + 2 ^ 64 - 1) mod 2 ^ 64"

definition parse_range :: "string \<Rightarrow> nat \<Rightarrow> (nat \<times> nat) option" where
  "parse_range hdr file_size =
     (case strip_prefix hdr ''bytes='' of
        None \<Rightarrow> None
      | Some bytes_part \<Rightarrow>
          (case index_of (CHR ''-'') bytes_part of
             None \<Rightarrow> None
           | Some i \<Rightarrow>
               (let start_str = str_trim (take i bytes_part);
                    end_str = str_trim (drop (Suc i) bytes_part)
                in if start_str = [] then
                     (case parse_uint 64 end_str of
                        None \<Rightarrow> None
                      | Some n \<Rightarrow>
                          if n = 0 \<or> file_size < n then None
                          else Some (file_size - n, file_size - 1))
                   else
                     (case parse_uint 64 start_str of
                        None \<Rightarrow> None
                      | Some start \<Rightarrow>
                          (case (if end_str = [] then Some (dec64 file_size) else parse_uint 64 end_str) of
                             None \<Rightarrow> None
                           | Some e \<Rightarrow> if e < start \<or> file_size \<le> e then None else Some (start, e))))))"

definition serve_range ::
    "file_system \<Rightarrow> string \<Rightarrow> nat \<Rightarrow> nat \<Rightarrow> nat \<Rightarrow> string \<Rightarrow> string \<Rightarrow> static_response" where
  "serve_range fs path start stop file_size mime etag =
     (let count = stop - start + 1
      in case fs_read_at fs path start count of
           None \<Rightarrow> error_response 500 ''internal server error''
         | Some buf \<Rightarrow>
             \<lparr>sr_status = 206,
              sr_headers =
                [(''Content-Type'', mime), (''Content-Length'', show_nat count),
                 (''Content-Range'',
                  ''bytes '' @ show_nat start @ ''-'' @ show_nat stop @ ''/'' @ show_nat file_size),
                 (''ETag'', quote etag), (''Accept-Ranges'', ''bytes'')],
              sr_body = buf\<rparr>)"

section \<open>Serving a path\<close>

definition jail_path :: "string \<Rightarrow> string \<Rightarrow> string" where
  "jail_path doc_root uri = path_join doc_root (trim_start_char (CHR ''/'') uri)"

definition assert_within_root :: "file_system \<Rightarrow> string \<Rightarrow> string \<Rightarrow> bool" where
  "assert_within_root fs path doc_root =
     (case fs_canonicalize fs path of
        None \<Rightarrow> False
      | Some canonical_path \<Rightarrow>
          (case fs_canonicalize fs doc_root of
             None \<Rightarrow> False
           | Some canonical_root \<Rightarrow> path_starts_with canonical_path canonical_root))"

definition effective_path :: "file_system \<Rightarrow> string \<Rightarrow> string list \<Rightarrow> string option" where
  "effective_path fs path index_files =
     (if fs_is_dir fs path then find (fs_is_file fs) (map (path_join path) index_files)
      else Some path)"

text \<open>What is sent for a file that passed the checks.\<close>

definition serve_file ::
    "file_system \<Rightarrow> string \<Rightarrow> nat \<Rightarrow> nat \<Rightarrow> string \<Rightarrow> (string \<times> string) list \<Rightarrow> static_response" where
  "serve_file fs effective file_size mtime req_method req_hdrs =
     (let etag = show_hex file_size @ ''-'' @ show_hex mtime;
          mime = mime_for_path effective
      in if (case get_header req_hdrs ''if-none-match'' of
               None \<Rightarrow> False
             | Some inm \<Rightarrow> trim_matches_char (CHR 0x22) inm = etag)
         then \<lparr>sr_status = 304,
               sr_headers = [(''ETag'', quote etag), (''Cache-Control'', ''public, max-age=3600'')],
               sr_body = []\<rparr>
         else
           case (case get_header req_hdrs ''range'' of
                   None \<Rightarrow> None
                 | Some range_hdr \<Rightarrow> parse_range range_hdr file_size) of
             Some (start, e) \<Rightarrow> serve_range fs effective start e file_size mime etag
           | None \<Rightarrow>
               if eq_ignore_ascii_case req_method ''HEAD''
               then \<lparr>sr_status = 200, sr_headers = base_headers mime file_size etag, sr_body = []\<rparr>
               else
                 case fs_read fs effective of
                   Some bytes \<Rightarrow>
                     \<lparr>sr_status = 200, sr_headers = base_headers mime file_size etag, sr_body = bytes\<rparr>
                 | None \<Rightarrow> error_response 500 ''internal server error'')"

definition serve_path ::
    "file_system \<Rightarrow> string \<Rightarrow> string \<Rightarrow> string list \<Rightarrow> string \<Rightarrow> (string \<times> string) list \<Rightarrow> static_response" where
  "serve_path fs path doc_root index_files req_method req_hdrs =
     (case effective_path fs path index_files of
        None \<Rightarrow> error_response 403 ''forbidden''
      | Some effective \<Rightarrow>
          if \<not> fs_exists fs effective then error_response 404 ''not found''
          else if \<not> fs_is_file fs effective then error_response 404 ''not found''
          else if \<not> assert_within_root fs effective doc_root then error_response 403 ''forbidden''
          else
            (case fs_metadata fs effective of
               None \<Rightarrow> error_response 404 ''not found''
             | Some (file_size, mtime) \<Rightarrow>
                 serve_file fs effective file_size mtime req_method req_hdrs))"

definition expand_uri :: "string \<Rightarrow> string \<Rightarrow> string" where
  "expand_uri decoded_uri p =
     str_replace ''$uri/'' (decoded_uri @ ''/'') (str_replace ''$uri'' decoded_uri p)"

fun handle_try_files ::
    "file_system \<Rightarrow> string \<Rightarrow> string \<Rightarrow> try_files_entry list \<Rightarrow> string list \<Rightarrow> string
     \<Rightarrow> (string \<times> string) list \<Rightarrow> static_response" where
  "handle_try_files fs doc_root decoded_uri [] index_files req_method req_hdrs =
     error_response 404 ''not found''"
| "handle_try_files fs doc_root decoded_uri (TF_Path p # es) index_files req_method req_hdrs =
     (let candidate = jail_path doc_root (expand_uri decoded_uri p)
      in if fs_exists fs candidate then serve_path fs candidate doc_root index_files req_method req_hdrs
         else handle_try_files fs doc_root decoded_uri es index_files req_method req_hdrs)"
| "handle_try_files fs doc_root decoded_uri (TF_StatusCode code # es) index_files req_method req_hdrs =
     error_response code ''not found''"
| "handle_try_files fs doc_root decoded_uri (TF_Named _ # es) index_files req_method req_hdrs =
     error_response 404 ''not found''"

text \<open>\<open>location.and_then(|l| l.root.as_ref()).or(server.root.as_ref())\<close> and the index list.\<close>

definition effective_root :: "server_block \<Rightarrow> location_block option \<Rightarrow> string option" where
  "effective_root server location =
     (case (case location of None \<Rightarrow> None | Some l \<Rightarrow> loc_root l) of
        Some r \<Rightarrow> Some r
      | None \<Rightarrow> srv_root server)"

definition effective_index :: "server_block \<Rightarrow> location_block option \<Rightarrow> string list" where
  "effective_index server location =
     (case (case location of None \<Rightarrow> None | Some l \<Rightarrow> loc_index l) of
        Some v \<Rightarrow> v
      | None \<Rightarrow> srv_index server)"

definition serve_static ::
    "file_system \<Rightarrow> server_block \<Rightarrow> location_block option \<Rightarrow> string \<Rightarrow> string
     \<Rightarrow> (string \<times> string) list \<Rightarrow> static_response" where
  "serve_static fs server location uri_path req_method req_hdrs =
     (case effective_root server location of
        None \<Rightarrow> error_response 500 ''no root configured''
      | Some doc_root \<Rightarrow>
          (case percent_decode uri_path of
             None \<Rightarrow> error_response 400 ''invalid URI encoding''
           | Some decoded \<Rightarrow>
               (case (case location of None \<Rightarrow> None | Some l \<Rightarrow> loc_try_files l) of
                  Some try_files \<Rightarrow>
                    handle_try_files fs doc_root decoded try_files
                      (effective_index server location) req_method req_hdrs
                | None \<Rightarrow>
                    serve_path fs (jail_path doc_root decoded) doc_root
                      (effective_index server location) req_method req_hdrs)))"

section \<open>Confinement\<close>

text \<open>What the jail promises, without the code's check: the path resolves to a descendant of what the
  root resolves to, component by component.\<close>

definition resolves_inside :: "file_system \<Rightarrow> string \<Rightarrow> string \<Rightarrow> bool" where
  "resolves_inside fs path doc_root \<longleftrightarrow>
     (\<exists>target top below. fs_canonicalize fs path = Some target \<and> fs_canonicalize fs doc_root = Some top
        \<and> path_components target = path_components top @ below)"

lemma assert_within_root_iff:
  "assert_within_root fs path doc_root \<longleftrightarrow> resolves_inside fs path doc_root"
proof -
  have "path_starts_with t r \<longleftrightarrow> (\<exists>below. path_components t = path_components r @ below)" for t r
    unfolding path_starts_with_def by (metis append_eq_conv_conj append_take_drop_id)
  then show ?thesis
    unfolding assert_within_root_def resolves_inside_def by (simp split: option.split)
qed

text \<open>Two file systems with the same names, in which the files that resolve inside the root have
  the same contents. What lies outside the root may differ.\<close>

definition same_inside :: "string \<Rightarrow> file_system \<Rightarrow> file_system \<Rightarrow> bool" where
  "same_inside doc_root fs fs' \<longleftrightarrow>
     fs_exists fs' = fs_exists fs \<and> fs_is_dir fs' = fs_is_dir fs \<and> fs_is_file fs' = fs_is_file fs
     \<and> fs_canonicalize fs' = fs_canonicalize fs
     \<and> (\<forall>p. resolves_inside fs p doc_root \<longrightarrow>
          fs_metadata fs' p = fs_metadata fs p \<and> fs_read fs' p = fs_read fs p
          \<and> fs_read_at fs' p = fs_read_at fs p)"

lemma same_inside_names:
  assumes "same_inside doc_root fs fs'"
  shows "fs_exists fs' = fs_exists fs" "fs_is_dir fs' = fs_is_dir fs" "fs_is_file fs' = fs_is_file fs"
    "assert_within_root fs' q r = assert_within_root fs q r"
    "effective_path fs' path js = effective_path fs path js"
  using assms unfolding same_inside_def assert_within_root_def effective_path_def by metis+

lemma same_inside_contents:
  assumes "same_inside doc_root fs fs'" "assert_within_root fs p doc_root"
  shows "fs_metadata fs' p = fs_metadata fs p" "fs_read fs' p = fs_read fs p"
    "fs_read_at fs' p = fs_read_at fs p"
  using assms unfolding same_inside_def assert_within_root_iff by blast+

lemma same_inside_serve_file:
  assumes "same_inside doc_root fs fs'" "assert_within_root fs p doc_root"
  shows "serve_file fs' p sz mt m hs = serve_file fs p sz mt m hs"
  unfolding serve_file_def serve_range_def same_inside_contents [OF assms] ..

lemma same_inside_serve_path:
  assumes "same_inside doc_root fs fs'"
  shows "serve_path fs' path doc_root js m hs = serve_path fs path doc_root js m hs"
  unfolding serve_path_def same_inside_names [OF assms]
  using same_inside_contents(1) [OF assms] same_inside_serve_file [OF assms]
  by (simp split: option.split)

lemma same_inside_try_files:
  assumes "same_inside doc_root fs fs'"
  shows "handle_try_files fs' doc_root d es js m hs = handle_try_files fs doc_root d es js m hs"
proof (induction es)
  case Nil
  then show ?case by simp
next
  case (Cons e es)
  have "fs_exists fs' = fs_exists fs" using assms by (simp add: same_inside_def)
  then show ?case by (cases e) (simp_all add: Cons.IH Let_def same_inside_serve_path [OF assms])
qed

section \<open>Ranges\<close>

lemma parse_range_bounds:
  assumes "parse_range hdr n = Some (s, e)"
  shows "s \<le> e \<and> e < n"
  using assms unfolding parse_range_def Let_def by (auto split: option.splits if_splits)

lemma parse_range_render:
  assumes "s \<le> e" "e < n" "n < 2 ^ 64"
  shows "parse_range (''bytes='' @ show_nat s @ ''-'' @ show_nat e) n = Some (s, e)"
proof -
  have p: "strip_prefix (''bytes='' @ show_nat s @ ''-'' @ show_nat e) ''bytes=''
      = Some (show_nat s @ CHR ''-'' # show_nat e)"
    by (simp add: strip_prefix_Some)
  have i: "index_of (CHR ''-'') (show_nat s @ CHR ''-'' # show_nat e) = Some (length (show_nat s))"
    by (rule index_of_append) simp
  show ?thesis
    unfolding parse_range_def p option.case i using assms by (simp add: parse_show_nat)
qed

text \<open>A regular file of known contents that passes the checks.\<close>

definition file_holds :: "file_system \<Rightarrow> string \<Rightarrow> string \<Rightarrow> nat \<Rightarrow> bool" where
  "file_holds fs p content mtime \<longleftrightarrow>
     \<not> fs_is_dir fs p \<and> fs_exists fs p \<and> fs_is_file fs p
     \<and> fs_metadata fs p = Some (length content, mtime) \<and> fs_read fs p = Some content
     \<and> (\<forall>s n. fs_read_at fs p s n =
            (if s + n \<le> length content then Some (take n (drop s content)) else None))"

definition file_etag :: "string \<Rightarrow> nat \<Rightarrow> string" where
  "file_etag content mtime = show_hex (length content) @ ''-'' @ show_hex mtime"

definition full_response :: "string \<Rightarrow> string \<Rightarrow> nat \<Rightarrow> static_response" where
  "full_response p content mtime =
     \<lparr>sr_status = 200,
      sr_headers = base_headers (mime_for_path p) (length content) (file_etag content mtime),
      sr_body = content\<rparr>"

definition partial_response :: "string \<Rightarrow> string \<Rightarrow> nat \<Rightarrow> nat \<Rightarrow> nat \<Rightarrow> static_response" where
  "partial_response p content mtime s e =
     (let part = take (e - s + 1) (drop s content)
      in \<lparr>sr_status = 206,
          sr_headers =
            [(''Content-Type'', mime_for_path p), (''Content-Length'', show_nat (length part)),
             (''Content-Range'', ''bytes '' @ show_nat s @ ''-'' @ show_nat e @ ''/'' @ show_nat (length content)),
             (''ETag'', quote (file_etag content mtime)), (''Accept-Ranges'', ''bytes'')],
          sr_body = part\<rparr>)"

lemma serve_path_holds:
  assumes "file_holds fs p content mtime" "assert_within_root fs p doc_root"
  shows "serve_path fs p doc_root js m hs = serve_file fs p (length content) mtime m hs"
  using assms by (simp add: serve_path_def effective_path_def file_holds_def)

lemma serve_range_holds:
  assumes "file_holds fs p content mtime" "s \<le> e" "e < length content"
  shows "serve_range fs p s e (length content) (mime_for_path p) (file_etag content mtime)
    = partial_response p content mtime s e"
proof -
  have "fs_read_at fs p s (e - s + 1) = Some (take (e - s + 1) (drop s content))"
    using assms by (simp add: file_holds_def)
  then show ?thesis using assms(2,3) by (simp add: serve_range_def partial_response_def Let_def)
qed

text \<open>A file system with one file inside \<open>/srv\<close> and one outside it.\<close>

definition demo_fs :: "string \<Rightarrow> file_system" where
  "demo_fs outside =
     (let content = map_of [(''/srv/a'', ''hello''), (''/etc/p'', outside)]
      in \<lparr>fs_exists = (\<lambda>p. content p \<noteq> None), fs_is_dir = (\<lambda>p. p = ''/srv''),
          fs_is_file = (\<lambda>p. content p \<noteq> None), fs_canonicalize = Some,
          fs_metadata = (\<lambda>p. map_option (\<lambda>c. (length c, 0)) (content p)), fs_read = content,
          fs_read_at = (\<lambda>p s n. case content p of None \<Rightarrow> None
             | Some c \<Rightarrow> if s + n \<le> length c then Some (take n (drop s c)) else None)\<rparr>)"

definition demo_site :: server_block where
  "demo_site = (demo_srv [CatchAll])\<lparr>srv_root := Some ''/srv''\<rparr>"

lemma demo_fs_inside:
  "assert_within_root (demo_fs x) p ''/srv'' \<Longrightarrow> p \<noteq> ''/etc/p''"
  by (auto simp: assert_within_root_def demo_fs_def path_starts_with_def path_components_def
      is_absolute_def starts_with_def)

lemma demo_fs_same: "same_inside ''/srv'' (demo_fs x) (demo_fs y)"
proof -
  have "fs_metadata (demo_fs y) p = fs_metadata (demo_fs x) p \<and> fs_read (demo_fs y) p = fs_read (demo_fs x) p
      \<and> fs_read_at (demo_fs y) p = fs_read_at (demo_fs x) p"
    if "resolves_inside (demo_fs x) p ''/srv''" for p
    using demo_fs_inside [OF that [folded assert_within_root_iff]] by (simp add: demo_fs_def)
  then show ?thesis unfolding same_inside_def by (simp add: demo_fs_def)
qed

lemma demo_fs_a: "file_holds (demo_fs x) ''/srv/a'' ''hello'' 0"
  by (simp add: file_holds_def demo_fs_def)

lemma demo_fs_a_inside: "assert_within_root (demo_fs x) ''/srv/a'' ''/srv''"
  by (simp add: assert_within_root_def demo_fs_def path_starts_with_def path_components_def
      is_absolute_def starts_with_def)

section \<open>Properties\<close>



text \<open>C11: a GET without conditional header of a regular file inside the root returns the whole file
  with its length, or exactly the bytes of the requested range, which lies inside the file,
  with the matching \<open>Content-Range\<close> and \<open>Content-Length\<close>; a range written as first and last byte
  is honoured.\<close>

theorem static_get_exact:
  assumes "file_holds fs p content mtime" "assert_within_root fs p doc_root"
    and "length content < 2 ^ 64" "get_header hs ''if-none-match'' = None"
  shows "(case (case get_header hs ''range'' of None \<Rightarrow> None | Some r \<Rightarrow> parse_range r (length content)) of
       None \<Rightarrow> serve_path fs p doc_root js ''GET'' hs = full_response p content mtime
     | Some (s, e) \<Rightarrow> s \<le> e \<and> e < length content
         \<and> serve_path fs p doc_root js ''GET'' hs = partial_response p content mtime s e)
    \<and> list_all (\<lambda>(s, e). parse_range (''bytes='' @ show_nat s @ ''-'' @ show_nat e) (length content) = Some (s, e))
        (filter (\<lambda>(s, e). s \<le> e \<and> e < length content) ranges)"
proof
  let ?r = "case get_header hs ''range'' of None \<Rightarrow> None | Some r \<Rightarrow> parse_range r (length content)"
  have f: "serve_path fs p doc_root js ''GET'' hs =
    (case ?r of Some (s, e) \<Rightarrow> serve_range fs p s e (length content) (mime_for_path p) (file_etag content mtime)
     | None \<Rightarrow> full_response p content mtime)"
    using assms(1,4)
    by (simp add: serve_path_holds [OF assms(1,2)] serve_file_def file_holds_def file_etag_def
        full_response_def Let_def eq_ignore_ascii_case_def to_ascii_lowercase_def split: option.split)
  show "case ?r of
       None \<Rightarrow> serve_path fs p doc_root js ''GET'' hs = full_response p content mtime
     | Some (s, e) \<Rightarrow> s \<le> e \<and> e < length content
         \<and> serve_path fs p doc_root js ''GET'' hs = partial_response p content mtime s e"
  proof (cases ?r)
    case None
    then show ?thesis by (simp add: f)
  next
    case (Some q)
    obtain s e where q: "q = (s, e)" by (cases q)
    have "s \<le> e \<and> e < length content"
      using Some unfolding q by (auto split: option.splits dest: parse_range_bounds)
    then show ?thesis by (simp add: f Some q serve_range_holds [OF assms(1)])
  qed
  show "list_all (\<lambda>(s, e). parse_range (''bytes='' @ show_nat s @ ''-'' @ show_nat e) (length content) = Some (s, e))
        (filter (\<lambda>(s, e). s \<le> e \<and> e < length content) ranges)"
    using assms(3) by (auto simp: list_all_iff parse_range_render [simplified])
qed

theorem static_get_exact_witness:
  "(case parse_range ''bytes=1-3'' 5 of
      None \<Rightarrow> serve_path (demo_fs []) ''/srv/a'' ''/srv'' [] ''GET'' [(''range'', ''bytes=1-3'')] = full_response ''/srv/a'' ''hello'' 0
    | Some (s, e) \<Rightarrow> s \<le> e \<and> e < 5
        \<and> serve_path (demo_fs []) ''/srv/a'' ''/srv'' [] ''GET'' [(''range'', ''bytes=1-3'')] = partial_response ''/srv/a'' ''hello'' 0 s e)
   \<and> parse_range (''bytes='' @ show_nat 1 @ ''-'' @ show_nat 3) 5 = Some (1, 3)"
proof -
  let ?hs = "[(''range'', ''bytes=1-3'')]"
  have l: "length ''hello'' = 5" by simp
  have r: "get_header ?hs ''range'' = Some ''bytes=1-3''"
    and n: "get_header ?hs ''if-none-match'' = None"
    by (simp_all add: get_header_def eq_ignore_ascii_case_def to_ascii_lowercase_def char_lower_def)
  have b: "length ''hello'' < 2 ^ 64" by simp
  from static_get_exact [OF demo_fs_a demo_fs_a_inside b n, where x1 = "[]" and js = "[]" and ranges = "[(1, 3)]"]
  show ?thesis unfolding l r option.case(2) by simp
qed

text \<open>The decoder turns the encoding of a byte above 127 into the two bytes of another character,
  although it names the file in UTF-8; an encoded slash is decoded as well.\<close>

lemma percent_decode_latin1:
  "percent_decode ''/%c3%a9'' = Some [CHR ''/'', CHR 0xC3, CHR 0x83, CHR 0xC2, CHR 0xA9]"
  "percent_decode ''/a%2fb'' = Some ''/a/b''"
  by code_simp+

end
