(* ===== verification/Fastcgi.thy ===== *)
theory Fastcgi
  imports Rust_Bytes Static_Files "HOL-Library.AList" "HOL-Library.Multiset"
begin

text \<open>
  The FastCGI client, \<open>src/fastcgi/mod.rs\<close>: the record format, the parameters of a request, the
  bytes sent, the record loop over the reply, and the parser of the CGI response. The parameter
  map is an association list; the order in which the \<open>HashMap\<close> iterates is an argument. The reply
  of the application is what arrives on the stream until it ends, and how it ended.
\<close>

definition FCGI_BEGIN_REQUEST :: nat where "FCGI_BEGIN_REQUEST = 1"
definition FCGI_END_REQUEST :: nat where "FCGI_END_REQUEST = 3"
definition FCGI_PARAMS :: nat where "FCGI_PARAMS = 4"
definition FCGI_STDIN :: nat where "FCGI_STDIN = 5"
definition FCGI_STDOUT :: nat where "FCGI_STDOUT = 6"
definition FCGI_STDERR :: nat where "FCGI_STDERR = 7"
definition REQUEST_ID :: nat where "REQUEST_ID = 1"
definition PARAMS_CHUNK :: nat where "PARAMS_CHUNK = 65000"

lemmas fcgi_constants =
  FCGI_BEGIN_REQUEST_def FCGI_END_REQUEST_def FCGI_PARAMS_def FCGI_STDIN_def FCGI_STDOUT_def
  FCGI_STDERR_def REQUEST_ID_def PARAMS_CHUNK_def

section \<open>Records\<close>

definition make_record :: "nat \<Rightarrow> nat \<Rightarrow> string \<Rightarrow> string" where
  "make_record record_type rid content =
     (let len = length content mod 2 ^ 16
      in [byte 1, byte record_type, byte (rid div 256), byte (rid mod 256),
          byte (len div 256), byte (len mod 256), byte 0, byte 0] @ content)"

definition begin_request_record :: "nat \<Rightarrow> string" where
  "begin_request_record rid =
     make_record FCGI_BEGIN_REQUEST rid
       [byte 0, byte 1, byte 0, byte 0, byte 0, byte 0, byte 0, byte 0]"

text \<open>Type, content length and padding length of the 8 header bytes.\<close>

definition record_header :: "string \<Rightarrow> nat \<times> nat \<times> nat" where
  "record_header h =
     (ascii_code (h ! 1), 256 * ascii_code (h ! 4) + ascii_code (h ! 5), ascii_code (h ! 6))"

section \<open>Parameters\<close>

definition encode_length :: "nat \<Rightarrow> string" where
  "encode_length len =
     (if len < 128 then [byte len]
      else [chr8 (u8_of (byte (len div 2 ^ 24)) OR 0x80), byte (len div 2 ^ 16), byte (len div 2 ^ 8), byte len])"

definition encode_param :: "string \<times> string \<Rightarrow> string" where
  "encode_param kv = encode_length (length (fst kv)) @ encode_length (length (snd kv)) @ fst kv @ snd kv"

definition encode_params :: "(string \<times> string) list \<Rightarrow> string" where
  "encode_params params = concat (map encode_param params)"

definition split_query :: "string \<Rightarrow> string \<times> string" where
  "split_query uri =
     (case index_of (CHR ''?'') uri of
        Some q \<Rightarrow> (take q uri, drop (Suc q) uri)
      | None \<Rightarrow> (uri, []))"

definition content_type_of :: "(string \<times> string) list \<Rightarrow> string" where
  "content_type_of headers =
     (case find (\<lambda>(k, _). eq_ignore_ascii_case k ''content-type'') headers of
        None \<Rightarrow> [] | Some (_, v) \<Rightarrow> v)"

definition skipped_header :: "string \<Rightarrow> bool" where
  "skipped_header k \<longleftrightarrow>
     eq_ignore_ascii_case k ''content-type'' \<or> eq_ignore_ascii_case k ''content-length''
     \<or> eq_ignore_ascii_case k ''proxy''"

definition env_key :: "string \<Rightarrow> string" where
  "env_key k = ''HTTP_'' @ to_ascii_uppercase (str_replace ''-'' ''_'' k)"

definition insert_header ::
    "string \<times> string \<Rightarrow> (string \<times> string) list \<Rightarrow> (string \<times> string) list" where
  "insert_header kv p =
     (if skipped_header (fst kv) then p else AList.update (env_key (fst kv)) (snd kv) p)"

definition insert_all :: "(string \<times> string) list \<Rightarrow> (string \<times> string) list \<Rightarrow> (string \<times> string) list" where
  "insert_all kvs p = fold (\<lambda>kv. AList.update (fst kv) (snd kv)) kvs p"

text \<open>The version of the package is a parameter (\<open>CARGO_PKG_VERSION\<close>).\<close>

definition build_params ::
    "string \<Rightarrow> string \<Rightarrow> string \<Rightarrow> string \<Rightarrow> (string \<times> string) list \<Rightarrow> nat \<Rightarrow> fastcgi_config
     \<Rightarrow> (string \<times> string) list" where
  "build_params pkg_version req_method uri script_path headers body_len cfg =
     (let (path, query) = split_query uri;
          p = insert_all
            [(''SCRIPT_FILENAME'', script_path), (''SCRIPT_NAME'', path), (''REQUEST_URI'', uri),
             (''QUERY_STRING'', query), (''REQUEST_METHOD'', to_ascii_uppercase req_method),
             (''CONTENT_LENGTH'', show_nat body_len),
             (''SERVER_SOFTWARE'', ''RunNginx/'' @ pkg_version),
             (''GATEWAY_INTERFACE'', ''CGI/1.1''), (''SERVER_PROTOCOL'', ''HTTP/1.1''),
             (''REDIRECT_STATUS'', ''200''),
             (''FCGI_SCRIPT_NAME'', case fc_index cfg of None \<Rightarrow> ''index.php'' | Some i \<Rightarrow> i),
             (''CONTENT_TYPE'', content_type_of headers)] [];
          p = fold insert_header headers p
      in insert_all (fc_params cfg) p)"

section \<open>The exchange\<close>

definition request_bytes :: "string \<Rightarrow> string \<Rightarrow> string" where
  "request_bytes encoded_params body =
     begin_request_record REQUEST_ID
     @ concat (map (make_record FCGI_PARAMS REQUEST_ID) (chunks PARAMS_CHUNK encoded_params))
     @ make_record FCGI_PARAMS REQUEST_ID []
     @ concat (map (make_record FCGI_STDIN REQUEST_ID) (chunks PARAMS_CHUNK body))
     @ make_record FCGI_STDIN REQUEST_ID []"

text \<open>The errors of the exchange, with the text the client reports. \<open>Timed_Out\<close> and \<open>Closed\<close> are how
  the reply ended; an error of the operating system carries its text.\<close>

datatype stream_end = Timed_Out | Closed

datatype fcgi_failure =
    Connect_Timeout | Io_Failure string | Read_Timeout | Header_Failed | Content_Failed
  | No_Terminator | Bad_Utf8 string

fun failure_text :: "fcgi_failure \<Rightarrow> string" where
  "failure_text Connect_Timeout = ''fastcgi connect timeout''"
| "failure_text (Io_Failure s) = s"
| "failure_text Read_Timeout = ''fastcgi read timeout''"
| "failure_text Header_Failed = ''reading fastcgi record header''"
| "failure_text Content_Failed = ''reading fastcgi record content''"
| "failure_text No_Terminator = ''no header terminator in FastCGI response''"
| "failure_text (Bad_Utf8 s) = utf8_error_text 0 s"

definition ended :: "stream_end \<Rightarrow> fcgi_failure \<Rightarrow> fcgi_failure" where
  "ended e failure = (case e of Timed_Out \<Rightarrow> Read_Timeout | Closed \<Rightarrow> failure)"

text \<open>The loop over the records of the reply. A padding that does not arrive is ignored.\<close>

function read_records :: "stream_end \<Rightarrow> string \<Rightarrow> string \<Rightarrow> fcgi_failure + string" where
  "read_records e input stdout_buf =
     (if length input < 8 then Inl (ended e Header_Failed)
      else
        let (record_type, content_len, padding_len) = record_header (take 8 input);
            rest = drop 8 input
        in if length rest < content_len then Inl (ended e Content_Failed)
           else
             let content = take content_len rest;
                 rest = drop padding_len (drop content_len rest);
                 stdout_buf = (if record_type = FCGI_STDOUT then stdout_buf @ content else stdout_buf)
             in if record_type = FCGI_END_REQUEST then Inr stdout_buf
                else read_records e rest stdout_buf)"
  by pat_completeness auto
termination by (relation "measure (\<lambda>(e, input, buf). length input)") auto

declare read_records.simps [simp del]

section \<open>The CGI response\<close>

definition header_end :: "string \<Rightarrow> (nat \<times> nat) option" where
  "header_end data =
     (case (str_find (CRLF @ CRLF) data, str_find [LF, LF] data) of
        (Some a, Some b) \<Rightarrow> if a \<le> b then Some (a, a + 4) else Some (a, a + 4)
      | (Some a, None) \<Rightarrow> Some (a, a + 4)
      | (None, Some b) \<Rightarrow> Some (b, b + 2)
      | (None, None) \<Rightarrow> None)"

definition parse_status :: "string \<Rightarrow> nat" where
  "parse_status rest =
     (case split_whitespace (str_trim rest) of
        [] \<Rightarrow> 200
      | s # _ \<Rightarrow> (case parse_uint 16 s of None \<Rightarrow> 200 | Some n \<Rightarrow> n))"

definition cgi_line :: "string \<Rightarrow> nat \<times> (string \<times> string) list \<Rightarrow> nat \<times> (string \<times> string) list" where
  "cgi_line line st =
     (if line = [] then st
      else case strip_prefix line ''Status:'' of
        Some rest \<Rightarrow> (parse_status rest, snd st)
      | None \<Rightarrow>
          (case index_of (CHR '':'') line of
             None \<Rightarrow> st
           | Some colon \<Rightarrow>
               (fst st, snd st @ [(str_trim (take colon line), str_trim (drop (Suc colon) line))])))"

definition parse_cgi_response :: "string \<Rightarrow> fcgi_failure + static_response" where
  "parse_cgi_response data =
     (case header_end data of
        None \<Rightarrow> Inl No_Terminator
      | Some (hdr_end, body_start) \<Rightarrow>
          if \<not> is_utf8 (take hdr_end data) then Inl (Bad_Utf8 (take hdr_end data))
          else
            let body = drop body_start data;
                (status, resp_headers) = fold cgi_line (str_lines (take hdr_end data)) (200, []);
                resp_headers =
                  (if list_ex (\<lambda>(k, _). eq_ignore_ascii_case k ''content-length'') resp_headers
                   then resp_headers
                   else resp_headers @ [(''Content-Length'', show_nat (length body))])
            in Inr \<lparr>sr_status = status, sr_headers = resp_headers, sr_body = body\<rparr>)"

definition fcgi_error :: "nat \<Rightarrow> string \<Rightarrow> static_response" where
  "fcgi_error status msg =
     (let body = ''<html><body>'' @ show_nat status @ '' FastCGI Error: '' @ msg @ ''</body></html>'' @ [LF]
      in \<lparr>sr_status = status,
          sr_headers = [(''Content-Type'', ''text/html; charset=utf-8''),
                        (''Content-Length'', show_nat (length body))],
          sr_body = body\<rparr>)"

text \<open>The application: connecting fails, or it is sent the request (which can fail) and replies.\<close>

type_synonym fcgi_peer = "fastcgi_upstream \<Rightarrow> fcgi_failure + (string \<Rightarrow> fcgi_failure + (string \<times> stream_end))"

definition run_fastcgi ::
    "((string \<times> string) list \<Rightarrow> (string \<times> string) list)
     \<Rightarrow> (string \<Rightarrow> fcgi_failure + (string \<times> stream_end))
     \<Rightarrow> (string \<times> string) list \<Rightarrow> string \<Rightarrow> fcgi_failure + static_response" where
  "run_fastcgi iteration stream params body =
     and_then (stream (request_bytes (encode_params (iteration params)) body)) (\<lambda>(reply, e).
     and_then (read_records e reply []) parse_cgi_response)"

definition fastcgi_request ::
    "((string \<times> string) list \<Rightarrow> (string \<times> string) list) \<Rightarrow> fcgi_peer \<Rightarrow> string \<Rightarrow> fastcgi_config
     \<Rightarrow> string \<Rightarrow> string \<Rightarrow> string \<Rightarrow> (string \<times> string) list \<Rightarrow> string \<Rightarrow> static_response" where
  "fastcgi_request iteration peer pkg_version cfg req_method uri script_path headers body =
     (case (let params = build_params pkg_version req_method uri script_path headers (length body) cfg
            in and_then (peer (fc_upstream cfg)) (\<lambda>stream. run_fastcgi iteration stream params body)) of
        Inr resp \<Rightarrow> resp
      | Inl e \<Rightarrow> fcgi_error 502 (failure_text e))"

section \<open>What the application decodes\<close>

text \<open>A reader of the record stream and of the name-value pairs, after the FastCGI specification.\<close>

function spec_records :: "string \<Rightarrow> (nat \<times> nat \<times> string) list option" where
  "spec_records s =
     (if s = [] then Some []
      else if length s < 8 then None
      else
        let len = 256 * ascii_code (s ! 4) + ascii_code (s ! 5); pad = ascii_code (s ! 6)
        in if length s < 8 + len + pad then None
           else map_option
             (Cons (ascii_code (s ! 1), 256 * ascii_code (s ! 2) + ascii_code (s ! 3), take len (drop 8 s)))
             (spec_records (drop (len + pad) (drop 8 s))))"
  by pat_completeness auto
termination by (relation "measure length") auto

declare spec_records.simps [simp del]

definition content_of :: "nat \<Rightarrow> (nat \<times> nat \<times> string) list \<Rightarrow> string" where
  "content_of t rs = concat (map (\<lambda>(t', _, c). if t' = t then c else []) rs)"

fun spec_length :: "string \<Rightarrow> (nat \<times> string) option" where
  "spec_length (a # s) =
     (if ascii_code a < 128 then Some (ascii_code a, s)
      else case s of
        b # c # d # r \<Rightarrow>
          Some ((ascii_code a - 128) * 2 ^ 24 + ascii_code b * 2 ^ 16 + ascii_code c * 2 ^ 8 + ascii_code d, r)
      | _ \<Rightarrow> None)"
| "spec_length [] = None"

lemma spec_length_less: "spec_length s = Some (n, r) \<Longrightarrow> length r < length s"
  by (cases s) (auto split: if_splits list.splits)

function spec_params :: "string \<Rightarrow> (string \<times> string) list option" where
  "spec_params s =
     (if s = [] then Some []
      else case spec_length s of
        None \<Rightarrow> None
      | Some (k, r) \<Rightarrow>
          (case spec_length r of
             None \<Rightarrow> None
           | Some (v, r) \<Rightarrow>
               if length r < k + v then None
               else map_option (Cons (take k r, take v (drop k r))) (spec_params (drop (k + v) r))))"
  by pat_completeness auto
termination by (relation "measure length") (auto dest!: spec_length_less)

declare spec_params.simps [simp del]

lemma spec_records_Nil [simp]: "spec_records [] = Some []"
  by (subst spec_records.simps) simp

lemma spec_params_Nil [simp]: "spec_params [] = Some []"
  by (subst spec_params.simps) simp

lemma length_make_record [simp]: "length (make_record t rid c) = 8 + length c"
  by (simp add: make_record_def Let_def)

lemma len16: "n < 65536 \<Longrightarrow> 256 * (n div 256 mod 256) + n mod 256 = (n :: nat)"
  using div_mult_mod_eq [of n 256] by (simp add: less_mult_imp_div_less)

lemma spec_records_make:
  assumes "t < 256" "rid < 65536" "length c < 65536"
  shows "spec_records (make_record t rid c @ s) = map_option (Cons (t, rid, c)) (spec_records s)"
  using assms
  by (subst spec_records.simps) (simp add: make_record_def Let_def len16)

lemma spec_records_chunks:
  assumes "t < 256" "rid < 65536" "\<And>c. c \<in> set cs \<Longrightarrow> length c < 65536"
  shows "spec_records (concat (map (make_record t rid) cs) @ s)
    = map_option ((@) (map (\<lambda>c. (t, rid, c)) cs)) (spec_records s)"
  using assms(3)
proof (induction cs)
  case Nil
  then show ?case by (cases "spec_records s") simp_all
next
  case (Cons c cs)
  have "length c < 65536" using Cons.prems by simp
  from spec_records_make [OF assms(1,2) this] show ?case
    using Cons by (cases "spec_records s") simp_all
qed

lemma unat_u8_of: "unat (u8_of c) = ascii_code c"
proof -
  have "u8_of c = of_nat (ascii_code c)" by (simp only: u8_of_def ascii_code_def of_nat_of_char)
  moreover have "ascii_code c < 256" by simp
  ultimately show ?thesis by (simp add: unat_of_nat)
qed

lemma or_128: "n < 128 \<Longrightarrow> ascii_code (chr8 (u8_of (byte n) OR 0x80)) = 128 + n"
proof -
  assume n: "n < 128"
  then have u: "unat (u8_of (byte n)) = n" by (simp add: unat_u8_of)
  have "\<not> bit n 7" using n by (simp add: bit_iff_odd)
  then have "n AND 2 ^ 7 = 0" by (simp only: and_exp_eq_0_iff_not_bit not_False_eq_True)
  then have "n + 2 ^ 7 = n OR 2 ^ 7" by (rule disjunctive_add_eq_or)
  then have "unat (u8_of (byte n) OR 0x80) = n + 128"
    by (simp add: unsigned_or_eq u)
  then show ?thesis using n by (simp add: chr8_def ascii_code_def of_char_of)
qed

lemma base_256:
  "n div 2 ^ 24 * 2 ^ 24 + (n div 2 ^ 16 mod 256) * 2 ^ 16
     + (n div 2 ^ 8 mod 256) * 2 ^ 8 + n mod 256 = (n :: nat)"
proof -
  have d: "n div 2 ^ 16 = n div 256 div 256" "n div 2 ^ 24 = n div 256 div 256 div 256"
    by (simp_all flip: div_mult2_eq)
  show ?thesis
    unfolding d
    using div_mult_mod_eq [of n 256] div_mult_mod_eq [of "n div 256" 256]
      div_mult_mod_eq [of "n div 256 div 256" 256]
    by (simp del: div_mult_mod_eq; linarith)
qed

lemma spec_length_encode: "n < 2 ^ 31 \<Longrightarrow> spec_length (encode_length n @ s) = Some (n, s)"
proof (cases "n < 128")
  case True
  then show ?thesis by (simp add: encode_length_def)
next
  case False
  assume n: "n < 2 ^ 31"
  then have "n div 2 ^ 24 < 128" by (simp add: less_mult_imp_div_less)
  then show ?thesis
    using False base_256 [of n] by (simp add: encode_length_def or_128)
qed

lemma spec_params_encode:
  assumes "list_all (\<lambda>(k, v). length k < 2 ^ 31 \<and> length v < 2 ^ 31) ps"
  shows "spec_params (encode_params ps) = Some ps"
  using assms
proof (induction ps)
  case Nil
  then show ?case by (simp add: encode_params_def)
next
  case (Cons kv ps)
  obtain k v where kv: "kv = (k, v)" by (cases kv)
  have "encode_length (length k) \<noteq> []" by (simp add: encode_length_def)
  then show ?case
    using Cons unfolding encode_params_def kv
    by (subst spec_params.simps) (simp add: encode_param_def spec_length_encode)
qed

text \<open>A record as an application sends it, with padding.\<close>

definition app_record :: "nat \<times> string \<times> string \<Rightarrow> string" where
  "app_record r =
     (case r of (t, content, padding) \<Rightarrow>
        [byte 1, byte t, byte 0, byte 1, byte (length content div 256), byte (length content mod 256),
         byte (length padding), byte 0] @ content @ padding)"

definition app_record_ok :: "nat \<times> string \<times> string \<Rightarrow> bool" where
  "app_record_ok r \<longleftrightarrow>
     (case r of (t, content, padding) \<Rightarrow>
        t < 256 \<and> t \<noteq> FCGI_END_REQUEST \<and> length content < 65536 \<and> length padding < 256)"

lemma read_records_step:
  assumes "app_record_ok (t, content, padding)"
  shows "read_records e (app_record (t, content, padding) @ s) buf
    = read_records e s (if t = FCGI_STDOUT then buf @ content else buf)"
  using assms
  by (subst read_records.simps)
     (simp add: app_record_def app_record_ok_def record_header_def Let_def len16)

lemma read_records_end:
  assumes "length content < 65536" "length padding < 256"
  shows "read_records e (app_record (FCGI_END_REQUEST, content, padding) @ s) buf = Inr buf"
  using assms
  by (subst read_records.simps)
     (simp add: app_record_def record_header_def fcgi_constants Let_def len16)

lemma read_records_reply:
  assumes "list_all app_record_ok rs" "length content < 65536" "length padding < 256"
  shows "read_records e (concat (map app_record rs) @ app_record (FCGI_END_REQUEST, content, padding) @ s) buf
    = Inr (buf @ concat (map (\<lambda>(t, c, _). if t = FCGI_STDOUT then c else []) rs))"
  using assms(1)
proof (induction rs arbitrary: buf)
  case Nil
  then show ?case using read_records_end [OF assms(2,3)] by simp
next
  case (Cons r rs)
  obtain t c p where r: "r = (t, c, p)" by (cases r)
  then have "app_record_ok (t, c, p)" using Cons.prems by simp
  from read_records_step [OF this] show ?case using Cons by (simp add: r)
qed

section \<open>The parameters\<close>

lemma map_of_insert_all:
  "map_of (insert_all kvs p) K
   = (case map_of (rev kvs) K of Some v \<Rightarrow> Some v | None \<Rightarrow> map_of p K)"
proof (induction kvs arbitrary: p)
  case Nil
  then show ?case by (simp add: insert_all_def)
next
  case (Cons kv kvs)
  then show ?case
    by (cases kv) (simp add: insert_all_def update_conv' map_add_def split: option.splits)
qed

lemma map_of_insert_headers:
  assumes "\<And>k. \<not> skipped_header k \<Longrightarrow> env_key k \<noteq> K"
  shows "map_of (fold insert_header headers p) K = map_of p K"
proof (induction headers arbitrary: p)
  case Nil
  then show ?case by simp
next
  case (Cons kv headers)
  have "map_of (insert_header kv p) K = map_of p K"
    using assms [of "fst kv"] by (auto simp: insert_header_def update_conv')
  then show ?case using Cons.IH [of "insert_header kv p"] by simp
qed

lemma char_lower_upper: "char_lower (char_upper c) = char_lower c"
proof (cases "97 \<le> ascii_code c \<and> ascii_code c \<le> 122")
  case True
  have "ascii_code (char_of (ascii_code c - 32)) = (ascii_code c - 32) mod 256"
    by (simp add: ascii_code_def)
  also have "(ascii_code c - 32) mod 256 = ascii_code c - 32"
    using True by (intro mod_less) linarith
  finally have u: "ascii_code (char_upper c) = ascii_code c - 32"
    using True by (simp add: char_upper_def)
  moreover have "65 \<le> ascii_code c - 32" "ascii_code c - 32 \<le> 90" "ascii_code c - 32 + 32 = ascii_code c"
    using True by linarith+
  ultimately have "char_lower (char_upper c) = char_of (ascii_code c)"
    unfolding char_lower_def by simp
  moreover have "char_lower c = c" using True by (simp add: char_lower_def)
  ultimately show ?thesis by (simp add: ascii_code_def)
next
  case False
  then show ?thesis by (auto simp: char_upper_def)
qed

text \<open>The only header name that becomes \<open>HTTP_PROXY\<close> is skipped.\<close>

lemma env_key_proxy: "env_key k = ''HTTP_PROXY'' \<Longrightarrow> skipped_header k"
proof -
  define f where "f x = (if x = CHR ''-'' then CHR ''_'' else x)" for x
  have "str_replace ''-'' ''_'' k = map f k"
    by (simp add: str_replace_char) (induction k; simp add: f_def)
  moreover assume "env_key k = ''HTTP_PROXY''"
  ultimately have u: "map (char_upper \<circ> f) k = ''PROXY''"
    by (simp add: env_key_def to_ascii_uppercase_def)
  have "char_lower (char_upper (f x)) = char_lower x" if "char_upper (f x) \<in> set ''PROXY''" for x
  proof (cases "x = CHR ''-''")
    case True
    then have "char_upper (f x) = CHR ''_''" by (simp add: f_def char_upper_def ascii_code_def)
    with that show ?thesis by simp
  next
    case False
    then show ?thesis by (simp add: f_def char_lower_upper)
  qed
  moreover have "char_upper (f x) \<in> set ''PROXY''" if "x \<in> set k" for x
    using that unfolding u [symmetric] by simp
  ultimately have "map char_lower (map (char_upper \<circ> f) k) = map char_lower k" by simp
  moreover have "map char_lower ''PROXY'' = ''proxy''" "map char_lower ''proxy'' = ''proxy''" by code_simp+
  ultimately show ?thesis
    unfolding u skipped_header_def eq_ignore_ascii_case_def to_ascii_lowercase_def by metis
qed

lemma env_key_http: "starts_with (env_key k) ''HTTP_''"
  by (simp add: env_key_def starts_with_def)

definition demo_fcgi :: fastcgi_config where
  "demo_fcgi = \<lparr>fc_upstream = UnixSocket ''/run/php.sock'', fc_params = [(''HTTPS'', ''on'')],
     fc_index = None, fc_read_timeout = 60, fc_connect_timeout = 5\<rparr>"

section \<open>Properties\<close>

text \<open>C12: what the client writes is a well-formed FastCGI stream: a reader of the specification finds
  one BEGIN record, then PARAMS records ended by an empty one, whose contents decode to exactly the
  parameters of the request, then STDIN records ended by an empty one, whose contents are the body.\<close>

theorem fcgi_request_wire:
  assumes "list_all (\<lambda>(k, v). length k < 2 ^ 31 \<and> length v < 2 ^ 31) params"
  shows "\<exists>ps bs. spec_records (request_bytes (encode_params params) body)
      = Some ((FCGI_BEGIN_REQUEST, REQUEST_ID, [byte 0, byte 1, byte 0, byte 0, byte 0, byte 0, byte 0, byte 0])
          # map (\<lambda>c. (FCGI_PARAMS, REQUEST_ID, c)) ps @ (FCGI_PARAMS, REQUEST_ID, [])
          # map (\<lambda>c. (FCGI_STDIN, REQUEST_ID, c)) bs @ [(FCGI_STDIN, REQUEST_ID, [])])
    \<and> [] \<notin> set ps \<and> spec_params (concat ps) = Some params
    \<and> [] \<notin> set bs \<and> concat bs = body"
proof (intro exI conjI)
  let ?ps = "chunks PARAMS_CHUNK (encode_params params)" and ?bs = "chunks PARAMS_CHUNK body"
  have len: "length c < 65536" if "c \<in> set (chunks PARAMS_CHUNK s)" for c s :: string
    using chunks_bounds [OF that] by (simp add: PARAMS_CHUNK_def)
  show "spec_records (request_bytes (encode_params params) body)
      = Some ((FCGI_BEGIN_REQUEST, REQUEST_ID, [byte 0, byte 1, byte 0, byte 0, byte 0, byte 0, byte 0, byte 0])
          # map (\<lambda>c. (FCGI_PARAMS, REQUEST_ID, c)) ?ps @ (FCGI_PARAMS, REQUEST_ID, [])
          # map (\<lambda>c. (FCGI_STDIN, REQUEST_ID, c)) ?bs @ [(FCGI_STDIN, REQUEST_ID, [])])"
    using spec_records_make [where s = "[]"] len
    by (simp add: request_bytes_def begin_request_record_def spec_records_make spec_records_chunks fcgi_constants)
  show "spec_params (concat ?ps) = Some params"
    using spec_params_encode [OF assms] by (simp add: concat_chunks PARAMS_CHUNK_def)
  show "concat ?bs = body" by (simp add: concat_chunks PARAMS_CHUNK_def)
  show "[] \<notin> set ?ps" "[] \<notin> set ?bs" using chunks_bounds by blast+
qed

theorem fcgi_request_wire_witness:
  "\<exists>ps bs. spec_records (request_bytes (encode_params [(''A'', ''b'')]) ''x'')
      = Some ((FCGI_BEGIN_REQUEST, REQUEST_ID, [byte 0, byte 1, byte 0, byte 0, byte 0, byte 0, byte 0, byte 0])
          # map (\<lambda>c. (FCGI_PARAMS, REQUEST_ID, c)) ps @ (FCGI_PARAMS, REQUEST_ID, [])
          # map (\<lambda>c. (FCGI_STDIN, REQUEST_ID, c)) bs @ [(FCGI_STDIN, REQUEST_ID, [])])
    \<and> [] \<notin> set ps \<and> spec_params (concat ps) = Some [(''A'', ''b'')]
    \<and> [] \<notin> set bs \<and> concat bs = ''x''"
  by (rule fcgi_request_wire) simp



text \<open>C13: no request header decides which script runs or how long the body is, and none sets
  \<open>HTTP_PROXY\<close>: unless the configuration overrides them, these parameters are the client's own.\<close>

theorem fcgi_params_protected:
  assumes "set (map fst (fc_params cfg)) \<inter> {''SCRIPT_FILENAME'', ''CONTENT_LENGTH'', ''REQUEST_METHOD'', ''HTTP_PROXY''} = {}"
  shows "map_of (build_params ver m uri script headers n cfg) ''SCRIPT_FILENAME'' = Some script
    \<and> map_of (build_params ver m uri script headers n cfg) ''CONTENT_LENGTH'' = Some (show_nat n)
    \<and> map_of (build_params ver m uri script headers n cfg) ''REQUEST_METHOD'' = Some (to_ascii_uppercase m)
    \<and> map_of (build_params ver m uri script headers n cfg) ''HTTP_PROXY'' = None"
proof -
  have cfg: "map_of (rev (fc_params cfg)) K = None"
    if "K \<in> {''SCRIPT_FILENAME'', ''CONTENT_LENGTH'', ''REQUEST_METHOD'', ''HTTP_PROXY''}" for K
  proof -
    have "K \<notin> set (map fst (fc_params cfg))" using that assms by blast
    then show ?thesis by (simp add: map_of_eq_None_iff)
  qed
  have hdr: "map_of (fold insert_header headers p) K = map_of p K" if "\<not> starts_with K ''HTTP_''" for p K
    using map_of_insert_headers env_key_http that by metis
  have proxy: "map_of (fold insert_header headers p) ''HTTP_PROXY'' = map_of p ''HTTP_PROXY''" for p
    using map_of_insert_headers env_key_proxy by blast
  show ?thesis
    unfolding build_params_def Let_def
    by (simp add: map_of_insert_all cfg hdr proxy starts_with_def split: prod.split)
qed

theorem fcgi_params_protected_witness:
  "map_of (build_params ''1'' ''get'' ''/a'' ''/srv/a'' [(''Proxy'', ''x''), (''Script-Filename'', ''y'')] 0 demo_fcgi) ''SCRIPT_FILENAME'' = Some ''/srv/a''
    \<and> map_of (build_params ''1'' ''get'' ''/a'' ''/srv/a'' [(''Proxy'', ''x''), (''Script-Filename'', ''y'')] 0 demo_fcgi) ''CONTENT_LENGTH'' = Some (show_nat 0)
    \<and> map_of (build_params ''1'' ''get'' ''/a'' ''/srv/a'' [(''Proxy'', ''x''), (''Script-Filename'', ''y'')] 0 demo_fcgi) ''REQUEST_METHOD'' = Some (to_ascii_uppercase ''get'')
    \<and> map_of (build_params ''1'' ''get'' ''/a'' ''/srv/a'' [(''Proxy'', ''x''), (''Script-Filename'', ''y'')] 0 demo_fcgi) ''HTTP_PROXY'' = None"
  by (rule fcgi_params_protected) (simp add: demo_fcgi_def)

text \<open>The blank line that ends the headers is taken to be the first CRLF CRLF even when an empty line
  of bare line feeds comes before it: the start of the body is read as headers and lost.\<close>

lemma cgi_body_as_headers:
  "parse_cgi_response (''A: 1'' @ [LF, LF] @ ''Set-Cookie: x'' @ CRLF @ CRLF @ ''y'')
   = Inr \<lparr>sr_status = 200,
       sr_headers = [(''A'', ''1''), (''Set-Cookie'', ''x''), (''Content-Length'', ''1'')], sr_body = ''y''\<rparr>"
  by code_simp

end
