(* ===== verification/Proxy.thy ===== *)
theory Proxy
  imports Rust_Bytes Static_Files
begin

text \<open>
  The reverse proxy, \<open>src/proxy/mod.rs\<close>: the check of the upstream address, the request that is
  forwarded, the loop that reads the response, its parser, and the pool of idle connections. The
  network is an argument: connecting, writing and what each read returns. Errors are their texts,
  which the response to the client shows; debug and warning logs are left out.
\<close>

definition POOL_SIZE :: nat where "POOL_SIZE = 32"
definition RESPONSE_CAP :: nat where "RESPONSE_CAP = 64 * 1024 * 1024"

section \<open>The connection pool\<close>

type_synonym 'c pool = "string \<Rightarrow> 'c list option"

definition str_or :: "string \<Rightarrow> string option \<Rightarrow> string" where
  "str_or d x = (case x of None \<Rightarrow> d | Some s \<Rightarrow> s)"

definition port_of :: "proxy_config \<Rightarrow> nat" where
  "port_of cfg = (case url_port_or_known_default (pc_upstream cfg) of None \<Rightarrow> 80 | Some p \<Rightarrow> p)"

definition pool_key :: "proxy_config \<Rightarrow> string" where
  "pool_key cfg =
     url_scheme (pc_upstream cfg) @ ''://'' @ str_or [] (url_host (pc_upstream cfg)) @ '':'' @ show_nat (port_of cfg)"

text \<open>\<open>connect\<close> is \<open>TcpStream::connect\<close> under the timeout followed by \<open>set_nodelay\<close>: an error text
  or a connection. The health check of an idle connection always accepts it.\<close>

definition get_connection ::
    "(string \<Rightarrow> string + 'c) \<Rightarrow> proxy_config \<Rightarrow> 'c pool \<Rightarrow> (string + 'c) \<times> 'c pool" where
  "get_connection connect cfg pool =
     (case pool (pool_key cfg) of
        Some (c # q) \<Rightarrow> (Inr c, pool(pool_key cfg \<mapsto> q))
      | _ \<Rightarrow> (connect (str_or ''127.0.0.1'' (url_host (pc_upstream cfg)) @ '':'' @ show_nat (port_of cfg)), pool))"

definition return_to_pool :: "proxy_config \<Rightarrow> 'c \<Rightarrow> 'c pool \<Rightarrow> 'c pool" where
  "return_to_pool cfg c pool =
     (let q = (case pool (pool_key cfg) of None \<Rightarrow> [] | Some q \<Rightarrow> q)
      in pool(pool_key cfg \<mapsto> if length q < POOL_SIZE then q @ [c] else q))"

section \<open>The request\<close>

definition ssrf_blocked :: "proxy_config \<Rightarrow> string option" where
  "ssrf_blocked cfg =
     (if pc_allow_internal cfg then None
      else
        let host = str_or [] (url_host (pc_upstream cfg));
            local_name =
              (if eq_ignore_ascii_case host ''localhost''
               then Some ''proxy_pass to localhost blocked (SSRF). Use proxy_allow_internal on;''
               else None)
        in case parse_ip_addr host of
             None \<Rightarrow> local_name
           | Some ip \<Rightarrow>
               if is_loopback ip \<or> is_unspecified ip
               then Some ''proxy_pass to loopback/unspecified blocked (SSRF). Use proxy_allow_internal on;''
               else if (case ip of V4 v4 \<Rightarrow> is_private_v4 v4 \<or> is_link_local_v4 v4 | V6 _ \<Rightarrow> False)
               then Some ''proxy_pass to private address blocked (SSRF). Use proxy_allow_internal on;''
               else local_name)"

definition build_upstream_path :: "proxy_config \<Rightarrow> string \<Rightarrow> string \<Rightarrow> string" where
  "build_upstream_path cfg original_path location_prefix =
     (let upstream_path = url_path (pc_upstream cfg)
      in if upstream_path = ''/'' \<or> upstream_path \<noteq> []
         then
           let suffix = str_or original_path (strip_prefix original_path location_prefix)
           in trim_end_char (CHR ''/'') upstream_path @ ''/'' @ trim_start_char (CHR ''/'') suffix
         else original_path)"

definition request_hop_by_hop :: "string list" where
  "request_hop_by_hop =
     [''connection'', ''keep-alive'', ''proxy-authenticate'', ''proxy-authorization'', ''te'',
      ''trailers'', ''transfer-encoding'', ''upgrade'']"

definition is_hop :: "string list \<Rightarrow> string \<Rightarrow> bool" where
  "is_hop hops k \<longleftrightarrow> list_ex (eq_ignore_ascii_case k) hops"

definition header_line :: "string \<times> string \<Rightarrow> string" where
  "header_line kv = fst kv @ '': '' @ snd kv"

text \<open>The header lines of the forwarded request, in order, after the request line.\<close>

definition forwarded_headers ::
    "proxy_config \<Rightarrow> (string \<times> string) list \<Rightarrow> nat \<Rightarrow> (string \<times> string) list" where
  "forwarded_headers cfg headers body_len =
     (let host = str_or [] (url_host (pc_upstream cfg)) @ '':'' @ show_nat (port_of cfg);
          existing_xff = str_or [] (get_header headers ''x-forwarded-for'');
          xff_set = list_ex (\<lambda>(k, _). eq_ignore_ascii_case k ''x-forwarded-for'') (pc_set_headers cfg)
      in [(''Host'', host)]
         @ filter (\<lambda>(k, _). \<not> is_hop request_hop_by_hop k) headers
         @ pc_set_headers cfg
         @ (if \<not> xff_set \<and> existing_xff \<noteq> [] then [(''X-Forwarded-For'', existing_xff)] else [])
         @ [(''Content-Length'', show_nat body_len), (''Connection'', ''keep-alive'')])"

definition build_proxy_request ::
    "proxy_config \<Rightarrow> string \<Rightarrow> string \<Rightarrow> (string \<times> string) list \<Rightarrow> string \<Rightarrow> string" where
  "build_proxy_request cfg req_method path headers body =
     req_method @ '' '' @ path @ '' HTTP/1.1'' @ CRLF
     @ concat (map (\<lambda>kv. header_line kv @ CRLF) (forwarded_headers cfg headers (length body)))
     @ CRLF @ body"

section \<open>The response\<close>

definition find_double_crlf :: "string \<Rightarrow> nat option" where
  "find_double_crlf buf = str_find (CRLF @ CRLF) buf"

fun extract_from_lines :: "string \<Rightarrow> string list \<Rightarrow> string option" where
  "extract_from_lines name [] = None"
| "extract_from_lines name (line # ls) =
     (if starts_with (to_ascii_lowercase line) (to_ascii_lowercase name @ '':'')
      then Some (str_trim (drop (length name + 1) line))
      else extract_from_lines name ls)"

definition extract_header_value :: "string \<Rightarrow> string \<Rightarrow> string option" where
  "extract_header_value headers name = extract_from_lines name (str_lines headers)"

text \<open>The sum in the length test wraps at the machine width.\<close>

definition is_response_complete :: "string \<Rightarrow> bool" where
  "is_response_complete buf =
     (case find_double_crlf buf of
        None \<Rightarrow> False
      | Some hdr_end \<Rightarrow>
          (let header_section = (if is_utf8 (take hdr_end buf) then take hdr_end buf else [])
           in case (case extract_header_value header_section ''content-length'' of
                      None \<Rightarrow> None
                    | Some cl \<Rightarrow> parse_uint 64 cl) of
                Some n \<Rightarrow> (hdr_end + 4 + n) mod 2 ^ 64 \<le> length buf
              | None \<Rightarrow>
                  (case extract_header_value header_section ''transfer-encoding'' of
                     None \<Rightarrow> False
                   | Some te \<Rightarrow> str_contains te ''chunked'' \<and> str_contains buf (''0'' @ CRLF @ CRLF))))"

text \<open>What a read gives: bytes (none at the end of the stream), a timeout, or an error.\<close>

datatype read_event = Data string | Read_Timed_Out | Read_Error string

fun read_response :: "read_event list \<Rightarrow> string \<Rightarrow> string + string" where
  "read_response [] buf = Inr buf"
| "read_response (Read_Timed_Out # _) buf = Inl ''proxy read timeout''"
| "read_response (Read_Error e # _) buf = Inl e"
| "read_response (Data d # evs) buf =
     (if d = [] then Inr buf
      else
        let buf = buf @ d
        in if is_response_complete buf then Inr buf
           else if RESPONSE_CAP < length buf then Inr buf
           else read_response evs buf)"

definition response_hop_by_hop :: "string list" where
  "response_hop_by_hop = [''connection'', ''keep-alive'', ''transfer-encoding'', ''te'', ''upgrade'']"

definition response_header :: "string \<Rightarrow> (string \<times> string) list" where
  "response_header line =
     (case index_of (CHR '':'') line of
        None \<Rightarrow> []
      | Some colon \<Rightarrow>
          let name = str_trim (take colon line); val = str_trim (drop (Suc colon) line)
          in if is_hop response_hop_by_hop name then [] else [(name, val)])"

definition response_status :: "string \<Rightarrow> nat" where
  "response_status status_line =
     (case nth_opt (split_whitespace status_line) 1 of
        None \<Rightarrow> 502
      | Some s \<Rightarrow> (case parse_uint 16 s of None \<Rightarrow> 502 | Some n \<Rightarrow> n))"

definition parse_proxy_response :: "string \<Rightarrow> string + (nat \<times> (string \<times> string) list \<times> string)" where
  "parse_proxy_response buf =
     (case find_double_crlf buf of
        None \<Rightarrow> Inl ''incomplete proxy response''
      | Some hdr_end \<Rightarrow>
          if \<not> is_utf8 (take hdr_end buf) then Inl ''non-UTF8 proxy response headers''
          else
            (case str_lines (take hdr_end buf) of
               [] \<Rightarrow> Inl ''empty proxy response''
             | status_line # header_lines \<Rightarrow>
                 Inr (response_status status_line, concat (map response_header header_lines),
                      drop (hdr_end + 4) buf)))"

definition bad_gateway :: "string \<Rightarrow> static_response" where
  "bad_gateway reason =
     (let body = ''<html><body>502 Bad Gateway: '' @ reason @ ''</body></html>'' @ [LF]
      in \<lparr>sr_status = 502,
          sr_headers = [(''Content-Type'', ''text/html; charset=utf-8''),
                        (''Content-Length'', show_nat (length body))],
          sr_body = body\<rparr>)"

section \<open>The exchange\<close>

text \<open>\<open>exchange\<close> writes a request on a connection and gives the error of the write, or what the reads
  that follow return.\<close>

definition on_stream ::
    "('c \<Rightarrow> string \<Rightarrow> string + read_event list) \<Rightarrow> 'c \<Rightarrow> proxy_config \<Rightarrow> string \<Rightarrow> string \<Rightarrow> string
     \<Rightarrow> (string \<times> string) list \<Rightarrow> string \<Rightarrow> string + static_response" where
  "on_stream exchange c cfg req_method path location_prefix headers body =
     and_then (exchange c
       (build_proxy_request cfg req_method (build_upstream_path cfg path location_prefix) headers body)) (\<lambda>evs.
     and_then (read_response evs []) (\<lambda>buf.
     and_then (parse_proxy_response buf) (\<lambda>(status, resp_headers, resp_body).
     Inr \<lparr>sr_status = status, sr_headers = resp_headers, sr_body = resp_body\<rparr>)))"

definition keep_alive :: "static_response \<Rightarrow> bool" where
  "keep_alive resp =
     list_ex (\<lambda>(k, v). eq_ignore_ascii_case k ''connection'' \<and> eq_ignore_ascii_case v ''keep-alive'')
       (sr_headers resp)"

definition do_proxy ::
    "(string \<Rightarrow> string + 'c) \<Rightarrow> ('c \<Rightarrow> string \<Rightarrow> string + read_event list) \<Rightarrow> proxy_config \<Rightarrow> string
     \<Rightarrow> string \<Rightarrow> string \<Rightarrow> (string \<times> string) list \<Rightarrow> string \<Rightarrow> 'c pool
     \<Rightarrow> (string + static_response) \<times> 'c pool" where
  "do_proxy connect exchange cfg req_method path location_prefix headers body pool =
     (case ssrf_blocked cfg of
        Some e \<Rightarrow> (Inl e, pool)
      | None \<Rightarrow>
          (case get_connection connect cfg pool of
             (Inl e, pool) \<Rightarrow> (Inl e, pool)
           | (Inr c, pool) \<Rightarrow>
               (case on_stream exchange c cfg req_method path location_prefix headers body of
                  Inl e \<Rightarrow> (Inl e, pool)
                | Inr resp \<Rightarrow>
                    (Inr resp, if keep_alive resp then return_to_pool cfg c pool else pool))))"

definition proxy_answer :: "string + static_response \<Rightarrow> static_response" where
  "proxy_answer r = (case r of Inl e \<Rightarrow> bad_gateway e | Inr resp \<Rightarrow> resp)"

definition proxy_request ::
    "(string \<Rightarrow> string + 'c) \<Rightarrow> ('c \<Rightarrow> string \<Rightarrow> string + read_event list) \<Rightarrow> proxy_config \<Rightarrow> string
     \<Rightarrow> string \<Rightarrow> string \<Rightarrow> (string \<times> string) list \<Rightarrow> string \<Rightarrow> 'c pool \<Rightarrow> static_response \<times> 'c pool" where
  "proxy_request connect exchange cfg req_method path location_prefix headers body pool =
     (let (r, pool) = do_proxy connect exchange cfg req_method path location_prefix headers body pool
      in (proxy_answer r, pool))"

definition proxy_request_stream ::
    "('c \<Rightarrow> string \<Rightarrow> string + read_event list) \<Rightarrow> proxy_config \<Rightarrow> string \<Rightarrow> string \<Rightarrow> string
     \<Rightarrow> (string \<times> string) list \<Rightarrow> string \<Rightarrow> 'c \<Rightarrow> static_response" where
  "proxy_request_stream exchange cfg req_method path location_prefix headers body c =
     proxy_answer (on_stream exchange c cfg req_method path location_prefix headers body)"

section \<open>Framing of the request\<close>

definition clean :: "string \<Rightarrow> bool" where
  "clean s \<longleftrightarrow> CR \<notin> set s \<and> LF \<notin> set s"

lemma join_crlf_concat: "join_crlf (l # ls) @ CRLF = l @ CRLF @ concat (map (\<lambda>x. x @ CRLF) ls)"
proof (induction ls arbitrary: l)
  case Nil
  then show ?case by simp
next
  case (Cons x ls)
  show ?case using Cons.IH [of x] by simp
qed

lemma find_header_end:
  assumes "list_all good_line ls" "ls \<noteq> []"
  shows "find_double_crlf (join_crlf ls @ CRLF @ CRLF @ body) = Some (length (join_crlf ls))"
  using find_crlf2 [OF assms] by (simp add: find_double_crlf_def)

lemma show_nat_clean [simp]: "clean (show_nat n)"
proof -
  have "is_ascii_digit CR = False" "is_ascii_digit LF = False"
    by (simp_all add: is_ascii_digit_def ascii_code_def CR_def LF_def)
  then show ?thesis using show_nat_hd unfolding clean_def by metis
qed

lemma clean_append [simp]: "clean (a @ b) \<longleftrightarrow> clean a \<and> clean b"
  by (auto simp: clean_def)

lemma clean_Cons [simp]: "clean (c # s) \<longleftrightarrow> c \<noteq> CR \<and> c \<noteq> LF \<and> clean s"
  by (auto simp: clean_def)

lemma header_line_good: "clean (fst kv) \<Longrightarrow> clean (snd kv) \<Longrightarrow> good_line (header_line kv)"
  by (auto simp: good_line_def header_line_def clean_def CR_def LF_def)

definition clean_headers :: "(string \<times> string) list \<Rightarrow> bool" where
  "clean_headers hs \<longleftrightarrow> list_all (\<lambda>kv. clean (fst kv) \<and> clean (snd kv)) hs"

lemma forwarded_clean:
  assumes "clean (str_or [] (url_host (pc_upstream cfg)))" "clean_headers headers"
    "clean_headers (pc_set_headers cfg)"
  shows "clean_headers (forwarded_headers cfg headers n)"
proof -
  have "clean (str_or [] (get_header headers x))" for x
    using assms(2) find_in_set [of "\<lambda>(k, _). eq_ignore_ascii_case k x" headers]
    by (cases "find (\<lambda>(k, _). eq_ignore_ascii_case k x) headers")
       (auto simp: clean_headers_def get_header_def str_or_def list_all_iff, simp_all add: clean_def)
  moreover have lits: "clean ''Host''" "clean '':''" "clean ''X-Forwarded-For''" "clean ''Content-Length''"
    "clean ''Connection''" "clean ''keep-alive''"
    by (simp_all add: clean_def CR_def LF_def)
  ultimately show ?thesis
    using assms unfolding clean_headers_def forwarded_headers_def Let_def
    by (auto simp: list_all_iff CR_def LF_def)
qed

section \<open>Reading the response\<close>

text \<open>A response whose header section names its length, and every incomplete part of it.\<close>

definition sized_response :: "string \<Rightarrow> string \<Rightarrow> bool" where
  "sized_response sec body \<longleftrightarrow>
     is_utf8 sec \<and> extract_header_value sec ''content-length'' = Some (show_nat (length body))
     \<and> find_double_crlf (sec @ CRLF @ CRLF @ body) = Some (length sec)
     \<and> length sec + 4 + length body \<le> RESPONSE_CAP"

lemma response_complete_prefix:
  assumes "sized_response sec body"
  shows "is_response_complete (take n (sec @ CRLF @ CRLF @ body)) \<longleftrightarrow> length sec + 4 + length body \<le> n"
proof -
  let ?s = "sec @ CRLF @ CRLF @ body"
  have small: "length sec + 4 + length body < 2 ^ 64" "length body < 2 ^ 64"
    using assms by (simp_all add: sized_response_def RESPONSE_CAP_def)
  have "find_double_crlf (take n ?s) = (if length sec + 4 \<le> n then Some (length sec) else None)"
    using assms str_find_take [of "CRLF @ CRLF" ?s "length sec" n]
    by (simp add: sized_response_def find_double_crlf_def)
  then show ?thesis
    using assms small
    by (auto simp: is_response_complete_def sized_response_def parse_show_nat)
qed

lemma read_response_chunks:
  assumes "sized_response sec body" "[] \<notin> set ds"
    and "buf @ concat ds = sec @ CRLF @ CRLF @ body" "ds \<noteq> []"
  shows "read_response (map Data ds @ evs) buf = Inr (sec @ CRLF @ CRLF @ body)"
  using assms(2-4)
proof (induction ds arbitrary: buf)
  case Nil
  then show ?case by simp
next
  case (Cons d ds)
  let ?s = "sec @ CRLF @ CRLF @ body"
  have len: "length ?s = length sec + 4 + length body" by simp
  have b: "buf @ d = take (length (buf @ d)) ?s"
    using Cons.prems(2) by (metis append_assoc append_eq_conv_conj concat.simps(2))
  have total_len: "length (buf @ d) + length (concat ds) = length ?s"
    using arg_cong [OF Cons.prems(2), of length] by simp
  show ?case
  proof (cases "ds = []")
    case True
    then have "buf @ d = ?s" using Cons.prems(2) by simp
    moreover have "is_response_complete ?s"
      using response_complete_prefix [OF assms(1), of "length ?s"] by simp
    ultimately show ?thesis using Cons.prems(1) by (simp add: True)
  next
    case False
    then have "0 < length (concat ds)" using Cons.prems(1) by (cases ds) auto
    then have less: "length (buf @ d) < length ?s" using total_len by linarith
    then have "\<not> is_response_complete (buf @ d)"
      using response_complete_prefix [OF assms(1), of "length (buf @ d)"] b len by simp
    moreover have "\<not> RESPONSE_CAP < length (buf @ d)"
      using less assms(1) len unfolding sized_response_def by linarith
    moreover have "read_response (map Data ds @ evs) (buf @ d) = Inr ?s"
      using Cons.prems False by (intro Cons.IH) auto
    ultimately show ?thesis using Cons.prems(1) by auto
  qed
qed

lemma parse_sized_response:
  assumes "sized_response sec body" "str_lines sec = status_line # ls"
  shows "parse_proxy_response (sec @ CRLF @ CRLF @ body)
    = Inr (response_status status_line, concat (map response_header ls), body)"
  using assms by (simp add: parse_proxy_response_def sized_response_def)

lemma no_connection_header:
  assumes "list_all (\<lambda>(k, _). \<not> is_hop response_hop_by_hop k) hs"
  shows "\<not> keep_alive \<lparr>sr_status = st, sr_headers = hs, sr_body = body\<rparr>"
proof -
  have "\<not> eq_ignore_ascii_case k ''connection''" if "\<not> is_hop response_hop_by_hop k" for k
    using that by (simp add: is_hop_def response_hop_by_hop_def)
  then show ?thesis using assms by (auto simp: keep_alive_def list_ex_iff list_all_iff)
qed

lemma response_headers_not_hop:
  "list_all (\<lambda>(k, _). \<not> is_hop response_hop_by_hop k) (concat (map response_header ls))"
  by (induction ls) (auto simp: response_header_def Let_def split: option.split)

lemma parse_proxy_response_headers:
  "parse_proxy_response buf = Inr (st, hs, body) \<Longrightarrow> list_all (\<lambda>(k, _). \<not> is_hop response_hop_by_hop k) hs"
  unfolding parse_proxy_response_def
  by (auto simp: response_headers_not_hop split: option.splits if_splits list.splits)

lemma on_stream_not_kept:
  assumes "on_stream exchange c cfg m path pre headers body = Inr resp"
  shows "\<not> keep_alive resp"
proof -
  obtain buf st hs b where "parse_proxy_response buf = Inr (st, hs, b)"
    and resp: "resp = \<lparr>sr_status = st, sr_headers = hs, sr_body = b\<rparr>"
    using assms unfolding on_stream_def and_then_Inr by auto
  from parse_proxy_response_headers [OF this(1)] show ?thesis
    unfolding resp by (rule no_connection_header)
qed

definition demo_proxy :: proxy_config where
  "demo_proxy = \<lparr>pc_upstream = \<lparr>url_scheme = ''http'', url_host = Some ''app'', url_port_or_known_default = Some 80, url_path = ''/''\<rparr>,
     pc_set_headers = [], pc_read_timeout = 60, pc_connect_timeout = 5, pc_buffering = True,
     pc_http2 = False, pc_allow_internal = False\<rparr>"

section \<open>Properties\<close>




lemma demo_sized: "sized_response (join_crlf [''HTTP/1.1 200 OK'', ''Content-Length: 2'']) ''hi''"
proof -
  let ?ls = "[''HTTP/1.1 200 OK'', ''Content-Length: 2'']"
  have good: "list_all good_line ?ls" by (simp add: good_line_def CR_def LF_def)
  have "is_utf8 (join_crlf ?ls)"
    by (rule is_utf8_ascii) (simp add: ascii_code_def CR_def LF_def)
  moreover have "extract_header_value (join_crlf ?ls) ''content-length'' = Some (show_nat 2)"
  proof -
    have l: "to_ascii_lowercase ''Content-Length: 2'' = ''content-length: 2''"
      "to_ascii_lowercase ''content-length'' = ''content-length''"
      "to_ascii_lowercase ''HTTP/1.1 200 OK'' = ''http/1.1 200 ok''" and n: "show_nat 2 = ''2''"
      by code_simp+
    show ?thesis
      using str_trim_show_nat [of 2] unfolding extract_header_value_def str_lines_join [OF good]
      by (simp add: l n starts_with_def str_trim_space)
  qed
  ultimately show ?thesis
    using find_header_end [OF good, of "''hi''"] by (simp add: sized_response_def RESPONSE_CAP_def numeral_2_eq_2)
qed


text \<open>No connection is ever kept: the header that would ask for it is removed before it is looked
  at, so the pool stays empty and every request opens a connection of its own.\<close>

theorem proxy_pool_unused:
  "snd (do_proxy connect exchange cfg m path pre headers body Map.empty) = Map.empty"
  unfolding do_proxy_def get_connection_def
  by (auto dest: on_stream_not_kept split: option.split sum.split)

text \<open>A client's own \<open>Content-Length\<close> is forwarded beside the proxy's, and an IPv6 literal in brackets
  is not recognised by the address check.\<close>

lemma proxy_double_content_length:
  "forwarded_headers demo_proxy [(''Content-Length'', ''5'')] 0
   = [(''Host'', ''app:80''), (''Content-Length'', ''5''), (''Content-Length'', ''0''), (''Connection'', ''keep-alive'')]"
  by code_simp

lemma proxy_ipv6_loopback_passes:
  "ssrf_blocked (demo_proxy\<lparr>pc_upstream := (pc_upstream demo_proxy)\<lparr>url_host := Some ''[::1]''\<rparr>\<rparr>) = None"
  by code_simp

text \<open>A header section whose last line ends in a zero already counts as the end of a chunked body.\<close>

lemma proxy_chunked_cut:
  "is_response_complete (''HTTP/1.1 200 OK'' @ CRLF @ ''Transfer-Encoding: chunked'' @ CRLF @ ''Age: 10'' @ CRLF @ CRLF)"
  by code_simp

end
