(* ===== verification/Websocket.thy ===== *)
theory Websocket
  imports Proxy
begin

text \<open>
  The WebSocket handshake with the upstream, \<open>src/websocket/mod.rs\<close>: the request it forwards, the
  loop that waits for the header section of the answer, and the check of its status. Connecting and
  writing are an argument, and so is what each read returns before the deadline.
\<close>

definition ws_hop_by_hop :: "string list" where
  "ws_hop_by_hop =
     [''transfer-encoding'', ''te'', ''trailers'', ''proxy-authenticate'', ''proxy-authorization'', ''proxy-connection'']"

definition strip_crlf :: "string \<Rightarrow> string" where
  "strip_crlf s = filter (\<lambda>c. c \<noteq> CR \<and> c \<noteq> LF) s"

definition ws_headers :: "(string \<times> string) list \<Rightarrow> (string \<times> string) list" where
  "ws_headers headers =
     filter (\<lambda>(k, _). k \<noteq> [])
       (map (\<lambda>(k, v). (strip_crlf k, strip_crlf v))
         (filter (\<lambda>(k, _). \<not> is_hop ws_hop_by_hop k) headers))"

definition ws_request :: "string \<Rightarrow> string \<Rightarrow> (string \<times> string) list \<Rightarrow> string" where
  "ws_request req_method path headers =
     req_method @ '' '' @ path @ '' HTTP/1.1'' @ CRLF
     @ concat (map (\<lambda>kv. header_line kv @ CRLF) (ws_headers headers)) @ CRLF"

fun ws_read :: "read_event list \<Rightarrow> string \<Rightarrow> string + string" where
  "ws_read [] buf = Inl ''websocket upstream closed during handshake''"
| "ws_read (Read_Timed_Out # _) buf = Inl ''websocket upstream read timeout''"
| "ws_read (Read_Error _ # _) buf = Inl ''websocket upstream read''"
| "ws_read (Data d # evs) buf =
     (if d = [] then Inl ''websocket upstream closed during handshake''
      else
        let buf = buf @ d
        in if str_contains buf (CRLF @ CRLF) then Inr buf
           else if 16384 < length buf then Inl ''websocket upstream response too large''
           else ws_read evs buf)"

definition ws_status :: "string \<Rightarrow> nat" where
  "ws_status buf =
     (let header_str = (if is_utf8 buf then buf else []);
          status_line = (case str_lines header_str of [] \<Rightarrow> [] | l # _ \<Rightarrow> l)
      in case nth_opt (split_whitespace status_line) 1 of
           None \<Rightarrow> 0
         | Some s \<Rightarrow> (case parse_uint 16 s of None \<Rightarrow> 0 | Some n \<Rightarrow> n))"

text \<open>\<open>connect\<close> connects to an address, and \<open>exchange\<close> writes the request and gives what is read.\<close>

definition upgrade_to_websocket ::
    "(string \<Rightarrow> string + 'c) \<Rightarrow> ('c \<Rightarrow> string \<Rightarrow> string + read_event list) \<Rightarrow> string \<Rightarrow> string \<Rightarrow> string
     \<Rightarrow> (string \<times> string) list \<Rightarrow> string + (string \<times> 'c)" where
  "upgrade_to_websocket connect exchange upstream_addr req_method path headers =
     and_then (connect upstream_addr) (\<lambda>stream.
     and_then (exchange stream (ws_request req_method path headers)) (\<lambda>evs.
     and_then (ws_read evs []) (\<lambda>buf.
     if ws_status buf \<noteq> 101
     then Inl (''websocket upstream returned '' @ show_nat (ws_status buf) @ '' instead of 101'')
     else Inr (buf, stream))))"

lemma strip_crlf_clean [simp]: "clean (strip_crlf s)"
  by (simp add: strip_crlf_def clean_def)

lemma ws_headers_clean: "clean_headers (ws_headers headers)"
  by (auto simp: clean_headers_def ws_headers_def list_all_iff)

text \<open>The handshake that reaches the upstream has exactly one line per forwarded header, whatever
  the names and values hold: no header value can add a line or end the header section early.\<close>

theorem ws_request_framing:
  assumes "clean m" "clean path"
  shows "\<exists>n. find_double_crlf (ws_request m path headers) = Some n
    \<and> str_lines (take n (ws_request m path headers)) = (m @ '' '' @ path @ '' HTTP/1.1'') # map header_line (ws_headers headers)
    \<and> drop (n + 4) (ws_request m path headers) = []"
proof -
  define ls where "ls = (m @ '' '' @ path @ '' HTTP/1.1'') # map header_line (ws_headers headers)"
  have "list_all good_line (map header_line (ws_headers headers))"
    using ws_headers_clean [of headers] by (auto simp: clean_headers_def list_all_iff header_line_good)
  moreover have "good_line (m @ '' '' @ path @ '' HTTP/1.1'')"
    using assms by (auto simp: good_line_def clean_def CR_def LF_def)
  ultimately have good: "list_all good_line ls" by (simp add: ls_def)
  have r: "ws_request m path headers = join_crlf ls @ CRLF @ CRLF @ []"
    using join_crlf_concat [of "m @ '' '' @ path @ '' HTTP/1.1''" "map header_line (ws_headers headers)"]
    by (simp add: ws_request_def ls_def o_def append_assoc [symmetric] del: append_assoc)
  show ?thesis
    unfolding r ls_def [symmetric]
    using find_header_end [OF good, of "[]"] str_lines_join [OF good] by (simp add: ls_def)
qed

theorem ws_request_framing_witness:
  "\<exists>n. find_double_crlf (ws_request ''GET'' ''/ws'' [(''Upgrade'', ''websocket'' @ CRLF @ ''X: y'')]) = Some n
    \<and> str_lines (take n (ws_request ''GET'' ''/ws'' [(''Upgrade'', ''websocket'' @ CRLF @ ''X: y'')]))
        = (''GET'' @ '' '' @ ''/ws'' @ '' HTTP/1.1'') # map header_line (ws_headers [(''Upgrade'', ''websocket'' @ CRLF @ ''X: y'')])
    \<and> drop (n + 4) (ws_request ''GET'' ''/ws'' [(''Upgrade'', ''websocket'' @ CRLF @ ''X: y'')]) = []"
  by (rule ws_request_framing) (simp_all add: clean_def CR_def LF_def)

end
