(* ===== verification/Auth.thy ===== *)
theory Auth
  imports Rust_Bytes Rust_Path
begin

text \<open>
  Basic authentication, \<open>src/auth/mod.rs\<close>: base64 decoding, the look-up in the htpasswd file and
  the password check. The contents of the file (\<open>None\<close> when it cannot be read as UTF-8) and
  \<open>bcrypt::verify\<close> (an error counts as a mismatch) are arguments.
\<close>

section \<open>Base64\<close>

definition b64_table :: string where
  "b64_table = ''ABCDEFGHIJKLMNOPQRSTUVWXYZabcdefghijklmnopqrstuvwxyz0123456789+/''"

definition b64_group :: "nat list \<Rightarrow> string" where
  "b64_group chunk =
     (let at = (\<lambda>i. case nth_opt chunk i of None \<Rightarrow> 0 | Some x \<Rightarrow> x);
          n = at 0 * 2 ^ 18 + at 1 * 2 ^ 12 + at 2 * 2 ^ 6 + at 3
      in [byte (n div 2 ^ 16)]
         @ (if 3 \<le> length chunk then [byte (n div 2 ^ 8)] else [])
         @ (if 4 \<le> length chunk then [byte n] else []))"

definition b64_indices :: "string \<Rightarrow> nat list" where
  "b64_indices s = List.map_filter (\<lambda>b. index_of b b64_table) (filter (\<lambda>b. b \<noteq> CHR ''='') s)"

definition base64_decode :: "string \<Rightarrow> string option" where
  "base64_decode s =
     (let out = concat (map b64_group (chunks 4 (b64_indices s)))
      in if is_utf8 out then Some out else None)"

section \<open>The password file\<close>

definition verify_password :: "(string \<Rightarrow> string \<Rightarrow> bool) \<Rightarrow> string \<Rightarrow> string \<Rightarrow> bool" where
  "verify_password bcrypt password hash =
     (if starts_with hash ''$2y$'' \<or> starts_with hash ''$2b$'' \<or> starts_with hash ''$2a$'' then
        bcrypt password (if starts_with hash ''$2y$'' then ''$2b$'' @ drop 4 hash else hash)
      else if starts_with hash ''{SHA}'' \<or> starts_with hash ''$apr1$'' \<or> starts_with hash ''$1$'' then False
      else hash = password)"

definition htpasswd_entry :: "string \<Rightarrow> (string \<times> string) option" where
  "htpasswd_entry raw =
     (let line = str_trim raw
      in if line = [] \<or> starts_with line ''#'' then None
         else case index_of (CHR '':'') line of
                None \<Rightarrow> None
              | Some col \<Rightarrow> Some (take col line, drop (Suc col) line))"

fun check_lines :: "(string \<Rightarrow> string \<Rightarrow> bool) \<Rightarrow> string \<Rightarrow> string \<Rightarrow> string list \<Rightarrow> bool" where
  "check_lines bcrypt username password [] = False"
| "check_lines bcrypt username password (l # ls) =
     (case htpasswd_entry l of
        None \<Rightarrow> check_lines bcrypt username password ls
      | Some (u, hash) \<Rightarrow>
          if u \<noteq> username then check_lines bcrypt username password ls
          else verify_password bcrypt password hash)"

definition check_basic_auth ::
    "(string \<Rightarrow> string \<Rightarrow> bool) \<Rightarrow> string option \<Rightarrow> string \<Rightarrow> bool" where
  "check_basic_auth bcrypt user_file authorization =
     (case strip_prefix authorization ''Basic '' of
        None \<Rightarrow> False
      | Some s \<Rightarrow>
          (case base64_decode (str_trim s) of
             None \<Rightarrow> False
           | Some decoded \<Rightarrow>
               (case index_of (CHR '':'') decoded of
                  None \<Rightarrow> False
                | Some colon \<Rightarrow>
                    (case user_file of
                       None \<Rightarrow> False
                     | Some contents \<Rightarrow>
                         check_lines bcrypt (take colon decoded) (drop (Suc colon) decoded)
                           (str_lines contents)))))"

definition unauthorized_response :: "string \<Rightarrow> string" where
  "unauthorized_response realm =
     (let body = ''401 Unauthorized'';
          challenge = ''Basic realm='' @ [CHR 0x22] @ str_replace [CHR 0x22] [CHR 0x5C, CHR 0x22] realm @ [CHR 0x22]
      in ''HTTP/1.1 401 Unauthorized'' @ CRLF @ ''WWW-Authenticate: '' @ challenge @ CRLF
         @ ''Content-Length: '' @ show_nat (length body) @ CRLF @ ''Content-Type: text/plain'' @ CRLF
         @ ''Connection: keep-alive'' @ CRLF @ CRLF @ body)"

section \<open>Encoding\<close>

text \<open>The encoder of RFC 4648, as the client has it.\<close>

definition b64_char :: "nat \<Rightarrow> char" where
  "b64_char i = b64_table ! i"

fun b64_encode_idx :: "nat list \<Rightarrow> nat list" where
  "b64_encode_idx (x # y # z # s) =
     x div 4 # ((x mod 4) * 16 + y div 16) # ((y mod 16) * 4 + z div 64) # z mod 64 # b64_encode_idx s"
| "b64_encode_idx [x, y] = [x div 4, (x mod 4) * 16 + y div 16, (y mod 16) * 4]"
| "b64_encode_idx [x] = [x div 4, (x mod 4) * 16]"
| "b64_encode_idx [] = []"

definition base64_encode :: "string \<Rightarrow> string" where
  "base64_encode s =
     map b64_char (b64_encode_idx (map ascii_code s))
     @ (if length s mod 3 = 1 then ''=='' else if length s mod 3 = 2 then ''='' else [])"

lemma b64_index_char: "i < 64 \<Longrightarrow> index_of (b64_char i) b64_table = Some i \<and> b64_char i \<noteq> CHR ''=''"
proof -
  have "list_all (\<lambda>i. index_of (b64_char i) b64_table = Some i \<and> b64_char i \<noteq> CHR ''='') [0..<64]"
    by code_simp
  then show "i < 64 \<Longrightarrow> ?thesis" by (simp add: list_all_iff)
qed

lemma b64_encode_idx_less:
  "\<forall>x \<in> set xs. x < 256 \<Longrightarrow> i \<in> set (b64_encode_idx xs) \<Longrightarrow> i < 64"
  by (induction xs rule: b64_encode_idx.induct) (auto simp: less_mult_imp_div_less)

lemma b64_indices_chars: "\<forall>i \<in> set is'. i < 64 \<Longrightarrow> b64_indices (map b64_char is') = is'"
proof (induction is')
  case (Cons i is')
  then have "index_of (b64_char i) b64_table = Some i" "b64_char i \<noteq> CHR ''=''"
    using b64_index_char [of i] by simp_all
  then show ?case using Cons by (simp add: b64_indices_def List.map_filter_simps)
qed (simp add: b64_indices_def List.map_filter_simps)

lemma b64_indices_encode: "b64_indices (base64_encode s) = b64_encode_idx (map ascii_code s)"
proof -
  have "\<forall>i \<in> set (b64_encode_idx (map ascii_code s)). i < 64"
    using b64_encode_idx_less [of "map ascii_code s"] by auto
  then have "b64_indices (map b64_char (b64_encode_idx (map ascii_code s))) = b64_encode_idx (map ascii_code s)"
    by (rule b64_indices_chars)
  then show ?thesis by (simp add: b64_indices_def base64_encode_def)
qed

lemma byte_mod: "byte (n * 256 + y) = byte y"
  unfolding byte_def by (metis char_of_mod_256 mod_mult_self3)

lemma b64_value:
  fixes x y z :: nat
  shows "x div 4 * 262144 + (x mod 4 * 16 + y div 16) * 4096 + (y mod 16 * 4 + z div 64) * 64 + z mod 64
      = (x * 256 + y) * 256 + z"
proof -
  have gen: "a * 262144 + (a' * 16 + b) * 4096 + (b' * 4 + c) * 64 + c' = (x * 256 + y) * 256 + z"
    if "x = 4 * a + a'" "y = 16 * b + b'" "z = 64 * c + c'" for a a' b b' c c' :: nat
    unfolding that by simp
  show ?thesis by (rule gen) simp_all
qed

lemma b64_group_bytes:
  assumes "x < 256" "y < 256" "z < 256"
  shows "byte (((x * 256 + y) * 256 + z) div 65536) = byte x"
    "byte (((x * 256 + y) * 256 + z) div 256) = byte y"
    "byte ((x * 256 + y) * 256 + z) = byte z"
proof -
  have "((x * 256 + y) * 256 + z) div 65536 = x" "((x * 256 + y) * 256 + z) div 256 = x * 256 + y"
    using assms by simp_all
  then show "byte (((x * 256 + y) * 256 + z) div 65536) = byte x"
    "byte (((x * 256 + y) * 256 + z) div 256) = byte y"
    "byte ((x * 256 + y) * 256 + z) = byte z"
    by (simp_all only: byte_mod)
qed

lemma b64_group_eval:
  "b64_group [a, b, c, d] =
     [byte ((a * 262144 + b * 4096 + c * 64 + d) div 65536),
      byte ((a * 262144 + b * 4096 + c * 64 + d) div 256), byte (a * 262144 + b * 4096 + c * 64 + d)]"
  "b64_group [a, b, c] =
     [byte ((a * 262144 + b * 4096 + c * 64 + 0) div 65536), byte ((a * 262144 + b * 4096 + c * 64 + 0) div 256)]"
  "b64_group [a, b] = [byte ((a * 262144 + b * 4096 + 0 * 64 + 0) div 65536)]"
  by (simp_all add: b64_group_def nth_opt_def Let_def)

lemma b64_group4:
  assumes "x < 256" "y < 256" "z < 256"
  shows "b64_group [x div 4, (x mod 4) * 16 + y div 16, (y mod 16) * 4 + z div 64, z mod 64] = [byte x, byte y, byte z]"
  unfolding b64_group_eval b64_value b64_group_bytes [OF assms] ..

lemma b64_group3:
  assumes "x < 256" "y < 256"
  shows "b64_group [x div 4, (x mod 4) * 16 + y div 16, (y mod 16) * 4] = [byte x, byte y]"
  using b64_group_bytes [OF assms, of 0] b64_value [of x y 0] unfolding b64_group_eval by simp

lemma b64_group2:
  assumes "x < 256"
  shows "b64_group [x div 4, (x mod 4) * 16] = [byte x]"
  using b64_group_bytes [OF assms, of 0 0] b64_value [of x 0 0] unfolding b64_group_eval by simp

lemma b64_groups:
  "\<forall>x \<in> set xs. x < 256 \<Longrightarrow> concat (map b64_group (chunks 4 (b64_encode_idx xs))) = map byte xs"
proof (induction xs rule: b64_encode_idx.induct)
  case (1 x y z s)
  then show ?case by (subst b64_encode_idx.simps, subst chunks.simps) (simp add: b64_group4)
next
  case (2 x y)
  then show ?case by (subst b64_encode_idx.simps, subst chunks.simps) (simp add: b64_group3)
next
  case (3 x)
  then show ?case by (subst b64_encode_idx.simps, subst chunks.simps) (simp add: b64_group2)
qed simp

lemma base64_decode_encode: "is_utf8 s \<Longrightarrow> base64_decode (base64_encode s) = Some s"
proof -
  have "map byte (map ascii_code s) = s" by (simp add: map_idI)
  then have "concat (map b64_group (chunks 4 (b64_encode_idx (map ascii_code s)))) = s"
    using b64_groups [of "map ascii_code s"] by auto
  then show "is_utf8 s \<Longrightarrow> ?thesis" by (simp add: base64_decode_def b64_indices_encode)
qed

text \<open>The encoding has no white space, so the decoder's trimming leaves it alone.\<close>

lemma b64_char_not_space:
  "c \<in> set b64_table \<union> {CHR ''=''} \<Longrightarrow> c \<notin> hd ` set white_space \<and> c \<notin> last ` set white_space"
  by (auto simp: b64_table_def white_space_def)

lemma set_base64_encode: "set (base64_encode s) \<subseteq> set b64_table \<union> {CHR ''=''}"
proof -
  have "b64_char i \<in> set b64_table" if "i \<in> set (b64_encode_idx (map ascii_code s))" for i
    using b64_encode_idx_less [OF _ that] unfolding b64_char_def
    by (intro nth_mem) (simp add: b64_table_def)
  then show ?thesis by (auto simp: base64_encode_def split: if_splits)
qed

lemma str_trim_base64: "str_trim (base64_encode s) = base64_encode s"
proof (cases "base64_encode s = []")
  case True
  then show ?thesis by (simp add: str_trim_def trim_start.simps trim_end.simps)
next
  case False
  then obtain c a where c: "base64_encode s = c # a" by (cases "base64_encode s") auto
  obtain b d where d: "base64_encode s = b @ [d]" using False by (cases "base64_encode s" rule: rev_cases) auto
  have "c \<in> set b64_table \<union> {CHR ''=''}" using c set_base64_encode [of s] by auto
  moreover have "d \<in> set b64_table \<union> {CHR ''=''}" using d set_base64_encode [of s] by auto
  ultimately show ?thesis
    using str_trim_id [of c d a b] b64_char_not_space c d by metis
qed

section \<open>Properties\<close>

text \<open>The hash of a user: the first entry of the file with that name.\<close>

definition user_hash :: "string \<Rightarrow> string \<Rightarrow> string option" where
  "user_hash contents username =
     map_of (List.map_filter htpasswd_entry (str_lines contents)) username"

lemma check_lines_first:
  "check_lines bcrypt username password ls =
     (case map_of (List.map_filter htpasswd_entry ls) username of
        None \<Rightarrow> False | Some hash \<Rightarrow> verify_password bcrypt password hash)"
  by (induction ls) (auto simp: List.map_filter_def split: option.splits)

text \<open>C29: a client that sends the base64 encoding of a name and a password is admitted exactly when the
  first entry of the file for that name holds a hash the password verifies against, and nobody is
  admitted when the file cannot be read.\<close>

theorem basic_auth_exact:
  assumes "is_utf8 (username @ '':'' @ password)" "CHR '':'' \<notin> set username"
  shows "check_basic_auth bcrypt user_file (''Basic '' @ base64_encode (username @ '':'' @ password))
    = (case user_file of
         None \<Rightarrow> False
       | Some contents \<Rightarrow>
           (case user_hash contents username of
              None \<Rightarrow> False
            | Some hash \<Rightarrow> verify_password bcrypt password hash))"
proof -
  have p: "strip_prefix (''Basic '' @ base64_encode (username @ '':'' @ password)) ''Basic ''
      = Some (base64_encode (username @ '':'' @ password))"
    by (simp only: strip_prefix_Some)
  have i: "index_of (CHR '':'') (username @ '':'' @ password) = Some (length username)"
    using index_of_append [OF assms(2), of password] by simp
  show ?thesis
    unfolding check_basic_auth_def p option.case str_trim_base64 base64_decode_encode [OF assms(1)] i
    by (simp add: check_lines_first user_hash_def split: option.split)
qed

theorem basic_auth_exact_witness:
  "check_basic_auth (\<lambda>_ _. False) (Some ''bob:secret'') (''Basic '' @ base64_encode (''bob'' @ '':'' @ ''secret''))
   = (case Some ''bob:secret'' of
         None \<Rightarrow> False
       | Some contents \<Rightarrow>
           (case user_hash contents ''bob'' of
              None \<Rightarrow> False
            | Some hash \<Rightarrow> verify_password (\<lambda>_ _. False) ''secret'' hash))"
  by (rule basic_auth_exact) (simp_all add: is_utf8_ascii ascii_code_def)

end
