(* ===== verification/Compression.thy ===== *)
theory Compression
  imports Prelude
begin

text \<open>
  When a response is compressed, \<open>src/http/gzip.rs\<close> and \<open>src/http/brotli.rs\<close>. The compressors are
  arguments (\<open>None\<close> for an error); the one for brotli is absent when the feature is not built.
\<close>

record compress_config =
  cc_enabled :: bool
  cc_min_length :: nat
  cc_types :: "string list"

definition base_type :: "string \<Rightarrow> string" where
  "base_type content_type = str_trim (hd (split_on (CHR '';'') content_type))"

text \<open>The result of a compressor is used only when it is shorter.\<close>

definition shorter :: "string option \<Rightarrow> string \<Rightarrow> string \<times> bool" where
  "shorter result body =
     (case result of
        Some compressed \<Rightarrow> if length compressed < length body then (compressed, True) else (body, False)
      | None \<Rightarrow> (body, False))"

definition maybe_compress ::
    "(string \<Rightarrow> string option) \<Rightarrow> string \<Rightarrow> string \<Rightarrow> string option \<Rightarrow> compress_config \<Rightarrow> string \<times> bool" where
  "maybe_compress gzip body content_type accept_enc cfg =
     (if \<not> cc_enabled cfg then (body, False)
      else if length body < cc_min_length cfg then (body, False)
      else if \<not> (case accept_enc of None \<Rightarrow> False | Some v \<Rightarrow> str_contains v ''gzip'') then (body, False)
      else if base_type content_type \<notin> set (cc_types cfg) then (body, False)
      else shorter (gzip body) body)"

definition maybe_brotli ::
    "(string \<Rightarrow> string option) option \<Rightarrow> string \<Rightarrow> string \<Rightarrow> string option \<Rightarrow> compress_config \<Rightarrow> string \<times> bool" where
  "maybe_brotli brotli body content_type accept_enc cfg =
     (if \<not> cc_enabled cfg then (body, False)
      else if length body < cc_min_length cfg then (body, False)
      else if \<not> (case accept_enc of None \<Rightarrow> False
                | Some enc \<Rightarrow> list_ex (\<lambda>t. str_trim t = ''br'') (split_on (CHR '','') enc)) then (body, False)
      else if base_type content_type \<notin> set (cc_types cfg) then (body, False)
      else case brotli of None \<Rightarrow> (body, False) | Some br \<Rightarrow> shorter (br body) body)"

text \<open>What the client decodes is the body, and it never got longer.\<close>

definition faithful_coding :: "(string \<Rightarrow> string option) \<Rightarrow> (string \<Rightarrow> string) \<Rightarrow> bool" where
  "faithful_coding enc dec \<longleftrightarrow> (\<forall>s c. enc s = Some c \<longrightarrow> dec c = s)"

lemma shorter_decodes:
  "faithful_coding enc dec \<Longrightarrow> shorter (enc body) body = (out, used)
   \<Longrightarrow> (if used then dec out else out) = body \<and> length out \<le> length body"
  by (auto simp: shorter_def faithful_coding_def split: option.splits if_splits)

lemma maybe_compress_decodes:
  assumes "faithful_coding enc dec" "maybe_compress enc body ct acc cfg = (out, used)"
  shows "(if used then dec out else out) = body \<and> length out \<le> length body"
proof (cases "maybe_compress enc body ct acc cfg = shorter (enc body) body")
  case True
  then have "shorter (enc body) body = (out, used)" using assms(2) by simp
  then show ?thesis by (rule shorter_decodes [OF assms(1)])
next
  case False
  then have "maybe_compress enc body ct acc cfg = (body, False)" by (auto simp: maybe_compress_def)
  then show ?thesis using assms(2) by simp
qed

lemma maybe_brotli_decodes:
  assumes "faithful_coding enc dec" "maybe_brotli (Some enc) body ct acc cfg = (out, used)"
  shows "(if used then dec out else out) = body \<and> length out \<le> length body"
proof (cases "maybe_brotli (Some enc) body ct acc cfg = shorter (enc body) body")
  case True
  then have "shorter (enc body) body = (out, used)" using assms(2) by simp
  then show ?thesis by (rule shorter_decodes [OF assms(1)])
next
  case False
  then have "maybe_brotli (Some enc) body ct acc cfg = (body, False)" by (auto simp: maybe_brotli_def)
  then show ?thesis using assms(2) by simp
qed

lemma maybe_brotli_absent: "maybe_brotli None body ct acc cfg = (body, False)"
  by (simp add: maybe_brotli_def)

text \<open>A client that refuses gzip with a weight of zero is sent gzip.\<close>

lemma gzip_refused_but_sent:
  "maybe_compress (\<lambda>s. Some []) ''hello'' ''text/html'' (Some ''gzip;q=0'')
     \<lparr>cc_enabled = True, cc_min_length = 0, cc_types = [''text/html'']\<rparr> = ([], True)"
  by code_simp

end
