(* ===== verification/Rust_Json.thy ===== *)
theory Rust_Json
  imports Rust_Bytes
begin

text \<open>
  What the sources use of \<open>serde_json\<close>: the cases of a \<open>Value\<close> they look at and its accessors.
  Parsing and printing are the parameter \<open>json_lib\<close>.
\<close>

text \<open>\<open>JNum\<close> keeps a number that is a \<open>u64\<close>; the others read as \<open>None\<close>.\<close>

datatype json =
    JNull | JBool bool | JNum "nat option" | JStr string | JArr "json list" | JObj "(string \<times> json) list"

record json_lib =
  js_parse :: "string \<Rightarrow> json option"
  js_print :: "json \<Rightarrow> string"

definition json_get :: "json \<Rightarrow> string \<Rightarrow> json" where
  "json_get v k =
     (case v of JObj kvs \<Rightarrow> (case map_of kvs k of None \<Rightarrow> JNull | Some x \<Rightarrow> x) | _ \<Rightarrow> JNull)"

definition as_str :: "json \<Rightarrow> string option" where
  "as_str v = (case v of JStr s \<Rightarrow> Some s | _ \<Rightarrow> None)"

definition as_bool :: "json \<Rightarrow> bool option" where
  "as_bool v = (case v of JBool b \<Rightarrow> Some b | _ \<Rightarrow> None)"

definition as_u64 :: "json \<Rightarrow> nat option" where
  "as_u64 v = (case v of JNum n \<Rightarrow> n | _ \<Rightarrow> None)"

definition as_array :: "json \<Rightarrow> json list option" where
  "as_array v = (case v of JArr xs \<Rightarrow> Some xs | _ \<Rightarrow> None)"

text \<open>\<open>.as_str().unwrap_or(d)\<close>\<close>

definition str_field :: "json \<Rightarrow> string \<Rightarrow> string \<Rightarrow> string" where
  "str_field v k d = (case as_str (json_get v k) of None \<Rightarrow> d | Some s \<Rightarrow> s)"

text \<open>\<open>{:02x}\<close> of every byte.\<close>

definition hex_bytes :: "string \<Rightarrow> string" where
  "hex_bytes bs = concat (map (\<lambda>b. [hex_char (ascii_code b div 16), hex_char (ascii_code b mod 16)]) bs)"

lemma length_hex_bytes [simp]: "length (hex_bytes bs) = 2 * length bs"
  by (induction bs) (simp_all add: hex_bytes_def)

end
