(* ===== verification/Multiuser.thy ===== *)
theory Multiuser
  imports Rust_Json Steps "HOL-Library.AList" "HOL-Library.Multiset"
begin

text \<open>
  Hosting accounts, \<open>src/multiuser/mod.rs\<close>: the registry with its three maps and its file, its
  operations, the bandwidth windows and the user API. The maps are association lists. Outside the
  model and arguments of the operations: the TOML library, the file system's answer to a write, the
  order in which the map is iterated, the day, and the random bytes of identifiers and keys.
\<close>

record user_account =
  ua_id :: string
  ua_username :: string
  ua_api_key :: string
  ua_domains :: "string list"
  ua_home_dir :: string
  ua_quota_bw :: nat
  ua_quota_conn :: nat
  ua_enabled :: bool
  ua_admin :: bool

text \<open>\<open>mu_write\<close> gives the error of a write, if any, and what the file holds afterwards.\<close>

record mu_env =
  mu_toml_parse :: "string \<Rightarrow> user_account list option"
  mu_toml_print :: "user_account list \<Rightarrow> string + string"
  mu_write :: "string \<Rightarrow> string option \<times> string option"
  mu_iter :: "(string \<times> user_account) list \<Rightarrow> (string \<times> user_account) list"

record registry =
  reg_by_id :: "(string \<times> user_account) list"
  reg_by_key :: "(string \<times> string) list"
  reg_by_domain :: "(string \<times> string) list"
  reg_file :: "string option"

section \<open>The registry\<close>

definition insert_domains :: "string list \<Rightarrow> string \<Rightarrow> (string \<times> string) list \<Rightarrow> (string \<times> string) list" where
  "insert_domains ds i m = fold (\<lambda>d. AList.update d i) ds m"

definition insert_user :: "user_account \<Rightarrow> registry \<Rightarrow> registry" where
  "insert_user u reg =
     reg\<lparr>reg_by_key := AList.update (ua_api_key u) (ua_id u) (reg_by_key reg),
         reg_by_domain := insert_domains (ua_domains u) (ua_id u) (reg_by_domain reg),
         reg_by_id := AList.update (ua_id u) u (reg_by_id reg)\<rparr>"

text \<open>A file that cannot be read or parsed leaves the registry as it is.\<close>

definition reload :: "mu_env \<Rightarrow> registry \<Rightarrow> registry" where
  "reload env reg =
     (case reg_file reg of
        None \<Rightarrow> reg
      | Some src \<Rightarrow>
          (case mu_toml_parse env src of
             None \<Rightarrow> reg
           | Some users \<Rightarrow>
               fold insert_user users (reg\<lparr>reg_by_id := [], reg_by_key := [], reg_by_domain := []\<rparr>)))"

definition load_registry :: "mu_env \<Rightarrow> string option \<Rightarrow> registry" where
  "load_registry env file =
     reload env \<lparr>reg_by_id = [], reg_by_key = [], reg_by_domain = [], reg_file = file\<rparr>"

definition user_by_id :: "registry \<Rightarrow> string \<Rightarrow> user_account option" where
  "user_by_id reg i = map_of (reg_by_id reg) i"

definition user_by_api_key :: "registry \<Rightarrow> string \<Rightarrow> user_account option" where
  "user_by_api_key reg key =
     (case map_of (reg_by_key reg) key of None \<Rightarrow> None | Some i \<Rightarrow> map_of (reg_by_id reg) i)"

definition user_by_domain :: "registry \<Rightarrow> string \<Rightarrow> user_account option" where
  "user_by_domain reg domain =
     (case map_of (reg_by_domain reg) domain of None \<Rightarrow> None | Some i \<Rightarrow> map_of (reg_by_id reg) i)"

definition all_users :: "mu_env \<Rightarrow> registry \<Rightarrow> user_account list" where
  "all_users env reg = map snd (mu_iter env (reg_by_id reg))"

definition persist :: "mu_env \<Rightarrow> registry \<Rightarrow> string option \<times> registry" where
  "persist env reg =
     (case mu_toml_print env (all_users env reg) of
        Inl e \<Rightarrow> (Some (''serialize users.toml: '' @ e), reg)
      | Inr toml_str \<Rightarrow>
          (case mu_write env toml_str of (err, contents) \<Rightarrow> (err, reg\<lparr>reg_file := contents\<rparr>)))"

text \<open>Identifier and key are hexadecimal of random bytes; the buffer stays zero when the source of
  randomness cannot be read.\<close>

definition random_hex :: "nat \<Rightarrow> string option \<Rightarrow> string" where
  "random_hex n entropy = hex_bytes (case entropy of None \<Rightarrow> replicate n (byte 0) | Some bs \<Rightarrow> bs)"

definition new_user :: "string option \<Rightarrow> string option \<Rightarrow> string \<Rightarrow> string list \<Rightarrow> string \<Rightarrow> user_account" where
  "new_user id_entropy key_entropy username domains home_dir =
     \<lparr>ua_id = random_hex 16 id_entropy, ua_username = username, ua_api_key = random_hex 32 key_entropy,
      ua_domains = domains, ua_home_dir = home_dir, ua_quota_bw = 0, ua_quota_conn = 0,
      ua_enabled = True, ua_admin = False\<rparr>"

text \<open>The user is in the maps even when the file could not be written.\<close>

definition create_user :: "mu_env \<Rightarrow> user_account \<Rightarrow> registry \<Rightarrow> (string + user_account) \<times> registry" where
  "create_user env u reg =
     (case persist env (insert_user u reg) of
        (Some e, reg) \<Rightarrow> (Inl e, reg)
      | (None, reg) \<Rightarrow> (Inr u, reg))"

definition delete_user :: "mu_env \<Rightarrow> string \<Rightarrow> registry \<Rightarrow> bool \<times> registry" where
  "delete_user env i reg =
     (case map_of (reg_by_id reg) i of
        None \<Rightarrow> (False, reg)
      | Some u \<Rightarrow>
          (True, snd (persist env
            (reg\<lparr>reg_by_id := AList.delete i (reg_by_id reg),
                 reg_by_key := AList.delete (ua_api_key u) (reg_by_key reg),
                 reg_by_domain := fold AList.delete (ua_domains u) (reg_by_domain reg)\<rparr>))))"

section \<open>Bandwidth\<close>

type_synonym bandwidth = "string \<Rightarrow> (nat \<times> nat) option"

definition bw_record :: "nat \<Rightarrow> string \<Rightarrow> nat \<Rightarrow> bandwidth \<Rightarrow> bandwidth" where
  "bw_record day user_id bytes w =
     (let e = (case w user_id of None \<Rightarrow> (day, 0) | Some e \<Rightarrow> e)
      in w(user_id \<mapsto> if fst e \<noteq> day then (day, bytes) else (fst e, (snd e + bytes) mod 2 ^ 64)))"

definition bw_check :: "nat \<Rightarrow> string \<Rightarrow> nat \<Rightarrow> bandwidth \<Rightarrow> bool" where
  "bw_check day user_id quota w =
     (quota = 0 \<or>
      (case w user_id of None \<Rightarrow> True | Some (d, b) \<Rightarrow> if d = day then b < quota else True))"

definition current_day :: "nat \<Rightarrow> nat" where
  "current_day secs = secs div 86400"

section \<open>The user API\<close>

definition mu_json_ok :: "string \<Rightarrow> string" where
  "mu_json_ok body =
     ''HTTP/1.1 200 OK'' @ CRLF @ ''Content-Type: application/json'' @ CRLF @ ''Content-Length: ''
     @ show_nat (length body) @ CRLF @ ''Connection: keep-alive'' @ CRLF @ CRLF @ body"

definition quoted_json :: "string \<Rightarrow> string" where
  "quoted_json s = [CHR 0x22] @ s @ [CHR 0x22]"

definition mu_json_err :: "nat \<Rightarrow> string \<Rightarrow> string" where
  "mu_json_err status msg =
     (let body = ''{'' @ quoted_json ''error'' @ '':'' @ quoted_json msg @ ''}''
      in ''HTTP/1.1 '' @ show_nat status @ '' ''
         @ (if status = 400 then ''Bad Request'' else if status = 404 then ''Not Found'' else ''Internal Server Error'')
         @ CRLF @ ''Content-Type: application/json'' @ CRLF @ ''Content-Length: ''
         @ show_nat (length body) @ CRLF @ ''Connection: keep-alive'' @ CRLF @ CRLF @ body)"

definition user_json :: "user_account \<Rightarrow> (string \<times> json) list" where
  "user_json u =
     [(''id'', JStr (ua_id u)), (''username'', JStr (ua_username u)),
      (''domains'', JArr (map JStr (ua_domains u))), (''enabled'', JBool (ua_enabled u))]"

definition valid_username :: "string \<Rightarrow> bool" where
  "valid_username s \<longleftrightarrow>
     list_all (\<lambda>c. is_ascii_alphanumeric c \<or> c = CHR ''-'' \<or> c = CHR ''_'') s \<and> length s \<le> 32"

definition handle_user_api ::
    "mu_env \<Rightarrow> json_lib \<Rightarrow> string option \<Rightarrow> string option \<Rightarrow> string \<Rightarrow> string \<Rightarrow> string \<Rightarrow> string \<Rightarrow> bool
     \<Rightarrow> registry \<Rightarrow> string option \<times> registry" where
  "handle_user_api env js id_entropy key_entropy path req_method body api_key is_admin reg =
     (if \<not> starts_with path ''/api/users'' then (None, reg)
      else if req_method = ''GET'' \<and> path = ''/api/users'' \<and> is_admin then
        (Some (mu_json_ok (js_print js (JObj [(''users'',
           JArr (map (\<lambda>u. JObj (user_json u @ [(''admin'', JBool (ua_admin u)), (''quota_bw'', JNum (Some (ua_quota_bw u)))]))
                  (all_users env reg)))]))), reg)
      else if req_method = ''POST'' \<and> path = ''/api/users'' \<and> is_admin then
        (let v = (case js_parse js body of None \<Rightarrow> JNull | Some v \<Rightarrow> v);
             username = str_field v ''username'' [];
             domains = (case as_array (json_get v ''domains'') of None \<Rightarrow> [] | Some a \<Rightarrow> List.map_filter as_str a)
         in if username = [] then (Some (mu_json_err 400 ''username required''), reg)
            else if \<not> valid_username username then
              (Some (mu_json_err 400 ''username: only a-z A-Z 0-9 - _ allowed, max 32 chars''), reg)
            else
              (case create_user env (new_user id_entropy key_entropy username domains (''/home/'' @ username)) reg of
                 (Inr u, reg) \<Rightarrow>
                   (Some (mu_json_ok (js_print js (JObj [(''id'', JStr (ua_id u)), (''api_key'', JStr (ua_api_key u))]))), reg)
               | (Inl e, reg) \<Rightarrow> (Some (mu_json_err 500 e), reg)))
      else if req_method = ''DELETE'' \<and> starts_with path ''/api/users/'' \<and> is_admin then
        (case delete_user env (drop (length ''/api/users/'') path) reg of
           (True, reg) \<Rightarrow> (Some (mu_json_ok (''{'' @ quoted_json ''status'' @ '':'' @ quoted_json ''deleted'' @ ''}'')), reg)
         | (False, reg) \<Rightarrow> (Some (mu_json_err 404 ''user not found''), reg))
      else if req_method = ''GET'' \<and> path = ''/api/users/me'' then
        (case user_by_api_key reg api_key of
           Some u \<Rightarrow> (Some (mu_json_ok (js_print js (JObj (user_json u)))), reg)
         | None \<Rightarrow> (Some (mu_json_err 401 ''unauthorized''), reg))
      else (None, reg))"

section \<open>The registry invariant\<close>

definition reg_ok :: "registry \<Rightarrow> bool" where
  "reg_ok reg \<longleftrightarrow>
     (\<forall>k i. map_of (reg_by_key reg) k = Some i \<longrightarrow>
        (\<exists>u. map_of (reg_by_id reg) i = Some u \<and> ua_api_key u = k))
     \<and> (\<forall>i u. map_of (reg_by_id reg) i = Some u \<longrightarrow> ua_id u = i)
     \<and> distinct (map fst (reg_by_id reg))"

lemma reg_ok_file [simp]: "reg_ok (reg\<lparr>reg_file := f\<rparr>) = reg_ok reg"
  by (simp add: reg_ok_def)

lemma persist_ok [simp]: "reg_ok (snd (persist env reg)) = reg_ok reg"
  by (simp add: persist_def split: sum.split prod.split)

lemma persist_maps [simp]: "reg_by_id (snd (persist env reg)) = reg_by_id reg"
  by (simp add: persist_def split: sum.split prod.split)

lemma insert_user_ok:
  assumes "reg_ok reg" "map_of (reg_by_id reg) (ua_id u) = None"
  shows "reg_ok (insert_user u reg)"
proof -
  have "map_of (reg_by_key reg) k \<noteq> Some (ua_id u)" for k
    using assms by (force simp: reg_ok_def)
  then show ?thesis
    using assms unfolding reg_ok_def insert_user_def
    by (auto simp: update_conv' distinct_update simp del: map_of_eq_Some_iff)
qed

lemma insert_users_ok:
  "reg_ok reg \<Longrightarrow> distinct (map ua_id us) \<Longrightarrow> (\<And>u. u \<in> set us \<Longrightarrow> map_of (reg_by_id reg) (ua_id u) = None)
   \<Longrightarrow> reg_ok (fold insert_user us reg)"
proof (induction us arbitrary: reg)
  case Nil
  then show ?case by simp
next
  case (Cons u us)
  have "map_of (reg_by_id (insert_user u reg)) (ua_id v) = None" if "v \<in> set us" for v
  proof -
    have "ua_id u \<notin> ua_id ` set us" using Cons.prems(2) by simp
    then have "ua_id v \<noteq> ua_id u" using imageI [OF that, of ua_id] by metis
    then show ?thesis using Cons.prems(3) [of v] that by (simp add: insert_user_def update_conv')
  qed
  then show ?case using Cons insert_user_ok by simp
qed

lemma reload_ok:
  assumes "reg_ok reg"
    and "\<And>src users. reg_file reg = Some src \<Longrightarrow> mu_toml_parse env src = Some users \<Longrightarrow> distinct (map ua_id users)"
  shows "reg_ok (reload env reg)"
proof -
  have "reg_ok (reg\<lparr>reg_by_id := [], reg_by_key := [], reg_by_domain := []\<rparr>)" by (simp add: reg_ok_def)
  then show ?thesis using assms by (auto simp: reload_def insert_users_ok split: option.split)
qed

lemma delete_user_ok:
  assumes "reg_ok reg"
  shows "reg_ok (snd (delete_user env i reg))"
proof (cases "map_of (reg_by_id reg) i")
  case None
  then show ?thesis using assms by (simp add: delete_user_def)
next
  case (Some u)
  have "reg_ok (reg\<lparr>reg_by_id := AList.delete i (reg_by_id reg),
      reg_by_key := AList.delete (ua_api_key u) (reg_by_key reg), reg_by_domain := ds\<rparr>)" for ds
  proof -
    have "map_of (reg_by_key reg) k \<noteq> Some i" if "k \<noteq> ua_api_key u" for k
      using assms Some that by (force simp: reg_ok_def)
    then show ?thesis
      using assms unfolding reg_ok_def
      by (auto simp: delete_conv' distinct_delete simp del: map_of_eq_Some_iff)
  qed
  then show ?thesis by (simp add: delete_user_def Some)
qed

lemma create_user_reg: "snd (create_user env u reg) = snd (persist env (insert_user u reg))"
  by (simp add: create_user_def split: prod.split option.split)

text \<open>What can happen to a registry: the operations, and the file changing under it. A new user has a
  fresh identifier, and a file that is loaded names each identifier once.\<close>

inductive reg_step :: "mu_env \<Rightarrow> registry \<Rightarrow> registry \<Rightarrow> bool" for env where
  Create: "map_of (reg_by_id reg) (ua_id u) = None \<Longrightarrow> reg_step env reg (snd (create_user env u reg))"
| Delete: "reg_step env reg (snd (delete_user env i reg))"
| Edit: "reg_step env reg (reg\<lparr>reg_file := f\<rparr>)"
| Reload: "(\<And>src users. reg_file reg = Some src \<Longrightarrow> mu_toml_parse env src = Some users \<Longrightarrow> distinct (map ua_id users))
    \<Longrightarrow> reg_step env reg (reload env reg)"

inductive_cases reg_stepE: "reg_step env reg reg'"

definition empty_registry :: registry where
  "empty_registry = \<lparr>reg_by_id = [], reg_by_key = [], reg_by_domain = [], reg_file = None\<rparr>"

lemma reg_step_ok: "reg_step env reg reg' \<Longrightarrow> reg_ok reg \<Longrightarrow> reg_ok reg'"
  by (induction rule: reg_step.induct)
     (simp_all add: create_user_reg insert_user_ok delete_user_ok reload_ok)

interpretation registry_run: invariant_steps "reg_step env" reg_ok for env
  by unfold_locales (rule reg_step_ok)

lemma empty_registry_ok: "reg_ok empty_registry"
  by (simp add: reg_ok_def empty_registry_def)

text \<open>Loading what was printed.\<close>

lemma fold_insert_by_id:
  "distinct (map ua_id us) \<Longrightarrow> map_of (reg_by_id (fold insert_user us reg)) i
   = (case map_of (map (\<lambda>u. (ua_id u, u)) us) i of None \<Rightarrow> map_of (reg_by_id reg) i | Some u \<Rightarrow> Some u)"
proof (induction us arbitrary: reg)
  case Nil
  then show ?case by simp
next
  case (Cons u us)
  have "map_of (map (\<lambda>u. (ua_id u, u)) us) (ua_id u) = None"
    using Cons.prems by (auto simp: map_of_eq_None_iff)
  then show ?case using Cons by (auto simp: insert_user_def update_conv' split: option.split)
qed

section \<open>Bandwidth of a day\<close>

definition bw_run :: "(nat \<times> string \<times> nat) list \<Rightarrow> bandwidth \<Rightarrow> bandwidth" where
  "bw_run rs w = fold (\<lambda>(day, user, bytes). bw_record day user bytes) rs w"

definition bytes_on :: "nat \<Rightarrow> string \<Rightarrow> (nat \<times> string \<times> nat) list \<Rightarrow> nat" where
  "bytes_on d user rs = sum_list (map (\<lambda>(d', u, b). if d' = d \<and> u = user then b else 0) rs)"

lemma bytes_on_append [simp]: "bytes_on d u (rs @ [r]) = bytes_on d u rs + bytes_on d u [r]"
  by (simp add: bytes_on_def)

lemma bw_run_window:
  assumes "sorted (map fst rs)" "list_all (\<lambda>(_, _, b). b < 2 ^ 64) rs"
  shows "case bw_run rs Map.empty user of
      None \<Rightarrow> (\<forall>d. bytes_on d user rs = 0)
    | Some (d, b) \<Rightarrow> (\<forall>r \<in> set rs. fst (snd r) = user \<longrightarrow> fst r \<le> d) \<and> (\<exists>r \<in> set rs. fst r = d)
        \<and> b = bytes_on d user rs mod 2 ^ 64 \<and> (\<forall>d' > d. bytes_on d' user rs = 0)"
  using assms
proof (induction rs rule: rev_induct)
  case Nil
  then show ?case by (simp add: bw_run_def bytes_on_def)
next
  case (snoc r rs)
  obtain day u b where r: "r = (day, u, b)" by (cases r)
  have prev: "sorted (map fst rs)" "list_all (\<lambda>(_, _, b). b < 2 ^ 64) rs" "b < 2 ^ 64"
    "\<forall>r \<in> set rs. fst r \<le> day"
    using snoc.prems by (auto simp: r sorted_append)
  have run: "bw_run (rs @ [(day, u, b)]) Map.empty = bw_record day u b (bw_run rs Map.empty)"
    by (simp add: bw_run_def)
  have one: "bytes_on d user [(day, u, b)] = (if day = d \<and> u = user then b else 0)" for d
    by (simp add: bytes_on_def)
  show ?case
  proof (cases "u = user")
    case False
    then show ?thesis
      using snoc.IH [OF prev(1,2)] by (auto simp: run bw_record_def Let_def one r split: option.splits)
  next
    case True
    have run': "bw_run (rs @ [r]) Map.empty user = bw_record day user b (bw_run rs Map.empty) user"
      using run r True by simp
    have one': "bytes_on d user [r] = (if day = d then b else 0)" for d
      using one [of d] r True by simp
    have r': "fst r = day" "fst (snd r) = user" by (simp_all add: r True)
    show ?thesis
    proof (cases "bw_run rs Map.empty user")
      case None
      then show ?thesis
        using snoc.IH [OF prev(1,2)] prev(3,4) by (simp add: run' bw_record_def one' r')
    next
      case (Some e)
      obtain d0 b0 where e: "e = (d0, b0)" by (cases e)
      from snoc.IH [OF prev(1,2)] Some e
      have ih: "\<forall>r \<in> set rs. fst (snd r) = user \<longrightarrow> fst r \<le> d0" "\<exists>r \<in> set rs. fst r = d0"
        "b0 = bytes_on d0 user rs mod 2 ^ 64" "\<forall>d' > d0. bytes_on d' user rs = 0" by auto
      then have le: "d0 \<le> day" using prev(4) by auto
      show ?thesis
      proof (cases "d0 = day")
        case True
        then show ?thesis
          using ih Some e by (simp add: run' bw_record_def one' r' mod_add_left_eq)
      next
        case False
        then have "bytes_on day user rs = 0" using ih(4) le by simp
        then show ?thesis
          using ih(4) Some e False le prev(3,4) by (simp add: run' bw_record_def one' r')
      qed
    qed
  qed
qed

definition demo_user :: "string \<Rightarrow> string \<Rightarrow> user_account" where
  "demo_user i k = \<lparr>ua_id = i, ua_username = ''bob'', ua_api_key = k, ua_domains = [''a.org''], ua_home_dir = ''/home/bob'',
     ua_quota_bw = 0, ua_quota_conn = 0, ua_enabled = True, ua_admin = False\<rparr>"

text \<open>A TOML library for one list of users.\<close>

definition demo_mu_env :: "user_account list \<Rightarrow> mu_env" where
  "demo_mu_env us = \<lparr>mu_toml_parse = (\<lambda>s. if s = ''users'' then Some us else None),
     mu_toml_print = (\<lambda>vs. if vs = us then Inr ''users'' else Inl ''other''),
     mu_write = (\<lambda>s. (None, Some s)), mu_iter = (\<lambda>m. m)\<rparr>"

section \<open>Properties\<close>





text \<open>The bandwidth check compares the bytes a user transferred on the day with the quota, whatever
  came before, when the days of the records do not go back.\<close>

theorem bandwidth_exact:
  assumes "sorted (map fst rs)" "list_all (\<lambda>(_, _, b). b < 2 ^ 64) rs" "list_all (\<lambda>r. fst r \<le> day) rs"
  shows "bw_check day user quota (bw_run rs Map.empty)
    = (quota = 0 \<or> bytes_on day user rs mod 2 ^ 64 < quota)"
proof -
  show ?thesis
  proof (cases "bw_run rs Map.empty user")
    case None
    then show ?thesis using bw_run_window [OF assms(1,2), of user] by (auto simp: bw_check_def)
  next
    case (Some e)
    obtain d b where e: "e = (d, b)" by (cases e)
    have w: "\<exists>r \<in> set rs. fst r = d" "b = bytes_on d user rs mod 2 ^ 64" "\<forall>d' > d. bytes_on d' user rs = 0"
      using bw_run_window [OF assms(1,2), of user] by (simp_all add: Some e)
    then have "d \<le> day" using assms(3) by (auto simp: list_all_iff)
    then show ?thesis
    proof (cases "d = day")
      case True
      then show ?thesis using w by (simp add: bw_check_def Some e)
    next
      case False
      then have "bytes_on day user rs = 0" using w(3) \<open>d \<le> day\<close> by simp
      then show ?thesis using False by (auto simp: bw_check_def Some e)
    qed
  qed
qed

theorem bandwidth_exact_witness:
  "bw_check 3 ''a'' 100 (bw_run [(2, ''a'', 90), (3, ''a'', 60), (3, ''b'', 7)] Map.empty)
    = ((100::nat) = 0 \<or> bytes_on 3 ''a'' [(2, ''a'', 90), (3, ''a'', 60), (3, ''b'', 7)] mod 2 ^ 64 < 100)"
  by (rule bandwidth_exact) simp_all

text \<open>Without the administrator's key the user API changes nothing and shows a client nothing but
  its own account.\<close>

theorem user_api_confined:
  "handle_user_api env js r1 r2 path m body key False reg
   = (if m = ''GET'' \<and> path = ''/api/users/me''
      then Some (case user_by_api_key reg key of
                   Some u \<Rightarrow> mu_json_ok (js_print js (JObj (user_json u)))
                 | None \<Rightarrow> mu_json_err 401 ''unauthorized'')
      else None, reg)"
  by (auto simp: handle_user_api_def starts_with_def split: option.split)

text \<open>A domain given to a new user is taken from the one who had it, and deleting that user leaves the
  domain to nobody.\<close>

lemma domain_taken_over:
  "user_by_domain (insert_user (demo_user ''2'' ''l'') (insert_user (demo_user ''1'' ''k'') empty_registry)) ''a.org''
     = Some (demo_user ''2'' ''l'')"
  "user_by_domain (snd (delete_user (demo_mu_env []) ''2''
     (insert_user (demo_user ''2'' ''l'') (insert_user (demo_user ''1'' ''k'') empty_registry)))) ''a.org'' = None"
  by (simp_all add: insert_user_def insert_domains_def empty_registry_def demo_user_def user_by_domain_def
      delete_user_def persist_def all_users_def demo_mu_env_def)

end
