(* ===== verification/Host_Env.thy ===== *)
theory Host_Env
  imports Rust_Path
begin

text \<open>
  The host as the management code sees it: file operations and external commands. An operation is
  a function from the trace of effects so far to its result and the longer trace; the answers of the
  host are the parameter \<open>host_env\<close> and may depend on everything done before. The collection
  \<open>only_rules\<close> shows, construct by construct, that an operation performs effects of a kind only.
\<close>

datatype effect =
    Create_Dir_All string
  | Write_File string string
  | Copy_File string string
  | Remove_File string
  | Remove_Dir_All string
  | Run string "string list"
  | Send_Reload

type_synonym trace = "effect list"

text \<open>\<open>he_do\<close> gives the error text of a file operation; \<open>he_run\<close> the error of starting a command, or
  whether it succeeded with what it printed on its two outputs.\<close>

record host_env =
  he_exists :: "trace \<Rightarrow> string \<Rightarrow> bool"
  he_read :: "trace \<Rightarrow> string \<Rightarrow> string option"
  he_list_dir :: "trace \<Rightarrow> string \<Rightarrow> string list option"
  he_do :: "trace \<Rightarrow> effect \<Rightarrow> string option"
  he_run :: "trace \<Rightarrow> string \<Rightarrow> string list \<Rightarrow> string + (bool \<times> string \<times> string)"

type_synonym 'a host = "trace \<Rightarrow> (string + 'a) \<times> trace"

definition host_ok :: "'a \<Rightarrow> 'a host" where
  "host_ok x tr = (Inr x, tr)"

definition host_err :: "string \<Rightarrow> 'a host" where
  "host_err e tr = (Inl e, tr)"

definition host_then :: "'a host \<Rightarrow> ('a \<Rightarrow> 'b host) \<Rightarrow> 'b host" where
  "host_then m f tr = (case m tr of (Inl e, tr) \<Rightarrow> (Inl e, tr) | (Inr x, tr) \<Rightarrow> f x tr)"

text \<open>\<open>map_err\<close>, and looking at an error instead of passing it on.\<close>

definition host_map_err :: "(string \<Rightarrow> string) \<Rightarrow> 'a host \<Rightarrow> 'a host" where
  "host_map_err g m tr = (case m tr of (Inl e, tr) \<Rightarrow> (Inl (g e), tr) | (Inr x, tr) \<Rightarrow> (Inr x, tr))"

definition host_try :: "'a host \<Rightarrow> (string + 'a) host" where
  "host_try m tr = (case m tr of (r, tr) \<Rightarrow> (Inr r, tr))"

definition host_do :: "host_env \<Rightarrow> effect \<Rightarrow> unit host" where
  "host_do env e tr = (case he_do env tr e of None \<Rightarrow> Inr () | Some err \<Rightarrow> Inl err, tr @ [e])"

definition host_run :: "host_env \<Rightarrow> string \<Rightarrow> string list \<Rightarrow> (bool \<times> string \<times> string) host" where
  "host_run env prog args tr = (he_run env tr prog args, tr @ [Run prog args])"

text \<open>\<open>let _ = ..\<close>\<close>

definition host_ignore :: "'a host \<Rightarrow> unit host" where
  "host_ignore m = host_then (host_try m) (\<lambda>_. host_ok ())"

definition host_get :: "(trace \<Rightarrow> 'a) \<Rightarrow> 'a host" where
  "host_get q tr = (Inr (q tr), tr)"

fun host_each :: "('a \<Rightarrow> unit host) \<Rightarrow> 'a list \<Rightarrow> unit host" where
  "host_each f [] = host_ok ()"
| "host_each f (x # xs) = host_then (f x) (\<lambda>_. host_each f xs)"

section \<open>Effects of a kind only\<close>

named_theorems only_rules \<open>one rule per construct of a host operation\<close>

definition only :: "(effect \<Rightarrow> bool) \<Rightarrow> 'a host \<Rightarrow> bool" where
  "only P m \<longleftrightarrow> (\<forall>tr. \<exists>es. snd (m tr) = tr @ es \<and> list_all P es)"

lemma only_ok [only_rules]: "only P (host_ok x)"
  by (simp add: only_def host_ok_def)

lemma only_err [only_rules]: "only P (host_err e)"
  by (simp add: only_def host_err_def)

lemma only_get [only_rules]: "only P (host_get q)"
  by (simp add: only_def host_get_def)

lemma only_do [only_rules]: "P e \<Longrightarrow> only P (host_do env e)"
  by (simp add: only_def host_do_def)

lemma only_run [only_rules]: "P (Run prog args) \<Longrightarrow> only P (host_run env prog args)"
  by (simp add: only_def host_run_def)

lemma only_then [only_rules]:
  assumes "only P m" "\<And>x. only P (f x)"
  shows "only P (host_then m f)"
  unfolding only_def
proof
  fix tr
  obtain es where es: "snd (m tr) = tr @ es" "list_all P es" using assms(1) by (auto simp: only_def)
  show "\<exists>es. snd (host_then m f tr) = tr @ es \<and> list_all P es"
  proof (cases "fst (m tr)")
    case (Inl e)
    then show ?thesis using es by (cases "m tr") (auto simp: host_then_def)
  next
    case (Inr x)
    obtain es' where "snd (f x (tr @ es)) = (tr @ es) @ es'" "list_all P es'"
      using assms(2) [of x] unfolding only_def by blast
    then have "snd (host_then m f tr) = tr @ (es @ es')" "list_all P (es @ es')"
      using es Inr by (cases "m tr", simp add: host_then_def)+
    then show ?thesis by blast
  qed
qed

lemma only_map_err [only_rules]: "only P m \<Longrightarrow> only P (host_map_err g m)"
  unfolding only_def host_map_err_def by (simp add: case_prod_beta split: sum.split)

lemma only_try [only_rules]: "only P m \<Longrightarrow> only P (host_try m)"
  unfolding only_def host_try_def by (simp add: case_prod_beta)

lemma only_ignore [only_rules]: "only P m \<Longrightarrow> only P (host_ignore m)"
  unfolding host_ignore_def by (intro only_rules)

lemma only_each [only_rules]: "(\<And>x. x \<in> set xs \<Longrightarrow> only P (f x)) \<Longrightarrow> only P (host_each f xs)"
  by (induction xs) (auto intro!: only_rules)

lemma only_if [only_rules]:
  "(b \<Longrightarrow> only P m) \<Longrightarrow> (\<not> b \<Longrightarrow> only P n) \<Longrightarrow> only P (if b then m else n)"
  by simp

lemma only_option [only_rules]:
  "(x = None \<Longrightarrow> only P m) \<Longrightarrow> (\<And>y. x = Some y \<Longrightarrow> only P (f y))
   \<Longrightarrow> only P (case x of None \<Rightarrow> m | Some y \<Rightarrow> f y)"
  by (cases x) auto

lemma only_sum [only_rules]:
  "(\<And>e. x = Inl e \<Longrightarrow> only P (g e)) \<Longrightarrow> (\<And>y. x = Inr y \<Longrightarrow> only P (f y))
   \<Longrightarrow> only P (case x of Inl e \<Rightarrow> g e | Inr y \<Rightarrow> f y)"
  by (cases x) auto

lemma only_pair [only_rules]:
  "(\<And>a b. x = (a, b) \<Longrightarrow> only P (f a b)) \<Longrightarrow> only P (case x of (a, b) \<Rightarrow> f a b)"
  by (cases x) auto

lemma only_trace: "only P m \<Longrightarrow> list_all P tr \<Longrightarrow> list_all P (snd (m tr))"
  unfolding only_def by (metis list_all_append)

end
