(* ===== verification/Conf_Token.thy ===== *)
theory Conf_Token
  imports Prelude
begin

text \<open>
  The tokenizer and the token stream helpers of \<open>src/config/parser.rs\<close>. The code keeps a
  position into a token vector; the model keeps the tokens that remain, so that \<open>pos += 1\<close> is
  the tail of the list. Every helper returns a suffix of what it was given, which is what makes
  the block parsers end.
\<close>

datatype token = Word string | Semicolon | OpenBrace | CloseBrace

text \<open>The errors of the parser: one constructor per \<open>bail!\<close> or failing \<open>?\<close>.\<close>

datatype conf_error =
    Expected_Word | Expected_Semi | Expected_Open
  | Unexpected_Http_Token | Unexpected_Server_Token | Unexpected_Location_Token
  | Bad_Worker_Processes | Bad_Worker_Connections | Bad_Size | Bad_Timeout
  | Bad_Listen | Bad_Return_Status
  | Root_Null_Byte | Root_Parent_Dir
  | Empty_Location | Unknown_Location_Modifier | Too_Many_Location_Tokens | Bad_Regex
  | Bad_Proxy_Url | Proxy_Scheme | Proxy_Unspecified | Proxy_Blocked_Host
  | Bad_Fastcgi_Address
  | Too_Many_Servers | Too_Many_Locations | Include_Depth | Unreadable_File

section \<open>The tokenizer\<close>

abbreviation HASH :: char where "HASH \<equiv> CHR ''#''"
abbreviation DQUOTE :: char where "DQUOTE \<equiv> CHR 0x22"
abbreviation SQUOTE :: char where "SQUOTE \<equiv> CHR 0x27"
abbreviation BACKSLASH :: char where "BACKSLASH \<equiv> CHR 0x5C"

definition word_end :: "char \<Rightarrow> bool" where
  "word_end c \<longleftrightarrow> is_ascii_whitespace c \<or> c = CHR '';'' \<or> c = CHR ''{'' \<or> c = CHR ''}'' \<or> c = HASH"

text \<open>The text of a quoted word up to its closing quote, a line end or the end of the source, and
  what follows it. A backslash takes the next character as it is.\<close>

fun quoted :: "char \<Rightarrow> string \<Rightarrow> string \<times> string" where
  "quoted q [] = ([], [])"
| "quoted q (c # s) =
     (if c = LF then ([], s)
      else if c = q then ([], s)
      else if c = BACKSLASH then
        (case s of [] \<Rightarrow> ([], [])
         | d # s' \<Rightarrow> (let (w, r) = quoted q s' in (d # w, r)))
      else (let (w, r) = quoted q s in (c # w, r)))"

lemmas quoted_Cons = quoted.simps(2)
declare quoted.simps(2) [simp del]

lemma quoted_length: "length (snd (quoted q s)) \<le> length s"
proof (induction q s rule: quoted.induct)
  case (2 q c s)
  consider "c = LF \<or> c = q" | "c \<noteq> LF" "c \<noteq> q" "c = BACKSLASH" | "c \<noteq> LF" "c \<noteq> q" "c \<noteq> BACKSLASH"
    by blast
  then show ?case
  proof cases
    case 2
    then show ?thesis using "2.IH"(1) by (cases s) (simp_all add: quoted_Cons split_beta le_SucI)
  next
    case 3
    then show ?thesis using "2.IH"(2) by (simp add: quoted_Cons split_beta le_SucI)
  qed (auto simp: quoted_Cons)
qed simp

text \<open>A comment runs to the end of its line.\<close>

definition skip_comment :: "string \<Rightarrow> string" where
  "skip_comment s = tl (dropWhile (\<lambda>c. c \<noteq> LF) s)"

lemma skip_comment_length: "length (skip_comment s) \<le> length s"
  unfolding skip_comment_def by (metis diff_le_self length_dropWhile_le length_tl order_trans)

function tokenize :: "string \<Rightarrow> token list" where
  "tokenize [] = []"
| "tokenize (c # s) =
     (if is_ascii_whitespace c then tokenize s
      else if c = HASH then tokenize (skip_comment s)
      else if c = CHR '';'' then Semicolon # tokenize s
      else if c = CHR ''{'' then OpenBrace # tokenize s
      else if c = CHR ''}'' then CloseBrace # tokenize s
      else if c = DQUOTE \<or> c = SQUOTE then Word (fst (quoted c s)) # tokenize (snd (quoted c s))
      else Word (c # takeWhile (\<lambda>d. \<not> word_end d) s) # tokenize (dropWhile (\<lambda>d. \<not> word_end d) s))"
  by pat_completeness auto
termination
  by (relation "measure length")
     (auto simp: less_Suc_eq_le quoted_length skip_comment_length length_dropWhile_le)

section \<open>Token stream helpers\<close>

definition peek_word :: "token list \<Rightarrow> string option" where
  "peek_word ts = (case ts of Word w # _ \<Rightarrow> Some w | _ \<Rightarrow> None)"

definition expect_word :: "token list \<Rightarrow> conf_error + (string \<times> token list)" where
  "expect_word ts = (case ts of Word w # r \<Rightarrow> Inr (w, r) | _ \<Rightarrow> Inl Expected_Word)"

definition expect_semi :: "token list \<Rightarrow> conf_error + token list" where
  "expect_semi ts = (case ts of Semicolon # r \<Rightarrow> Inr r | _ \<Rightarrow> Inl Expected_Semi)"

definition expect_open :: "token list \<Rightarrow> conf_error + token list" where
  "expect_open ts = (case ts of OpenBrace # r \<Rightarrow> Inr r | _ \<Rightarrow> Inl Expected_Open)"

fun collect_args :: "token list \<Rightarrow> string list \<times> token list" where
  "collect_args (Word w # r) = (let (args, r') = collect_args r in (w # args, r'))"
| "collect_args ts = ([], ts)"

text \<open>\<open>skip_block_at\<close> carries the nesting depth of the code's loop.\<close>

fun skip_block_at :: "nat \<Rightarrow> token list \<Rightarrow> token list" where
  "skip_block_at 0 ts = ts"
| "skip_block_at (Suc d) [] = []"
| "skip_block_at (Suc d) (OpenBrace # r) = skip_block_at (Suc (Suc d)) r"
| "skip_block_at (Suc d) (CloseBrace # r) = skip_block_at d r"
| "skip_block_at (Suc d) (_ # r) = skip_block_at (Suc d) r"

definition skip_block :: "token list \<Rightarrow> token list" where
  "skip_block ts = skip_block_at 1 ts"

text \<open>\<open>if matches!(tokens.get(*pos), Some(Token::Word(_))) { *pos += 1; }\<close>\<close>

definition skip_word :: "token list \<Rightarrow> token list" where
  "skip_word ts = (case ts of Word _ # r \<Rightarrow> r | _ \<Rightarrow> ts)"

text \<open>\<open>if matches!(tokens.get(*pos), Some(Token::Word(w)) if w == "always") { *pos += 1; }\<close>\<close>

definition skip_always :: "token list \<Rightarrow> token list" where
  "skip_always ts = (case ts of Word w # r \<Rightarrow> if w = ''always'' then r else ts | _ \<Rightarrow> ts)"

text \<open>The last arm of every block: an unknown directive with its arguments and its block.\<close>

definition skip_unknown :: "token list \<Rightarrow> token list" where
  "skip_unknown ts =
     (case snd (collect_args ts) of
        Semicolon # r \<Rightarrow> r
      | OpenBrace # r \<Rightarrow> skip_block r
      | r \<Rightarrow> r)"

section \<open>The helpers only consume\<close>

lemma collect_args_length: "length (snd (collect_args ts)) \<le> length ts"
  by (induction ts rule: collect_args.induct) (auto simp: split_beta)

lemma skip_block_at_length: "length (skip_block_at d ts) \<le> length ts"
  by (induction d ts rule: skip_block_at.induct) auto

lemma skip_block_length: "length (skip_block ts) \<le> length ts"
  by (simp add: skip_block_def skip_block_at_length)

lemma skip_word_length: "length (skip_word ts) \<le> length ts"
  by (auto simp: skip_word_def split: list.splits token.splits)

lemma skip_always_length: "length (skip_always ts) \<le> length ts"
  by (auto simp: skip_always_def split: list.splits token.splits)

lemma skip_unknown_length: "length (skip_unknown ts) \<le> length ts"
proof -
  have "length (skip_unknown ts) \<le> length (snd (collect_args ts))"
    unfolding skip_unknown_def
    by (auto split: list.splits token.splits intro: le_SucI skip_block_length)
  then show ?thesis using collect_args_length order_trans by blast
qed

lemmas consume_lengths =
  collect_args_length skip_block_length skip_word_length skip_always_length skip_unknown_length

lemma collect_args_le: "collect_args ts = (args, r) \<Longrightarrow> length r \<le> length ts"
  using collect_args_length [of ts] by simp

lemma less_skip_word: "n < length (skip_word ts) \<Longrightarrow> n < length ts"
  using skip_word_length [of ts] by simp

lemma less_skip_always: "n < length (skip_always ts) \<Longrightarrow> n < length ts"
  using skip_always_length [of ts] by simp

text \<open>The facts a proof of consumption needs after the construct rules have been applied.\<close>

lemmas consume_dests = collect_args_le less_skip_word less_skip_always

lemma sat_expect_word [sat_rules]:
  "(\<And>w r. length r < length ts \<Longrightarrow> P (w, r)) \<Longrightarrow> res_sat (expect_word ts) P"
  by (auto simp: res_sat_def expect_word_def split: list.splits token.splits)

lemma sat_expect_semi [sat_rules]:
  "(\<And>r. length r < length ts \<Longrightarrow> P r) \<Longrightarrow> res_sat (expect_semi ts) P"
  by (auto simp: res_sat_def expect_semi_def split: list.splits token.splits)

lemma sat_expect_open [sat_rules]:
  "(\<And>r. length r < length ts \<Longrightarrow> P r) \<Longrightarrow> res_sat (expect_open ts) P"
  by (auto simp: res_sat_def expect_open_def split: list.splits token.splits)

section \<open>Skipping an unknown block\<close>

text \<open>A token sequence whose braces match.\<close>

fun brace_depth :: "nat \<Rightarrow> token list \<Rightarrow> nat option" where
  "brace_depth d [] = Some d"
| "brace_depth d (OpenBrace # r) = brace_depth (Suc d) r"
| "brace_depth d (CloseBrace # r) = (case d of 0 \<Rightarrow> None | Suc d' \<Rightarrow> brace_depth d' r)"
| "brace_depth d (_ # r) = brace_depth d r"

definition balanced :: "token list \<Rightarrow> bool" where
  "balanced ts \<longleftrightarrow> brace_depth 0 ts = Some 0"

lemma skip_block_at_append:
  "brace_depth d body = Some e \<Longrightarrow> skip_block_at (Suc d) (body @ r) = skip_block_at (Suc e) r"
  by (induction d body rule: brace_depth.induct) (auto split: nat.splits)

lemma skip_block_balanced: "balanced body \<Longrightarrow> skip_block (body @ CloseBrace # r) = r"
  by (simp add: skip_block_def balanced_def skip_block_at_append)

lemma collect_args_words:
  "\<not> (\<exists>w ts. r = Word w # ts) \<Longrightarrow> collect_args (map Word args @ r) = (args, r)"
  by (induction args) (auto split: list.splits intro: collect_args.elims)

section \<open>Rendering tokens\<close>

text \<open>The inverse of the tokenizer: every word is quoted, with the characters that would end or
  alter it escaped.\<close>

definition escape_char :: "char \<Rightarrow> string" where
  "escape_char c = (if c = DQUOTE \<or> c = BACKSLASH \<or> c = LF then [BACKSLASH, c] else [c])"

fun render_token :: "token \<Rightarrow> string" where
  "render_token (Word w) = DQUOTE # concat (map escape_char w) @ [DQUOTE]"
| "render_token Semicolon = '';''"
| "render_token OpenBrace = ''{''"
| "render_token CloseBrace = ''}''"

lemma quoted_escaped:
  "quoted DQUOTE (concat (map escape_char w) @ DQUOTE # s) = (w, s)"
  by (induction w) (auto simp: quoted_Cons escape_char_def LF_def)

lemma tokenize_render_token: "tokenize (render_token t @ s) = t # tokenize s"
  by (cases t) (simp_all add: quoted_escaped is_ascii_whitespace_def)

lemma tokenize_render: "tokenize (concat (map render_token ts)) = ts"
  by (induction ts) (simp_all add: tokenize_render_token)

text \<open>An unquoted word is read whole when nothing in it ends a word and it opens with no quote.\<close>

definition plain_word :: "string \<Rightarrow> bool" where
  "plain_word w \<longleftrightarrow> w \<noteq> [] \<and> hd w \<noteq> DQUOTE \<and> hd w \<noteq> SQUOTE \<and> list_all (\<lambda>c. \<not> word_end c) w"

lemma tokenize_plain:
  assumes "plain_word w" and "s = [] \<or> word_end (hd s)"
  shows "tokenize (w @ s) = Word w # tokenize s"
proof -
  obtain c v where w: "w = c # v" and c: "\<not> word_end c" "c \<noteq> DQUOTE" "c \<noteq> SQUOTE"
    and v: "list_all (\<lambda>c. \<not> word_end c) v"
    using assms(1) by (cases w) (auto simp: plain_word_def)
  have v': "\<forall>x \<in> set v. \<not> word_end x" using v by (simp add: list_all_iff)
  have "takeWhile (\<lambda>d. \<not> word_end d) (v @ s) = v" "dropWhile (\<lambda>d. \<not> word_end d) (v @ s) = s"
    using v' assms(2) by (cases s; simp add: takeWhile_append2 dropWhile_append2)+
  then show ?thesis using c unfolding w by (simp add: word_end_def)
qed

end
