(* ===== verification/Conf_Block.thy ===== *)
theory Conf_Block
  imports Conf_Token
begin

text \<open>
  The contract the block parsers share. A block is read by a loop that takes one directive at a
  time until its closing brace or the end of the tokens. A directive consumes tokens and keeps
  the invariant of the block's state; then the loop does, for any block. The location, server,
  upstream and http blocks are interpretations.
\<close>

locale block_parser =
  fixes step :: "string \<Rightarrow> token list \<Rightarrow> 's \<Rightarrow> conf_error + ('s \<times> token list)"
    and loop :: "token list \<Rightarrow> 's \<Rightarrow> conf_error + ('s \<times> token list)"
    and inv :: "'s \<Rightarrow> bool"
  assumes consumes: "res_sat (step w ts s) (\<lambda>(s', r). length r \<le> length ts)"
    and preserves: "inv s \<Longrightarrow> res_sat (step w ts s) (\<lambda>(s', r). inv s')"
    and at_end: "loop [] s = Inr (s, [])"
    and at_close: "loop (CloseBrace # ts) s = Inr (s, ts)"
    and at_word: "loop (Word w # ts) s = and_then (step w ts s) (\<lambda>(s', r). loop r s')"
    and at_other: "t = Semicolon \<or> t = OpenBrace \<Longrightarrow>
      (\<exists>e. loop (t # ts) s = Inl e) \<or> loop (t # ts) s = loop ts s"
begin

lemma loop_inv:
  "inv s \<Longrightarrow> res_sat (loop ts s) (\<lambda>(s', r). inv s' \<and> length r \<le> length ts)"
proof (induction "length ts" arbitrary: ts s rule: less_induct)
  case less
  show ?case
  proof (cases ts)
    case Nil
    then show ?thesis using less.prems by (simp add: at_end res_sat_def)
  next
    case (Cons t r)
    have IH: "res_sat (loop ts' s') (\<lambda>(s'', r'). inv s'' \<and> length r' \<le> length ts)"
      if "length ts' \<le> length r" "inv s'" for ts' s'
      using less.hyps [of ts' s'] that Cons by (auto simp: res_sat_def)
    consider w where "t = Word w" | "t = CloseBrace" | "t = Semicolon \<or> t = OpenBrace"
      by (cases t) auto
    then show ?thesis
    proof cases
      case 1
      have step: "res_sat (step w r s) (\<lambda>(s', r'). length r' \<le> length r \<and> inv s')"
        using consumes [of w r s] preserves [OF less.prems, of w r] by (auto simp: res_sat_def)
      show ?thesis
        unfolding Cons 1 at_word using step IH Cons 1
        by (intro res_sat_and_then) (fastforce simp: res_sat_def)
    next
      case 2
      then show ?thesis using less.prems Cons by (simp add: at_close res_sat_def)
    next
      case 3
      from at_other [OF 3, of r s] show ?thesis
      proof
        assume "loop (t # r) s = loop r s"
        then show ?thesis using IH [OF order_refl less.prems] Cons by simp
      qed (auto simp: Cons res_sat_def)
    qed
  qed
qed

lemma loop_Inr:
  assumes "inv s" "loop ts s = Inr (s', r)"
  shows "inv s' \<and> length r \<le> length ts"
  using res_satD [OF loop_inv [OF assms(1)] assms(2)] by simp

text \<open>A directive that only skips (an unknown one) leaves the rest of the block as it was.\<close>

lemma loop_skips: "step w (ts @ r) s = Inr (s, r) \<Longrightarrow> loop (Word w # ts @ r) s = loop r s"
  by (simp add: at_word)

end

end
