(* ===== verification/Conf_Helpers.thy ===== *)
theory Conf_Helpers
  imports Conf_Token Config_Types Limit_Req
begin

text \<open>
  The value parsers of \<open>src/config/parser.rs\<close>: sizes, listen addresses, server names, roots,
  location patterns, \<open>proxy_pass\<close> and \<open>fastcgi_pass\<close> targets, log and return directives. What
  the parser asks of code outside the repository is the record \<open>conf_env\<close>: reading a file,
  expanding a glob, whether a regex compiles, parsing a URL, and the rounding of \<open>f64\<close> and \<open>f32\<close>.
\<close>

record conf_env =
  env_read :: "string \<Rightarrow> string option"
  env_glob :: "string \<Rightarrow> string list"
  env_regex_ok :: "string \<Rightarrow> bool"
  env_url_parse :: "string \<Rightarrow> url option"
  env_rnd :: rounding
  env_rnd32 :: rounding

text \<open>\<open>.context(..)?\<close> and \<open>.ok_or(..)?\<close>\<close>

definition ok_or :: "'a option \<Rightarrow> conf_error \<Rightarrow> conf_error + 'a" where
  "ok_or m e = (case m of None \<Rightarrow> Inl e | Some x \<Rightarrow> Inr x)"

lemma ok_or_Inr [res_simps]: "ok_or m e = Inr x \<longleftrightarrow> m = Some x"
  by (cases m) (auto simp: ok_or_def)

lemma sat_ok_or [sat_rules]: "(\<And>x. m = Some x \<Longrightarrow> P x) \<Longrightarrow> res_sat (ok_or m e) P"
  by (auto simp: res_sat_def ok_or_Inr)

text \<open>\<open>.parse().unwrap_or(d)\<close>\<close>

definition parse_or :: "nat \<Rightarrow> nat \<Rightarrow> string \<Rightarrow> nat" where
  "parse_or bits d s = (case parse_uint bits s of None \<Rightarrow> d | Some n \<Rightarrow> n)"

text \<open>\<open>v.trim_end_matches('s')\<close>\<close>

definition trim_s :: "string \<Rightarrow> string" where
  "trim_s v = trim_end_char (CHR ''s'') v"

definition parse_worker_count :: "string \<Rightarrow> conf_error + worker_count" where
  "parse_worker_count s =
     (if s = ''auto'' then Inr Auto
      else and_then (ok_or (parse_uint 64 s) Bad_Worker_Processes) (\<lambda>n. Inr (Fixed n)))"

section \<open>Listen addresses and server names\<close>

definition parse_listen_addr :: "string \<Rightarrow> conf_error + socket_addr" where
  "parse_listen_addr s =
     (case parse_socket_addr s of
        Some addr \<Rightarrow> Inr addr
      | None \<Rightarrow>
          (case parse_uint 16 s of
             Some port \<Rightarrow> Inr (any_v4 port)
           | None \<Rightarrow> Inl Bad_Listen))"

text \<open>The arguments of \<open>listen\<close>: the three flags and the address so far.\<close>

definition listen_arg :: "string \<Rightarrow> bool \<times> bool \<times> bool \<times> string \<Rightarrow> bool \<times> bool \<times> bool \<times> string" where
  "listen_arg arg st =
     (let (tls, http2, default_server, addr) = st
      in if arg = ''ssl'' then (True, http2, default_server, addr)
         else if arg = ''http2'' then (tls, True, default_server, addr)
         else if arg = ''default_server'' then (tls, http2, True, addr)
         else if arg \<in> set [''reuseport'', ''backlog'', ''rcvbuf'', ''sndbuf'', ''ipv6only=on'', ''ipv6only=off'']
              then st
         else (tls, http2, default_server, arg))"

definition parse_listen :: "token list \<Rightarrow> conf_error + (listen_directive \<times> token list)" where
  "parse_listen ts =
     (let (args, r) = collect_args ts
      in and_then (expect_semi r) (\<lambda>r.
         let (tls, http2, default_server, addr_str) = fold listen_arg args (False, False, False, [])
         in and_then (parse_listen_addr addr_str) (\<lambda>addr.
            Inr (\<lparr>ld_addr = addr, ld_tls = tls, ld_http2 = http2, ld_default_server = default_server\<rparr>, r))))"

definition parse_server_name :: "string \<Rightarrow> server_name" where
  "parse_server_name s =
     (if s = ''_'' \<or> s = '''' then CatchAll
      else if starts_with s ''*.'' then Wildcard s
      else if starts_with s ''.'' then Suffix s
      else Exact_Name s)"

section \<open>Roots\<close>

text \<open>\<open>Path::components().any(|c| c == Component::ParentDir)\<close>: the components of a path are its
  pieces between separators, without the empty ones and the dots.\<close>

definition has_parent_dir :: "string \<Rightarrow> bool" where
  "has_parent_dir p \<longleftrightarrow> ''..'' \<in> set (split_on (CHR ''/'') p)"

definition canonicalize_root :: "string \<Rightarrow> conf_error + string" where
  "canonicalize_root p =
     (if CHR 0x00 \<in> set p then Inl Root_Null_Byte
      else if has_parent_dir p then Inl Root_Parent_Dir
      else Inr p)"

definition safe_root :: "string \<Rightarrow> bool" where
  "safe_root p \<longleftrightarrow> CHR 0x00 \<notin> set p \<and> ''..'' \<notin> set (split_on (CHR ''/'') p)"

lemma sat_canonicalize_root [sat_rules]:
  "(safe_root p \<Longrightarrow> P p) \<Longrightarrow> res_sat (canonicalize_root p) P"
  by (auto simp: res_sat_def canonicalize_root_def safe_root_def has_parent_dir_def)

section \<open>Locations\<close>

definition parse_location_pattern :: "conf_env \<Rightarrow> string list \<Rightarrow> conf_error + location_pattern" where
  "parse_location_pattern env args =
     (case args of
        [] \<Rightarrow> Inl Empty_Location
      | [p] \<Rightarrow> if starts_with p ''@'' then Inr (Named p) else Inr (Prefix p)
      | [m, path] \<Rightarrow>
          if m = ''='' then Inr (Exact path)
          else if m = ''^~'' then Inr (PrefixNoRegex path)
          else if m = ''~'' then
            (if env_regex_ok env path then Inr (Regex path path) else Inl Bad_Regex)
          else if m = ''~*'' then
            (if env_regex_ok env (''(?i)'' @ path) then Inr (RegexInsensitive path (''(?i)'' @ path))
             else Inl Bad_Regex)
          else Inl Unknown_Location_Modifier
      | _ \<Rightarrow> Inl Too_Many_Location_Tokens)"

lemma sat_parse_location_pattern [sat_rules]:
  "(\<And>p. P p) \<Longrightarrow> res_sat (parse_location_pattern env args) P"
  by (simp add: res_sat_def)

definition parse_try_files_entry :: "string \<Rightarrow> try_files_entry" where
  "parse_try_files_entry s =
     (case (case strip_prefix s ''='' of None \<Rightarrow> None | Some code \<Rightarrow> parse_uint 16 code) of
        Some code \<Rightarrow> TF_StatusCode code
      | None \<Rightarrow> if starts_with s ''@'' then TF_Named s else TF_Path s)"

definition parse_try_files :: "string list \<Rightarrow> try_files_entry list" where
  "parse_try_files args = map parse_try_files_entry args"

definition blocked_host :: "string \<Rightarrow> bool" where
  "blocked_host host_lc \<longleftrightarrow>
     host_lc = ''localhost'' \<or> ends_with host_lc ''.local'' \<or> host_lc = ''metadata.google.internal''
     \<or> host_lc = ''169.254.169.254'' \<or> host_lc = ''fd00:ec2::254'' \<or> host_lc = ''metadata.internal''"

definition parse_proxy_pass :: "conf_env \<Rightarrow> string \<Rightarrow> conf_error + proxy_config" where
  "parse_proxy_pass env raw =
     and_then (ok_or (env_url_parse env raw) Bad_Proxy_Url) (\<lambda>parsed.
     if url_scheme parsed \<noteq> ''http'' \<and> url_scheme parsed \<noteq> ''https'' then Inl Proxy_Scheme
     else
       let host = (case url_host parsed of None \<Rightarrow> '''' | Some h \<Rightarrow> h)
       in if (case parse_ip_addr host of None \<Rightarrow> False | Some ip \<Rightarrow> is_unspecified ip) then Inl Proxy_Unspecified
          else if blocked_host (to_ascii_lowercase host) then Inl Proxy_Blocked_Host
          else Inr \<lparr>pc_upstream = parsed, pc_set_headers = [], pc_read_timeout = 60,
                    pc_connect_timeout = 5, pc_buffering = True, pc_http2 = False,
                    pc_allow_internal = False\<rparr>)"

text \<open>What every accepted upstream satisfies.\<close>

definition upstream_url_ok :: "url \<Rightarrow> bool" where
  "upstream_url_ok u \<longleftrightarrow>
     (url_scheme u = ''http'' \<or> url_scheme u = ''https'') \<and>
     (case url_host u of None \<Rightarrow> True
      | Some h \<Rightarrow> \<not> blocked_host (to_ascii_lowercase h) \<and>
           (case parse_ip_addr h of None \<Rightarrow> True | Some ip \<Rightarrow> \<not> is_unspecified ip))"

lemma sat_parse_proxy_pass [sat_rules]:
  "(\<And>pc. upstream_url_ok (pc_upstream pc) \<Longrightarrow> P pc) \<Longrightarrow> res_sat (parse_proxy_pass env raw) P"
proof -
  assume P: "\<And>pc. upstream_url_ok (pc_upstream pc) \<Longrightarrow> P pc"
  show ?thesis
    unfolding parse_proxy_pass_def Let_def
    by (intro sat_rules P) (auto simp: upstream_url_ok_def split: option.splits)
qed

definition parse_fastcgi_upstream :: "string \<Rightarrow> conf_error + fastcgi_upstream" where
  "parse_fastcgi_upstream s =
     (case strip_prefix s ''unix:'' of
        Some path \<Rightarrow> Inr (UnixSocket (''/'' @ trim_start_char (CHR ''/'') path))
      | None \<Rightarrow>
          and_then (ok_or (parse_socket_addr s) Bad_Fastcgi_Address) (\<lambda>addr. Inr (Tcp addr)))"

lemma sat_parse_fastcgi_upstream [sat_rules]: "(\<And>u. P u) \<Longrightarrow> res_sat (parse_fastcgi_upstream s) P"
  by (simp add: res_sat_def)

section \<open>Miscellaneous directives\<close>

definition parse_access_log :: "token list \<Rightarrow> conf_error + (access_log \<times> token list)" where
  "parse_access_log ts =
     and_then (expect_word ts) (\<lambda>(v, r).
     and_then (expect_semi (skip_word r)) (\<lambda>r.
     Inr (if v = ''off'' then Log_Off else if v = ''stderr'' then Log_Stderr else Log_File v, r)))"

definition parse_return :: "token list \<Rightarrow> conf_error + (return_directive \<times> token list)" where
  "parse_return ts =
     and_then (expect_word ts) (\<lambda>(first, r).
     and_then (ok_or (parse_uint 16 first) Bad_Return_Status) (\<lambda>status.
     let (body, r) = (case peek_word r of
           Some s \<Rightarrow> (if 300 \<le> status \<and> status < 400 then Url_Body s else Text_Body s, tl r)
         | None \<Rightarrow> (Empty_Body, r))
     in and_then (expect_semi r) (\<lambda>r. Inr (\<lparr>rd_status = status, rd_body = body\<rparr>, r))))"

text \<open>The multiplication wraps, as it does in a release build.\<close>

definition parse_size :: "string \<Rightarrow> nat option" where
  "parse_size s =
     (let s = str_trim s;
          (num, mult) =
            (if s \<noteq> [] \<and> (last s = CHR ''k'' \<or> last s = CHR ''K'') then (butlast s, 1024)
             else if s \<noteq> [] \<and> (last s = CHR ''m'' \<or> last s = CHR ''M'') then (butlast s, 1024 * 1024)
             else if s \<noteq> [] \<and> (last s = CHR ''g'' \<or> last s = CHR ''G'') then (butlast s, 1024 * 1024 * 1024)
             else (s, 1))
      in map_option (\<lambda>n. n * mult mod 2 ^ 64) (parse_uint 64 num))"

definition parse_limit_req :: "string list \<Rightarrow> limit_req_ref option" where
  "parse_limit_req args =
     (case find (\<lambda>a. starts_with a ''zone='') args of
        None \<Rightarrow> None
      | Some z \<Rightarrow>
          Some \<lparr>lr_zone = trim_start_str ''zone='' z,
                lr_burst = (case find (\<lambda>a. starts_with a ''burst='') args of
                              None \<Rightarrow> 0
                            | Some a \<Rightarrow> parse_or 32 0 (trim_start_str ''burst='' a)),
                lr_nodelay = (''nodelay'' \<in> set args)\<rparr>)"

text \<open>The flag of a \<open>rewrite\<close> directive.\<close>

definition parse_rewrite_flag :: "string \<Rightarrow> rewrite_flag" where
  "parse_rewrite_flag s =
     (if s = ''last'' then Last else if s = ''break'' then Break
      else if s = ''redirect'' then Redirect else if s = ''permanent'' then Permanent else Last)"

definition parse_rewrite :: "token list \<Rightarrow> conf_error + (rewrite_rule \<times> token list)" where
  "parse_rewrite ts =
     and_then (expect_word ts) (\<lambda>(pattern, r).
     and_then (expect_word r) (\<lambda>(replacement, r).
     and_then (case peek_word r of
         Some _ \<Rightarrow> and_then (expect_word r) (\<lambda>(s, r). and_then (expect_semi r) (\<lambda>r. Inr (s, r)))
       | None \<Rightarrow> and_then (expect_semi r) (\<lambda>r. Inr (''last'', r))) (\<lambda>(flag, r).
     Inr (\<lparr>rw_pattern = pattern, rw_replacement = replacement, rw_flag = parse_rewrite_flag flag\<rparr>, r))))"

section \<open>Consumption\<close>

lemma sat_parse_access_log [sat_rules]:
  "(\<And>l r. length r < length ts \<Longrightarrow> P (l, r)) \<Longrightarrow> res_sat (parse_access_log ts) P"
  unfolding parse_access_log_def by (intro sat_rules) (auto dest!: consume_dests intro!: sat_rules)

lemma sat_parse_listen [sat_rules]:
  "(\<And>l r. length r < length ts \<Longrightarrow> P (l, r)) \<Longrightarrow> res_sat (parse_listen ts) P"
  unfolding parse_listen_def Let_def
  by (intro sat_rules res_sat_split) (auto dest!: consume_dests intro!: sat_rules simp: res_sat_def)

lemma tl_Cons_less: "tl ts = x # r \<Longrightarrow> length r < length ts"
  by (cases ts) auto

lemma sat_parse_return [sat_rules]:
  "(\<And>l r. length r < length ts \<Longrightarrow> P (l, r)) \<Longrightarrow> res_sat (parse_return ts) P"
  unfolding parse_return_def Let_def
  by (intro sat_rules) (auto intro!: sat_rules dest!: tl_Cons_less split: option.splits)

lemma sat_parse_rewrite [sat_rules]:
  "(\<And>l r. length r < length ts \<Longrightarrow> P (l, r)) \<Longrightarrow> res_sat (parse_rewrite ts) P"
  unfolding parse_rewrite_def
  by (intro sat_rules) (auto intro!: sat_rules split: option.splits)

end
