(* ===== verification/Conf_Location.thy ===== *)
theory Conf_Location
  imports Conf_Block Conf_Helpers
begin

text \<open>
  The \<open>location\<close> block of \<open>src/config/parser.rs\<close> (\<open>parse_location\<close>): the local variables of the
  function as the record \<open>loc_state\<close>, one branch of \<open>location_directive\<close> per directive in the
  code's order, the loop over the block, and the block built at its end. The configuration path
  and the include depth the code passes down are not used by it.
\<close>

record loc_state =
  ls_handler :: location_handler
  ls_root :: "string option"
  ls_index :: "string list option"
  ls_try_files :: "try_files_entry list option"
  ls_add_headers :: "(string \<times> string) list"
  ls_client_max_body_size :: "nat option"
  ls_return_directive :: "return_directive option"
  ls_gzip :: "bool option"
  ls_limit_req :: "limit_req_ref option"
  ls_rewrites :: "rewrite_rule list"
  ls_auth_basic_realm :: "string option"
  ls_auth_basic_file :: "string option"

definition empty_loc_state :: loc_state where
  "empty_loc_state =
     \<lparr>ls_handler = Static, ls_root = None, ls_index = None, ls_try_files = None,
      ls_add_headers = [], ls_client_max_body_size = None, ls_return_directive = None,
      ls_gzip = None, ls_limit_req = None, ls_rewrites = [], ls_auth_basic_realm = None,
      ls_auth_basic_file = None\<rparr>"

text \<open>\<open>if let LocationHandler::FastCgi(ref mut fc) = handler { .. }\<close>, and for a proxy.\<close>

definition on_fastcgi :: "(fastcgi_config \<Rightarrow> fastcgi_config) \<Rightarrow> loc_state \<Rightarrow> loc_state" where
  "on_fastcgi f st = (case ls_handler st of FastCgi fc \<Rightarrow> st\<lparr>ls_handler := FastCgi (f fc)\<rparr> | _ \<Rightarrow> st)"

definition on_proxy :: "(proxy_config \<Rightarrow> proxy_config) \<Rightarrow> loc_state \<Rightarrow> loc_state" where
  "on_proxy f st = (case ls_handler st of Proxy pc \<Rightarrow> st\<lparr>ls_handler := Proxy (f pc)\<rparr> | _ \<Rightarrow> st)"

text \<open>\<open>word ;\<close> and \<open>word word ;\<close>, the shape of most directives.\<close>

definition one_word :: "token list \<Rightarrow> conf_error + (string \<times> token list)" where
  "one_word ts = and_then (expect_word ts) (\<lambda>(v, r). and_then (expect_semi r) (\<lambda>r. Inr (v, r)))"

definition two_words :: "token list \<Rightarrow> conf_error + (string \<times> string \<times> token list)" where
  "two_words ts =
     and_then (expect_word ts) (\<lambda>(k, r). and_then (expect_word r) (\<lambda>(v, r).
     and_then (expect_semi r) (\<lambda>r. Inr (k, v, r))))"

text \<open>\<open>args ;\<close>\<close>

definition args_semi :: "token list \<Rightarrow> conf_error + (string list \<times> token list)" where
  "args_semi ts = (let (args, r) = collect_args ts in and_then (expect_semi r) (\<lambda>r. Inr (args, r)))"

text \<open>\<open>add_header name value [always];\<close>\<close>

definition header_args :: "token list \<Rightarrow> conf_error + (string \<times> string \<times> token list)" where
  "header_args ts =
     and_then (expect_word ts) (\<lambda>(name, r). and_then (expect_word r) (\<lambda>(value, r).
     and_then (expect_semi (skip_always r)) (\<lambda>r. Inr (name, value, r))))"

text \<open>\<open>client_max_body_size\<close>, in every block: the size, capped.\<close>

definition body_size :: "token list \<Rightarrow> conf_error + (nat \<times> token list)" where
  "body_size ts =
     and_then (expect_word ts) (\<lambda>(v, r). and_then (ok_or (parse_size v) Bad_Size) (\<lambda>n.
     and_then (expect_semi r) (\<lambda>r. Inr (min n ABSOLUTE_MAX_BODY_BYTES, r))))"

text \<open>The directives about credentials, and those that are not known.\<close>

definition auth_directive :: "string \<Rightarrow> token list \<Rightarrow> loc_state \<Rightarrow> conf_error + (loc_state \<times> token list)" where
  "auth_directive w ts st =
     (if w = ''auth_basic'' then
        and_then (one_word ts) (\<lambda>(realm, r).
        Inr (if realm \<noteq> ''off'' then st\<lparr>ls_auth_basic_realm := Some realm\<rparr> else st, r))
      else if w = ''auth_basic_user_file'' then
        and_then (one_word ts) (\<lambda>(file, r). Inr (st\<lparr>ls_auth_basic_file := Some file\<rparr>, r))
      else Inr (st, skip_unknown ts))"

definition location_directive ::
  "conf_env \<Rightarrow> string \<Rightarrow> token list \<Rightarrow> loc_state \<Rightarrow> conf_error + (loc_state \<times> token list)" where
  "location_directive env w ts st =
     (if w = ''root'' then
        and_then (one_word ts) (\<lambda>(p, r). and_then (canonicalize_root p) (\<lambda>p.
        Inr (st\<lparr>ls_root := Some p\<rparr>, r)))
      else if w = ''index'' then
        and_then (args_semi ts) (\<lambda>(args, r). Inr (st\<lparr>ls_index := Some args\<rparr>, r))
      else if w = ''try_files'' then
        and_then (args_semi ts) (\<lambda>(args, r). Inr (st\<lparr>ls_try_files := Some (parse_try_files args)\<rparr>, r))
      else if w = ''proxy_pass'' then
        and_then (one_word ts) (\<lambda>(url, r). and_then (parse_proxy_pass env url) (\<lambda>cfg.
        Inr (st\<lparr>ls_handler := Proxy cfg\<rparr>, r)))
      else if w = ''fastcgi_pass'' then
        and_then (one_word ts) (\<lambda>(up, r). and_then (parse_fastcgi_upstream up) (\<lambda>upstream.
        Inr (st\<lparr>ls_handler := FastCgi \<lparr>fc_upstream = upstream, fc_params = [], fc_index = None,
                                      fc_read_timeout = 60, fc_connect_timeout = 5\<rparr>\<rparr>, r)))
      else if w = ''fastcgi_param'' then
        and_then (two_words ts) (\<lambda>(k, v, r).
        Inr (on_fastcgi (\<lambda>fc. fc\<lparr>fc_params := fc_params fc @ [(k, v)]\<rparr>) st, r))
      else if w = ''fastcgi_index'' then
        and_then (one_word ts) (\<lambda>(v, r). Inr (on_fastcgi (\<lambda>fc. fc\<lparr>fc_index := Some v\<rparr>) st, r))
      else if w = ''fastcgi_read_timeout'' then
        and_then (one_word ts) (\<lambda>(v, r).
        Inr (on_fastcgi (\<lambda>fc. fc\<lparr>fc_read_timeout := parse_or 64 60 (trim_s v)\<rparr>) st, r))
      else if w = ''proxy_set_header'' then
        and_then (two_words ts) (\<lambda>(k, v, r).
        Inr (on_proxy (\<lambda>pc. pc\<lparr>pc_set_headers := pc_set_headers pc @ [(k, v)]\<rparr>) st, r))
      else if w = ''proxy_read_timeout'' then
        and_then (one_word ts) (\<lambda>(v, r).
        Inr (on_proxy (\<lambda>pc. pc\<lparr>pc_read_timeout := parse_or 64 60 (trim_s v)\<rparr>) st, r))
      else if w = ''proxy_buffering'' then
        and_then (one_word ts) (\<lambda>(v, r). Inr (on_proxy (\<lambda>pc. pc\<lparr>pc_buffering := (v = ''on'')\<rparr>) st, r))
      else if w = ''proxy_allow_internal'' then
        and_then (one_word ts) (\<lambda>(v, r). Inr (on_proxy (\<lambda>pc. pc\<lparr>pc_allow_internal := (v = ''on'')\<rparr>) st, r))
      else if w = ''add_header'' then
        and_then (header_args ts) (\<lambda>(n, v, r).
        Inr (st\<lparr>ls_add_headers := ls_add_headers st @ [(n, v)]\<rparr>, r))
      else if w = ''client_max_body_size'' then
        and_then (body_size ts) (\<lambda>(n, r). Inr (st\<lparr>ls_client_max_body_size := Some n\<rparr>, r))
      else if w = ''return'' then
        and_then (parse_return ts) (\<lambda>(rd, r).
        Inr (st\<lparr>ls_return_directive := Some rd, ls_handler := Return rd\<rparr>, r))
      else if w = ''gzip'' then
        and_then (one_word ts) (\<lambda>(v, r). Inr (st\<lparr>ls_gzip := Some (v = ''on'')\<rparr>, r))
      else if w = ''limit_req'' then
        and_then (args_semi ts) (\<lambda>(args, r). Inr (st\<lparr>ls_limit_req := parse_limit_req args\<rparr>, r))
      else if w = ''rewrite'' then
        and_then (parse_rewrite ts) (\<lambda>(rw, r). Inr (st\<lparr>ls_rewrites := ls_rewrites st @ [rw]\<rparr>, r))
      else auth_directive w ts st)"

section \<open>Consumption\<close>

lemma sat_one_word [sat_rules]:
  "(\<And>v r. length r < length ts \<Longrightarrow> P (v, r)) \<Longrightarrow> res_sat (one_word ts) P"
  unfolding one_word_def by (intro sat_rules) (auto intro!: sat_rules)

lemma sat_two_words [sat_rules]:
  "(\<And>k v r. length r < length ts \<Longrightarrow> P (k, v, r)) \<Longrightarrow> res_sat (two_words ts) P"
  unfolding two_words_def by (intro sat_rules) (auto intro!: sat_rules)

lemma sat_args_semi [sat_rules]:
  "(\<And>args r. length r < length ts \<Longrightarrow> P (args, r)) \<Longrightarrow> res_sat (args_semi ts) P"
  unfolding args_semi_def Let_def by (intro sat_rules res_sat_split) (auto dest!: consume_dests intro!: sat_rules)

lemma sat_header_args [sat_rules]:
  "(\<And>k v r. length r < length ts \<Longrightarrow> P (k, v, r)) \<Longrightarrow> res_sat (header_args ts) P"
  unfolding header_args_def by (intro sat_rules) (auto dest!: consume_dests intro!: sat_rules)

lemma sat_body_size [sat_rules]:
  "(\<And>n r. length r < length ts \<Longrightarrow> n \<le> ABSOLUTE_MAX_BODY_BYTES \<Longrightarrow> P (n, r)) \<Longrightarrow> res_sat (body_size ts) P"
  unfolding body_size_def by (intro sat_rules) (auto intro!: sat_rules)

lemma location_directive_consumes:
  "res_sat (location_directive env w ts st) (\<lambda>(st', r). length r \<le> length ts)"
  unfolding location_directive_def auth_directive_def
  apply (intro sat_rules)
  apply (simp_all add: skip_unknown_length)
  done

function location_loop :: "conf_env \<Rightarrow> token list \<Rightarrow> loc_state \<Rightarrow> conf_error + (loc_state \<times> token list)" where
  "location_loop env ts st =
     (case ts of
        [] \<Rightarrow> Inr (st, [])
      | CloseBrace # r \<Rightarrow> Inr (st, r)
      | Word w # r \<Rightarrow> and_then (location_directive env w r st) (\<lambda>(st, r). location_loop env r st)
      | _ \<Rightarrow> Inl Unexpected_Location_Token)"
  by pat_completeness auto
termination
  by (relation "measure (\<lambda>(env, ts, st). length ts)")
     (auto dest: res_satD [OF location_directive_consumes])

declare location_loop.simps [simp del]

text \<open>Authentication needs both directives, otherwise the location has none.\<close>

definition location_auth :: "loc_state \<Rightarrow> auth_basic_config option" where
  "location_auth st =
     (case (ls_auth_basic_realm st, ls_auth_basic_file st) of
        (Some realm, Some file) \<Rightarrow> Some \<lparr>ab_realm = realm, ab_user_file = file\<rparr>
      | _ \<Rightarrow> None)"

definition location_of_state :: "location_pattern \<Rightarrow> loc_state \<Rightarrow> location_block" where
  "location_of_state pattern st =
     \<lparr>loc_pattern = pattern, loc_handler = ls_handler st, loc_root = ls_root st,
      loc_index = ls_index st, loc_try_files = ls_try_files st,
      loc_add_headers = ls_add_headers st, loc_client_max_body_size = ls_client_max_body_size st,
      loc_return_directive = ls_return_directive st, loc_gzip = ls_gzip st,
      loc_limit_req = ls_limit_req st, loc_rewrites = ls_rewrites st,
      loc_auth_basic = location_auth st\<rparr>"

definition parse_location :: "conf_env \<Rightarrow> token list \<Rightarrow> conf_error + (location_block \<times> token list)" where
  "parse_location env ts =
     (let (args, r) = collect_args ts
      in and_then (expect_open r) (\<lambda>r.
         and_then (parse_location_pattern env args) (\<lambda>pattern.
         and_then (location_loop env r empty_loc_state) (\<lambda>(st, r).
         Inr (location_of_state pattern st, r)))))"

section \<open>The invariant of a location\<close>

fun handler_ok :: "location_handler \<Rightarrow> bool" where
  "handler_ok (Proxy pc) = upstream_url_ok (pc_upstream pc)"
| "handler_ok (UpstreamGroup g) = False"
| "handler_ok _ = True"

definition root_ok :: "string option \<Rightarrow> bool" where
  "root_ok m \<longleftrightarrow> (case m of None \<Rightarrow> True | Some p \<Rightarrow> safe_root p)"

definition body_limit_ok :: "nat option \<Rightarrow> bool" where
  "body_limit_ok m \<longleftrightarrow> (case m of None \<Rightarrow> True | Some n \<Rightarrow> n \<le> ABSOLUTE_MAX_BODY_BYTES)"

definition loc_state_ok :: "loc_state \<Rightarrow> bool" where
  "loc_state_ok st \<longleftrightarrow>
     handler_ok (ls_handler st) \<and> root_ok (ls_root st) \<and> body_limit_ok (ls_client_max_body_size st)"

definition location_ok :: "location_block \<Rightarrow> bool" where
  "location_ok loc \<longleftrightarrow>
     handler_ok (loc_handler loc) \<and> root_ok (loc_root loc) \<and> body_limit_ok (loc_client_max_body_size loc)"

lemma on_fastcgi_ok: "loc_state_ok st \<Longrightarrow> loc_state_ok (on_fastcgi f st)"
  by (auto simp: on_fastcgi_def loc_state_ok_def split: location_handler.splits)

lemma on_proxy_ok:
  "loc_state_ok st \<Longrightarrow> (\<And>pc. pc_upstream (f pc) = pc_upstream pc) \<Longrightarrow> loc_state_ok (on_proxy f st)"
  by (auto simp: on_proxy_def loc_state_ok_def split: location_handler.splits)

lemma location_directive_ok:
  assumes "loc_state_ok st"
  shows "res_sat (location_directive env w ts st) (\<lambda>(st', r). loc_state_ok st')"
  unfolding location_directive_def auth_directive_def
  apply (intro sat_rules)
  apply (use assms in \<open>simp_all add: on_fastcgi_ok on_proxy_ok\<close>)
  apply (simp_all add: loc_state_ok_def root_ok_def body_limit_ok_def)
  done

interpretation location_block: block_parser "location_directive env" "location_loop env" loc_state_ok for env
proof unfold_locales
  fix t :: token and ts s
  assume "t = Semicolon \<or> t = OpenBrace"
  then show "(\<exists>e. location_loop env (t # ts) s = Inl e) \<or> location_loop env (t # ts) s = location_loop env ts s"
    by (auto simp: location_loop.simps [of env "t # ts"])
qed (simp_all add: location_directive_consumes location_directive_ok location_loop.simps)

lemma empty_loc_state_ok: "loc_state_ok empty_loc_state"
  by (simp add: empty_loc_state_def loc_state_ok_def root_ok_def body_limit_ok_def)

lemma sat_location_loop [sat_rules]:
  "loc_state_ok st \<Longrightarrow> (\<And>st' r. loc_state_ok st' \<Longrightarrow> length r \<le> length ts \<Longrightarrow> P (st', r))
   \<Longrightarrow> res_sat (location_loop env ts st) P"
  by (rule res_sat_mono [OF location_block.loop_inv]) auto

lemma sat_parse_location [sat_rules]:
  "(\<And>loc r. location_ok loc \<Longrightarrow> length r < length ts \<Longrightarrow> P (loc, r)) \<Longrightarrow> res_sat (parse_location env ts) P"
  unfolding parse_location_def Let_def
  by (intro sat_rules res_sat_split empty_loc_state_ok)
     (auto dest!: consume_dests simp: location_of_state_def location_ok_def loc_state_ok_def)

end
