(* ===== verification/Conf_Server.thy ===== *)
theory Conf_Server
  imports Conf_Location
begin

text \<open>
  The \<open>server\<close> block of \<open>src/config/parser.rs\<close> (\<open>parse_server_block\<close>): its state is the block
  being built and the number of locations seen, one branch of \<open>server_directive\<close> per directive
  in the code's order.
\<close>

record server_state =
  ss_srv :: server_block
  ss_loc_count :: nat

definition empty_server :: server_block where
  "empty_server =
     \<lparr>srv_listen = [], srv_server_names = [], srv_root = None,
      srv_index = [''index.html'', ''index.htm''], srv_locations = [], srv_tls = None,
      srv_access_log = None, srv_client_max_body_size = None, srv_error_pages = [],
      srv_add_headers = [], srv_return_directive = None, srv_limit_req = None, srv_rewrites = [],
      srv_auth_basic = None, srv_ssl_redirect = False, srv_hsts_max_age = None,
      srv_hsts_include_subdomains = True\<rparr>"

definition on_srv :: "(server_block \<Rightarrow> server_block) \<Rightarrow> server_state \<Rightarrow> server_state" where
  "on_srv f st = st\<lparr>ss_srv := f (ss_srv st)\<rparr>"

text \<open>\<open>srv.tls.get_or_insert_with(..)\<close> followed by an assignment to one field.\<close>

definition on_tls :: "(tls_config \<Rightarrow> tls_config) \<Rightarrow> server_block \<Rightarrow> server_block" where
  "on_tls f srv =
     srv\<lparr>srv_tls := Some (f (case srv_tls srv of Some t \<Rightarrow> t
        | None \<Rightarrow> \<lparr>tls_cert_path = [], tls_key_path = [], tls_min_version = default_tls_version\<rparr>))\<rparr>"

definition set_user_file :: "string \<Rightarrow> server_block \<Rightarrow> server_block" where
  "set_user_file file srv =
     srv\<lparr>srv_auth_basic := Some (case srv_auth_basic srv of
          Some ab \<Rightarrow> ab\<lparr>ab_user_file := file\<rparr>
        | None \<Rightarrow> \<lparr>ab_realm = ''Restricted'', ab_user_file = file\<rparr>)\<rparr>"

definition add_error_page :: "string list \<Rightarrow> server_block \<Rightarrow> server_block" where
  "add_error_page args srv =
     (if 2 \<le> length args then
        (let codes = List.map_filter (parse_uint 16) (butlast args)
         in if codes \<noteq> [] then
              srv\<lparr>srv_error_pages := srv_error_pages srv @ [\<lparr>ep_codes = codes, ep_uri = last args\<rparr>]\<rparr>
            else srv)
      else srv)"

text \<open>\<open>val.trim_matches('"') != "off"\<close>\<close>

definition not_off :: "string \<Rightarrow> bool" where
  "not_off v \<longleftrightarrow> trim_matches_char DQUOTE v \<noteq> ''off''"

text \<open>The directives about redirecting to HTTPS, and those that are not known.\<close>

definition https_directive :: "string \<Rightarrow> token list \<Rightarrow> server_state \<Rightarrow> conf_error + (server_state \<times> token list)" where
  "https_directive w ts st =
     (if w = ''ssl_redirect'' \<or> w = ''ssl-redirect'' then
        and_then (one_word ts) (\<lambda>(v, r). Inr (on_srv (\<lambda>s. s\<lparr>srv_ssl_redirect := not_off v\<rparr>) st, r))
      else if w = ''hsts'' then
        and_then (one_word ts) (\<lambda>(v, r).
        Inr (if not_off v then on_srv (\<lambda>s. s\<lparr>srv_hsts_max_age := Some 31536000\<rparr>) st else st, r))
      else if w = ''hsts_max_age'' \<or> w = ''hsts-max-age'' then
        and_then (one_word ts) (\<lambda>(v, r).
        Inr (on_srv (\<lambda>s. s\<lparr>srv_hsts_max_age := parse_uint 64 v\<rparr>) st, r))
      else if w = ''hsts_include_subdomains'' \<or> w = ''hsts-include-subdomains'' then
        and_then (one_word ts) (\<lambda>(v, r).
        Inr (on_srv (\<lambda>s. s\<lparr>srv_hsts_include_subdomains := not_off v\<rparr>) st, r))
      else Inr (st, skip_unknown ts))"

definition server_directive ::
  "conf_env \<Rightarrow> string \<Rightarrow> token list \<Rightarrow> server_state \<Rightarrow> conf_error + (server_state \<times> token list)" where
  "server_directive env w ts st =
     (if w = ''listen'' then
        and_then (parse_listen ts) (\<lambda>(d, r).
        Inr (on_srv (\<lambda>s. s\<lparr>srv_listen := srv_listen s @ [d]\<rparr>) st, r))
      else if w = ''server_name'' then
        and_then (args_semi ts) (\<lambda>(names, r).
        Inr (on_srv (\<lambda>s. s\<lparr>srv_server_names := srv_server_names s @ map parse_server_name names\<rparr>) st, r))
      else if w = ''root'' then
        and_then (one_word ts) (\<lambda>(p, r). and_then (canonicalize_root p) (\<lambda>p.
        Inr (on_srv (\<lambda>s. s\<lparr>srv_root := Some p\<rparr>) st, r)))
      else if w = ''index'' then
        and_then (args_semi ts) (\<lambda>(args, r). Inr (on_srv (\<lambda>s. s\<lparr>srv_index := args\<rparr>) st, r))
      else if w = ''access_log'' then
        and_then (parse_access_log ts) (\<lambda>(l, r). Inr (on_srv (\<lambda>s. s\<lparr>srv_access_log := Some l\<rparr>) st, r))
      else if w = ''client_max_body_size'' then
        and_then (body_size ts) (\<lambda>(n, r).
        Inr (on_srv (\<lambda>s. s\<lparr>srv_client_max_body_size := Some n\<rparr>) st, r))
      else if w = ''add_header'' then
        and_then (header_args ts) (\<lambda>(n, v, r).
        Inr (on_srv (\<lambda>s. s\<lparr>srv_add_headers := srv_add_headers s @ [(n, v)]\<rparr>) st, r))
      else if w = ''limit_req'' then
        and_then (args_semi ts) (\<lambda>(args, r).
        Inr (on_srv (\<lambda>s. s\<lparr>srv_limit_req := parse_limit_req args\<rparr>) st, r))
      else if w = ''rewrite'' then
        and_then (parse_rewrite ts) (\<lambda>(rw, r).
        Inr (on_srv (\<lambda>s. s\<lparr>srv_rewrites := srv_rewrites s @ [rw]\<rparr>) st, r))
      else if w = ''auth_basic'' then
        and_then (one_word ts) (\<lambda>(realm, r).
        Inr (if realm \<noteq> ''off''
             then on_srv (\<lambda>s. s\<lparr>srv_auth_basic := Some \<lparr>ab_realm = realm, ab_user_file = []\<rparr>\<rparr>) st
             else st, r))
      else if w = ''auth_basic_user_file'' then
        and_then (one_word ts) (\<lambda>(file, r). Inr (on_srv (set_user_file file) st, r))
      else if w = ''error_page'' then
        and_then (args_semi ts) (\<lambda>(args, r). Inr (on_srv (add_error_page args) st, r))
      else if w = ''return'' then
        and_then (parse_return ts) (\<lambda>(rd, r).
        Inr (on_srv (\<lambda>s. s\<lparr>srv_return_directive := Some rd\<rparr>) st, r))
      else if w = ''ssl_certificate'' then
        and_then (one_word ts) (\<lambda>(p, r). Inr (on_srv (on_tls (\<lambda>t. t\<lparr>tls_cert_path := p\<rparr>)) st, r))
      else if w = ''ssl_certificate_key'' then
        and_then (one_word ts) (\<lambda>(p, r). Inr (on_srv (on_tls (\<lambda>t. t\<lparr>tls_key_path := p\<rparr>)) st, r))
      else if w = ''ssl_protocols'' then
        and_then (args_semi ts) (\<lambda>(args, r).
        Inr (on_srv (on_tls (\<lambda>t. t\<lparr>tls_min_version :=
               (if ''TLSv1.2'' \<in> set args then Tls12 else Tls13)\<rparr>)) st, r))
      else if w = ''location'' then
        (if MAX_LOCATION_BLOCKS \<le> ss_loc_count st then Inl Too_Many_Locations
         else and_then (parse_location env ts) (\<lambda>(loc, r).
              Inr ((on_srv (\<lambda>s. s\<lparr>srv_locations := srv_locations s @ [loc]\<rparr>) st)
                   \<lparr>ss_loc_count := ss_loc_count st + 1\<rparr>, r)))
      else https_directive w ts st)"

lemma server_directive_consumes:
  "res_sat (server_directive env w ts st) (\<lambda>(st', r). length r \<le> length ts)"
  unfolding server_directive_def https_directive_def
  by (intro sat_rules) (simp_all add: skip_unknown_length)

function server_loop :: "conf_env \<Rightarrow> token list \<Rightarrow> server_state \<Rightarrow> conf_error + (server_state \<times> token list)" where
  "server_loop env ts st =
     (case ts of
        [] \<Rightarrow> Inr (st, [])
      | CloseBrace # r \<Rightarrow> Inr (st, r)
      | Word w # r \<Rightarrow> and_then (server_directive env w r st) (\<lambda>(st, r). server_loop env r st)
      | _ \<Rightarrow> Inl Unexpected_Server_Token)"
  by pat_completeness auto
termination
  by (relation "measure (\<lambda>(env, ts, st). length ts)")
     (auto dest: res_satD [OF server_directive_consumes])

declare server_loop.simps [simp del]

definition parse_server_block :: "conf_env \<Rightarrow> token list \<Rightarrow> conf_error + (server_block \<times> token list)" where
  "parse_server_block env ts =
     and_then (server_loop env ts \<lparr>ss_srv = empty_server, ss_loc_count = 0\<rparr>) (\<lambda>(st, r).
     Inr (ss_srv st, r))"

section \<open>The invariant of a server\<close>

definition server_ok :: "server_block \<Rightarrow> bool" where
  "server_ok srv \<longleftrightarrow>
     list_all location_ok (srv_locations srv) \<and> length (srv_locations srv) \<le> MAX_LOCATION_BLOCKS
     \<and> root_ok (srv_root srv) \<and> body_limit_ok (srv_client_max_body_size srv)"

definition server_state_ok :: "server_state \<Rightarrow> bool" where
  "server_state_ok st \<longleftrightarrow> server_ok (ss_srv st) \<and> ss_loc_count st = length (srv_locations (ss_srv st))"

text \<open>A change to the fields the invariant does not read keeps it.\<close>

lemma on_srv_ok:
  assumes "server_state_ok st"
    and "\<And>s. srv_locations (f s) = srv_locations s" "\<And>s. srv_root (f s) = srv_root s"
    and "\<And>s. srv_client_max_body_size (f s) = srv_client_max_body_size s"
  shows "server_state_ok (on_srv f st)"
  using assms by (simp add: server_state_ok_def server_ok_def on_srv_def)

lemma server_directive_ok:
  assumes "server_state_ok st"
  shows "res_sat (server_directive env w ts st) (\<lambda>(st', r). server_state_ok st')"
  unfolding server_directive_def https_directive_def
  apply (intro sat_rules)
  apply (use assms in \<open>simp_all add: on_srv_ok set_user_file_def add_error_page_def on_tls_def Let_def\<close>)
  apply (simp_all add: server_state_ok_def server_ok_def on_srv_def root_ok_def body_limit_ok_def)
  done

interpretation server_block: block_parser "server_directive env" "server_loop env" server_state_ok for env
proof unfold_locales
  fix t :: token and ts s
  assume "t = Semicolon \<or> t = OpenBrace"
  then show "(\<exists>e. server_loop env (t # ts) s = Inl e) \<or> server_loop env (t # ts) s = server_loop env ts s"
    by (auto simp: server_loop.simps [of env "t # ts"])
qed (simp_all add: server_directive_consumes server_directive_ok server_loop.simps)

lemma empty_server_ok: "server_state_ok \<lparr>ss_srv = empty_server, ss_loc_count = 0\<rparr>"
  by (simp add: server_state_ok_def server_ok_def empty_server_def root_ok_def body_limit_ok_def)

lemma sat_server_loop [sat_rules]:
  "server_state_ok st \<Longrightarrow> (\<And>st' r. server_state_ok st' \<Longrightarrow> length r \<le> length ts \<Longrightarrow> P (st', r))
   \<Longrightarrow> res_sat (server_loop env ts st) P"
  by (rule res_sat_mono [OF server_block.loop_inv]) auto

lemma sat_parse_server_block [sat_rules]:
  "(\<And>srv r. server_ok srv \<Longrightarrow> length r \<le> length ts \<Longrightarrow> P (srv, r)) \<Longrightarrow> res_sat (parse_server_block env ts) P"
  unfolding parse_server_block_def
  by (intro sat_rules empty_server_ok) (auto simp: server_state_ok_def)

lemma parse_server_block_length: "parse_server_block env ts = Inr (srv, r) \<Longrightarrow> length r \<le> length ts"
proof -
  have "res_sat (parse_server_block env ts) (\<lambda>(s, q). length q \<le> length ts)"
    by (intro sat_rules) simp
  then show "parse_server_block env ts = Inr (srv, r) \<Longrightarrow> length r \<le> length ts"
    by (auto dest: res_satD)
qed

end
