(* ===== verification/Sites.thy ===== *)
theory Sites
  imports Host_Env Rust_Json Conf_Server "HOL-Library.AList" "HOL-Library.List_Lexorder" "HOL-Library.Char_ord"
begin

text \<open>
  Site provisioning, \<open>src/api/sites.rs\<close>: the request, the validation, the files and commands of every
  kind of site, the configuration text and the certificates, listing and deleting. Every operation
  is a \<open>host\<close> operation of \<open>Host_Env\<close>; the JSON library, the clock and the random bytes are parameters.
  The configuration path is taken to be valid text.
\<close>

section \<open>Data\<close>

datatype site_type = Site_Static | Site_Php | Site_Wordpress | Site_Proxy
datatype ssl_mode = Ssl_None | Ssl_LetsEncrypt | Ssl_Custom | Ssl_Cloudflare

record site_request =
  sr_domain :: string
  sr_site_type :: site_type
  sr_php_version :: "string option"
  sr_upstream_url :: "string option"
  sr_db_host :: "string option"
  sr_db_port :: "nat option"
  sr_db_root_user :: "string option"
  sr_db_root_pass :: "string option"
  sr_db_name :: "string option"
  sr_db_user :: "string option"
  sr_db_pass :: "string option"
  sr_ssl_mode :: ssl_mode
  sr_ssl_email :: "string option"
  sr_ssl_cert :: "string option"
  sr_ssl_key :: "string option"
  sr_cloudflare :: bool

text \<open>\<open>si_random tr i n\<close>: the \<open>n\<close> bytes the \<open>i\<close>-th call leaves in its buffer, zeros when the source
  cannot be opened.\<close>

record site_env =
  si_host :: host_env
  si_json :: json_lib
  si_now :: "trace \<Rightarrow> nat"
  si_random :: "trace \<Rightarrow> nat \<Rightarrow> nat \<Rightarrow> string"
  si_is_dir :: "trace \<Rightarrow> string \<Rightarrow> bool"

fun site_type_as_str :: "site_type \<Rightarrow> string" where
  "site_type_as_str Site_Static = ''static''"
| "site_type_as_str Site_Php = ''php''"
| "site_type_as_str Site_Wordpress = ''wordpress''"
| "site_type_as_str Site_Proxy = ''proxy''"

definition site_type_from_str :: "string \<Rightarrow> site_type option" where
  "site_type_from_str s =
     (if s = ''static'' then Some Site_Static
      else if s = ''php'' then Some Site_Php
      else if s = ''wordpress'' then Some Site_Wordpress
      else if s = ''proxy'' then Some Site_Proxy
      else None)"

definition ssl_mode_from_str :: "string \<Rightarrow> ssl_mode" where
  "ssl_mode_from_str s =
     (if s = ''letsencrypt'' then Ssl_LetsEncrypt
      else if s = ''custom'' then Ssl_Custom
      else if s = ''cloudflare'' then Ssl_Cloudflare
      else Ssl_None)"

fun ssl_mode_text :: "ssl_mode \<Rightarrow> string" where
  "ssl_mode_text Ssl_None = ''none''"
| "ssl_mode_text Ssl_LetsEncrypt = ''letsencrypt''"
| "ssl_mode_text Ssl_Custom = ''custom''"
| "ssl_mode_text Ssl_Cloudflare = ''cloudflare''"

section \<open>Validation\<close>

definition is_valid_domain :: "string \<Rightarrow> bool" where
  "is_valid_domain domain \<longleftrightarrow>
     \<not> (domain = [] \<or> 253 < length domain)
     \<and> list_all (\<lambda>c. is_ascii_alphanumeric c \<or> c = CHR ''-'' \<or> c = CHR ''.'') domain
     \<and> \<not> starts_with domain ''.'' \<and> \<not> ends_with domain ''.'' \<and> \<not> str_contains domain ''..''"

definition php_version_ok :: "string \<Rightarrow> bool" where
  "php_version_ok ver \<longleftrightarrow> length ver \<le> 8 \<and> list_all (\<lambda>c. is_ascii_digit c \<or> c = CHR ''.'') ver"

definition site_upstream_ok :: "string \<Rightarrow> bool" where
  "site_upstream_ok url \<longleftrightarrow>
     (starts_with url ''http://'' \<or> starts_with url ''https://'') \<and> length url \<le> 512
     \<and> \<not> list_ex (\<lambda>b. b = LF \<or> b = CR \<or> b = CHR '' '' \<or> b = CHR '';'' \<or> b = CHR ''{'' \<or> b = CHR ''}'' \<or> b = HASH) url"

definition ok_ident :: "string \<Rightarrow> bool" where
  "ok_ident s \<longleftrightarrow>
     s \<noteq> [] \<and> length s \<le> 64 \<and> list_all (\<lambda>c. is_ascii_alphanumeric c \<or> c = CHR ''_'' \<or> c = CHR ''-'') s"

definition json_error :: "string \<Rightarrow> json" where
  "json_error e = JObj [(''error'', JStr e)]"

definition json_opt :: "string option \<Rightarrow> json" where
  "json_opt m = (case m of None \<Rightarrow> JNull | Some s \<Rightarrow> JStr s)"

section \<open>Helpers\<close>

definition or_default :: "'a \<Rightarrow> 'a option \<Rightarrow> 'a" where
  "or_default d m = (case m of None \<Rightarrow> d | Some x \<Rightarrow> x)"

definition config_dir_of :: "string \<Rightarrow> string" where
  "config_dir_of config_path = or_default ''/etc/runnginx'' (path_parent config_path)"

definition is_php_socket :: "string \<Rightarrow> bool" where
  "is_php_socket name \<longleftrightarrow> starts_with name ''php'' \<and> ends_with name ''-fpm.sock''"

definition dir_names :: "site_env \<Rightarrow> trace \<Rightarrow> string \<Rightarrow> string list" where
  "dir_names env tr dir = map from_utf8_lossy (or_default [] (he_list_dir (si_host env) tr dir))"

definition detect_php_socket :: "site_env \<Rightarrow> trace \<Rightarrow> string option" where
  "detect_php_socket env tr =
     (case concat (map (\<lambda>dir. map (\<lambda>name. dir @ ''/'' @ name) (filter is_php_socket (dir_names env tr dir)))
             [''/run/php'', ''/var/run/php'']) of
        [] \<Rightarrow> None
      | socket # _ \<Rightarrow> Some socket)"

definition php_socket_for :: "site_env \<Rightarrow> string option \<Rightarrow> trace \<Rightarrow> string" where
  "php_socket_for env version tr =
     (case version of
        Some ver \<Rightarrow>
          or_default (''/run/php/php'' @ ver @ ''-fpm.sock'')
            (find (he_exists (si_host env) tr)
               [''/run/php/php'' @ ver @ ''-fpm.sock'', ''/var/run/php/php'' @ ver @ ''-fpm.sock'',
                ''/run/php'' @ ver @ ''/php'' @ ver @ ''-fpm.sock''])
      | None \<Rightarrow> or_default ''/run/php/php8.2-fpm.sock'' (detect_php_socket env tr))"

definition rand_hex :: "site_env \<Rightarrow> trace \<Rightarrow> nat \<Rightarrow> nat \<Rightarrow> string" where
  "rand_hex env tr i len = take len (hex_bytes (si_random env tr i ((len + 1) div 2)))"

text \<open>The lookups and calls the operations make.\<close>

definition exists_then :: "site_env \<Rightarrow> string \<Rightarrow> (bool \<Rightarrow> 'a host) \<Rightarrow> 'a host" where
  "exists_then env p f = host_then (host_get (\<lambda>tr. he_exists (si_host env) tr p)) f"

abbreviation do_effect :: "site_env \<Rightarrow> effect \<Rightarrow> unit host" where
  "do_effect env \<equiv> host_do (si_host env)"

abbreviation command :: "site_env \<Rightarrow> string \<Rightarrow> string list \<Rightarrow> (bool \<times> string \<times> string) host" where
  "command env \<equiv> host_run (si_host env)"

section \<open>Setup by kind of site\<close>

definition setup_static :: "site_env \<Rightarrow> site_request \<Rightarrow> string \<Rightarrow> unit host" where
  "setup_static env req webroot =
     (let index = path_join webroot ''index.html''
      in exists_then env index (\<lambda>ex.
         if ex then host_ok ()
         else do_effect env (Write_File index
           (''<!DOCTYPE html><html><head><meta charset='UTF-8'><title>Welcome to '' @ sr_domain req @ ''</title></head>''
            @ ''<body style='font-family:sans-serif;max-width:600px;margin:80px auto;text-align:center'>''
            @ ''<h1>Welcome to '' @ sr_domain req @ ''</h1><p>Your site is up and running on RunNginx.</p></body></html>''))))"

definition setup_php :: "site_env \<Rightarrow> string \<Rightarrow> unit host" where
  "setup_php env webroot =
     (let index = path_join webroot ''index.php''
      in exists_then env index (\<lambda>ex.
         if ex then host_ok ()
         else do_effect env (Write_File index (''<?php'' @ [LF] @ ''phpinfo();'' @ [LF]))))"

abbreviation SQ :: string where "SQ \<equiv> [SQUOTE]"

text \<open>The statements passed to \<open>mysql\<close>: the password as it came.\<close>

definition mysql_statements :: "string \<Rightarrow> string \<Rightarrow> string \<Rightarrow> string" where
  "mysql_statements db_name db_user db_pass =
     ''CREATE DATABASE IF NOT EXISTS `'' @ db_name @ ''`; ''
     @ ''CREATE USER IF NOT EXISTS '' @ SQ @ db_user @ SQ @ ''@'' @ SQ @ ''localhost'' @ SQ @ '' IDENTIFIED BY '' @ SQ @ db_pass @ SQ @ ''; ''
     @ ''GRANT ALL PRIVILEGES ON `'' @ db_name @ ''`.* TO '' @ SQ @ db_user @ SQ @ ''@'' @ SQ @ ''localhost'' @ SQ @ ''; ''
     @ ''FLUSH PRIVILEGES;''"

definition mysql_args :: "site_request \<Rightarrow> string \<Rightarrow> string \<Rightarrow> string \<Rightarrow> string list" where
  "mysql_args req db_name db_user db_pass =
     (let root_pass = or_default [] (sr_db_root_pass req)
      in [''-h'' @ or_default ''localhost'' (sr_db_host req), ''-P'' @ show_nat (or_default 3306 (sr_db_port req)),
          ''-u'' @ or_default ''root'' (sr_db_root_user req)]
         @ (if root_pass \<noteq> [] then [''-p'' @ root_pass] else [])
         @ [''-e'', mysql_statements db_name db_user db_pass])"

definition php_escape :: "string \<Rightarrow> string" where
  "php_escape s = str_replace SQ (BACKSLASH # SQ) (str_replace [BACKSLASH] [BACKSLASH, BACKSLASH] s)"

definition wp_keys :: "string list" where
  "wp_keys = [''AUTH_KEY'', ''SECURE_AUTH_KEY'', ''LOGGED_IN_KEY'', ''NONCE_KEY'',
              ''AUTH_SALT'', ''SECURE_AUTH_SALT'', ''LOGGED_IN_SALT'', ''NONCE_SALT'']"

definition wp_key_line :: "string \<Rightarrow> string \<Rightarrow> string" where
  "wp_key_line k v = ''define( '' @ SQ @ k @ SQ @ '', '' @ SQ @ v @ SQ @ '' );''"

definition wp_config :: "site_env \<Rightarrow> site_request \<Rightarrow> string \<Rightarrow> string \<Rightarrow> string \<Rightarrow> trace \<Rightarrow> string \<Rightarrow> string" where
  "wp_config env req db_name db_user db_pass tr sample =
     fold (\<lambda>(i, k). str_replace (wp_key_line k ''put your unique phrase here'') (wp_key_line k (rand_hex env tr i 64)))
       (enumerate 0 wp_keys)
       (str_replace ''localhost'' (or_default ''localhost'' (sr_db_host req))
         (str_replace ''password_here'' (php_escape db_pass)
           (str_replace ''username_here'' db_user
             (str_replace ''database_name_here'' db_name sample))))"

definition setup_database :: "site_env \<Rightarrow> site_request \<Rightarrow> string \<Rightarrow> string \<Rightarrow> string \<Rightarrow> string \<Rightarrow> unit host" where
  "setup_database env req webroot db_name db_user db_pass =
     (if \<not> ok_ident db_name \<or> \<not> ok_ident db_user
      then host_err ''Invalid db_name or db_user: only alphanumeric, _ and - allowed''
      else
        host_then (host_map_err (\<lambda>e. ''mysql command failed: '' @ e)
          (command env ''mysql'' (mysql_args req db_name db_user db_pass))) (\<lambda>_.
        let sample = path_join webroot ''wp-config-sample.php'';
            config_php = path_join webroot ''wp-config.php''
        in exists_then env sample (\<lambda>has_sample. exists_then env config_php (\<lambda>has_config.
           if has_sample \<and> \<not> has_config then
             host_then (host_get (\<lambda>tr. wp_config env req db_name db_user db_pass tr
                 (or_default [] (he_read (si_host env) tr sample)))) (\<lambda>content.
             do_effect env (Write_File config_php content))
           else host_ok ()))))"

definition WP_ARCHIVE :: string where
  "WP_ARCHIVE = ''/tmp/wordpress-latest.tar.gz''"

definition download_wordpress :: "site_env \<Rightarrow> unit host" where
  "download_wordpress env =
     exists_then env WP_ARCHIVE (\<lambda>ex.
     if ex then host_ok ()
     else
       host_then (host_map_err (\<lambda>e. ''wget failed: '' @ e)
         (command env ''wget'' [''-q'', ''-O'', WP_ARCHIVE, ''https://wordpress.org/latest.tar.gz''])) (\<lambda>(success, _).
       if success then host_ok () else host_err ''Failed to download WordPress''))"

text \<open>The exit status of \<open>tar\<close>, \<open>cp\<close> and \<open>mysql\<close> is not looked at.\<close>

definition extract_wordpress :: "site_env \<Rightarrow> string \<Rightarrow> unit host" where
  "extract_wordpress env webroot =
     (let extract_dir = path_join (the (path_parent webroot)) ''wp_extract_tmp'';
          wp_dir = path_join extract_dir ''wordpress''
      in host_then (host_ignore (do_effect env (Remove_Dir_All extract_dir))) (\<lambda>_.
         host_then (do_effect env (Create_Dir_All extract_dir)) (\<lambda>_.
         host_then (host_map_err (\<lambda>e. ''tar failed: '' @ e)
           (command env ''tar'' [''-xzf'', WP_ARCHIVE, ''-C'', extract_dir])) (\<lambda>_.
         host_then (command env ''cp'' [''-a'', wp_dir @ ''/.'', webroot]) (\<lambda>_.
         host_ignore (do_effect env (Remove_Dir_All extract_dir)))))))"

definition set_permissions :: "site_env \<Rightarrow> string \<Rightarrow> unit host" where
  "set_permissions env webroot =
     host_then (host_ignore (command env ''chown'' [''-R'', ''www-data:www-data'', webroot])) (\<lambda>_.
     host_then (host_ignore (command env ''chmod'' [''-R'', ''755'', webroot])) (\<lambda>_.
     let wp_config_file = path_join webroot ''wp-config.php''
     in exists_then env wp_config_file (\<lambda>ex.
        if ex then host_ignore (command env ''chmod'' [''640'', wp_config_file]) else host_ok ())))"

definition setup_wordpress :: "site_env \<Rightarrow> site_request \<Rightarrow> string \<Rightarrow> unit host" where
  "setup_wordpress env req webroot =
     host_then (download_wordpress env) (\<lambda>_.
     host_then (extract_wordpress env webroot) (\<lambda>_.
     host_then (case (sr_db_name req, sr_db_user req, sr_db_pass req) of
          (Some db_name, Some db_user, Some db_pass) \<Rightarrow> setup_database env req webroot db_name db_user db_pass
        | _ \<Rightarrow> host_ok ()) (\<lambda>_.
     set_permissions env webroot)))"

section \<open>The configuration text\<close>

definition NL :: string where "NL = [LF]"

definition real_ip_line :: "site_request \<Rightarrow> string" where
  "real_ip_line req = (if sr_cloudflare req then ''    real_ip_header CF-Connecting-IP;'' @ NL else [])"

definition server_open :: "site_request \<Rightarrow> string" where
  "server_open req =
     ''server {'' @ NL @ ''    listen 80;'' @ NL @ ''    server_name '' @ sr_domain req @ '';'' @ NL"

definition root_and_index :: "string \<Rightarrow> string \<Rightarrow> string" where
  "root_and_index webroot index =
     ''    root '' @ webroot @ '';'' @ NL @ ''    index '' @ index @ '';'' @ NL"

definition try_files_block :: "string \<Rightarrow> string" where
  "try_files_block last_entry =
     ''location / {'' @ NL @ ''        try_files $uri $uri/ '' @ last_entry @ '';'' @ NL @ ''    }'' @ NL"

definition php_block :: "string \<Rightarrow> string" where
  "php_block php_socket =
     ''location ~ '' @ [BACKSLASH] @ ''.php$ {'' @ NL @ ''        fastcgi_pass unix:'' @ php_socket @ '';'' @ NL
     @ ''        fastcgi_index index.php;'' @ NL @ ''    }'' @ NL"

definition proxy_block :: "string \<Rightarrow> string" where
  "proxy_block upstream =
     ''location / {'' @ NL @ ''        proxy_pass '' @ upstream @ '';'' @ NL
     @ ''        proxy_set_header Host $host;'' @ NL
     @ ''        proxy_set_header X-Real-IP $remote_addr;'' @ NL
     @ ''        proxy_set_header X-Forwarded-For $proxy_add_x_forwarded_for;'' @ NL
     @ ''        proxy_set_header X-Forwarded-Proto $scheme;'' @ NL @ ''    }'' @ NL"

definition static_block :: "string \<Rightarrow> string" where
  "static_block pattern =
     ''location ~* '' @ pattern @ '' {'' @ NL @ ''        expires max;'' @ NL @ ''    }'' @ NL"

fun http_site_block :: "site_type \<Rightarrow> site_request \<Rightarrow> string \<Rightarrow> string \<Rightarrow> string" where
  "http_site_block Site_Static req webroot php_socket =
     server_open req @ root_and_index webroot ''index.html index.htm'' @ real_ip_line req
     @ try_files_block ''=404'' @ ''}'' @ NL"
| "http_site_block Site_Php req webroot php_socket =
     server_open req @ root_and_index webroot ''index.php index.html'' @ real_ip_line req
     @ try_files_block ''=404'' @ php_block php_socket @ ''}'' @ NL"
| "http_site_block Site_Wordpress req webroot php_socket =
     server_open req @ root_and_index webroot ''index.php'' @ real_ip_line req
     @ try_files_block ''/index.php?$args'' @ php_block php_socket
     @ static_block (BACKSLASH # ''.(js|css|png|jpg|jpeg|gif|ico|svg|woff2?)$'') @ ''}'' @ NL"
| "http_site_block Site_Proxy req webroot php_socket =
     server_open req @ real_ip_line req
     @ proxy_block (or_default ''http://127.0.0.1:8080'' (sr_upstream_url req)) @ ''}'' @ NL"

definition generate_config :: "site_request \<Rightarrow> string \<Rightarrow> string \<Rightarrow> string" where
  "generate_config req webroot php_socket =
     (let http_block = http_site_block (sr_site_type req) req webroot php_socket
      in if sr_ssl_mode req \<noteq> Ssl_None then
           http_block @ NL @ server_open req
           @ ''    return 301 https://'' @ sr_domain req @ ''$request_uri;'' @ NL @ ''}'' @ NL
         else http_block)"

section \<open>Certificates\<close>

definition tls_server_text :: "string \<Rightarrow> string \<Rightarrow> string \<Rightarrow> string" where
  "tls_server_text domain cert key =
     NL @ ''server {'' @ NL @ ''    listen 443 ssl;'' @ NL @ ''    ssl_certificate '' @ cert @ '';'' @ NL
     @ ''    ssl_certificate_key '' @ key @ '';'' @ NL @ ''    server_name '' @ domain @ '';'' @ NL
     @ ''    # Location blocks copied from HTTP server'' @ NL @ ''}'' @ NL"

definition append_tls_block :: "site_env \<Rightarrow> string \<Rightarrow> string \<Rightarrow> string \<Rightarrow> string \<Rightarrow> unit host" where
  "append_tls_block env conf_path domain cert key =
     host_then (host_get (\<lambda>tr. or_default [] (he_read (si_host env) tr conf_path))) (\<lambda>existing.
     do_effect env (Write_File conf_path (existing @ NL @ tls_server_text domain cert key)))"

definition configure_letsencrypt :: "site_env \<Rightarrow> site_request \<Rightarrow> string \<Rightarrow> unit host" where
  "configure_letsencrypt env req conf_path =
     host_then (host_map_err (\<lambda>e. ''certbot not found: '' @ e)
       (command env ''certbot'' [''certonly'', ''--webroot'', ''--webroot-path'',
          ''/var/www/'' @ sr_domain req @ ''/public'', ''-d'', sr_domain req, ''--non-interactive'', ''--agree-tos'',
          ''-m'', or_default ''admin@localhost'' (sr_ssl_email req)])) (\<lambda>(success, _, err).
     if \<not> success then host_err (''certbot failed: '' @ from_utf8_lossy err)
     else append_tls_block env conf_path (sr_domain req)
       (''/etc/letsencrypt/live/'' @ sr_domain req @ ''/fullchain.pem'')
       (''/etc/letsencrypt/live/'' @ sr_domain req @ ''/privkey.pem''))"

definition write_if :: "site_env \<Rightarrow> string \<Rightarrow> string option \<Rightarrow> unit host" where
  "write_if env path m = (case m of None \<Rightarrow> host_ok () | Some c \<Rightarrow> do_effect env (Write_File path c))"

definition configure_custom_cert :: "site_env \<Rightarrow> site_request \<Rightarrow> string \<Rightarrow> string \<Rightarrow> unit host" where
  "configure_custom_cert env req conf_path config_dir =
     (let ssl_dir = path_join (path_join config_dir ''ssl'') (sr_domain req);
          cert_path = path_join ssl_dir ''cert.pem'';
          key_path = path_join ssl_dir ''key.pem''
      in host_then (do_effect env (Create_Dir_All ssl_dir)) (\<lambda>_.
         host_then (write_if env cert_path (sr_ssl_cert req)) (\<lambda>_.
         host_then (write_if env key_path (sr_ssl_key req)) (\<lambda>_.
         exists_then env cert_path (\<lambda>has_cert. exists_then env key_path (\<lambda>has_key.
         if has_cert \<and> has_key then append_tls_block env conf_path (sr_domain req) cert_path key_path
         else host_ok ()))))))"

definition configure_cloudflare :: "site_env \<Rightarrow> site_request \<Rightarrow> string \<Rightarrow> string \<Rightarrow> unit host" where
  "configure_cloudflare env req conf_path config_dir = configure_custom_cert env req conf_path config_dir"

definition configure_ssl :: "site_env \<Rightarrow> site_request \<Rightarrow> string \<Rightarrow> string \<Rightarrow> unit host" where
  "configure_ssl env req conf_path config_dir =
     (case sr_ssl_mode req of
        Ssl_None \<Rightarrow> host_ok ()
      | Ssl_LetsEncrypt \<Rightarrow> configure_letsencrypt env req conf_path
      | Ssl_Custom \<Rightarrow> configure_custom_cert env req conf_path config_dir
      | Ssl_Cloudflare \<Rightarrow> configure_cloudflare env req conf_path config_dir)"

section \<open>Creating\<close>

definition site_webroot :: "string \<Rightarrow> string" where
  "site_webroot domain = path_join (path_join ''/var/www'' domain) ''public''"

text \<open>The answer when a directory cannot be created names the first one that failed.\<close>

fun create_dirs :: "site_env \<Rightarrow> string list \<Rightarrow> unit host" where
  "create_dirs env [] = host_ok ()"
| "create_dirs env (dir # dirs) =
     host_then (host_map_err (\<lambda>e. ''Cannot create directory '' @ dir @ '': '' @ e) (do_effect env (Create_Dir_All dir)))
       (\<lambda>_. create_dirs env dirs)"

definition site_setup :: "site_env \<Rightarrow> site_request \<Rightarrow> string \<Rightarrow> unit host" where
  "site_setup env req webroot =
     (case sr_site_type req of
        Site_Static \<Rightarrow> setup_static env req webroot
      | Site_Php \<Rightarrow> setup_php env webroot
      | Site_Wordpress \<Rightarrow> setup_wordpress env req webroot
      | Site_Proxy \<Rightarrow> host_ok ())"

definition site_meta :: "site_request \<Rightarrow> string \<Rightarrow> nat \<Rightarrow> json" where
  "site_meta req webroot now =
     JObj [(''domain'', JStr (sr_domain req)), (''type'', JStr (site_type_as_str (sr_site_type req))),
           (''webroot'', JStr webroot), (''php_version'', json_opt (sr_php_version req)),
           (''ssl_mode'', JStr (ssl_mode_text (sr_ssl_mode req))), (''created_at'', JNum (Some now))]"

definition site_created :: "site_request \<Rightarrow> string \<Rightarrow> json" where
  "site_created req webroot =
     JObj [(''ok'', JBool True), (''domain'', JStr (sr_domain req)), (''webroot'', JStr webroot),
           (''type'', JStr (site_type_as_str (sr_site_type req)))]"

definition provision_site :: "site_env \<Rightarrow> site_request \<Rightarrow> string \<Rightarrow> json host" where
  "provision_site env req config_dir =
     (let webroot = site_webroot (sr_domain req);
          sites_enabled = path_join config_dir ''sites-enabled'';
          site_meta_dir = path_join (path_join config_dir ''sites'') (sr_domain req);
          conf_path = path_join sites_enabled (sr_domain req @ ''.conf'')
      in host_then (create_dirs env [sites_enabled, site_meta_dir, webroot]) (\<lambda>_.
         host_then (host_get (php_socket_for env (sr_php_version req))) (\<lambda>php_socket.
         host_then (site_setup env req webroot) (\<lambda>_.
         host_then (host_map_err (\<lambda>e. ''Cannot write config: '' @ e)
           (do_effect env (Write_File conf_path (generate_config req webroot php_socket)))) (\<lambda>_.
         host_then (host_ignore (configure_ssl env req conf_path config_dir)) (\<lambda>_.
         host_then (host_get (si_now env)) (\<lambda>now.
         host_then (host_ignore (do_effect env
           (Write_File (path_join site_meta_dir ''meta.json'') (js_print (si_json env) (site_meta req webroot now))))) (\<lambda>_.
         host_ok (site_created req webroot)))))))))"

definition site_request_error :: "site_request \<Rightarrow> string option" where
  "site_request_error req =
     (if \<not> is_valid_domain (sr_domain req) then Some ''Invalid domain name''
      else if \<not> (case sr_php_version req of None \<Rightarrow> True | Some ver \<Rightarrow> php_version_ok ver) then Some ''Invalid php_version format''
      else if \<not> (case sr_upstream_url req of None \<Rightarrow> True | Some url \<Rightarrow> site_upstream_ok url) then Some ''Invalid upstream_url''
      else None)"

text \<open>\<open>create_site\<close>: an error is the answer, and stops what is left.\<close>

definition create_site :: "site_env \<Rightarrow> site_request \<Rightarrow> string \<Rightarrow> json host" where
  "create_site env req config_path =
     (case site_request_error req of
        Some e \<Rightarrow> host_ok (json_error e)
      | None \<Rightarrow>
          host_then (host_try (provision_site env req (config_dir_of config_path))) (\<lambda>r.
          host_ok (case r of Inl e \<Rightarrow> json_error e | Inr v \<Rightarrow> v)))"

section \<open>Deleting and listing\<close>

definition delete_site :: "site_env \<Rightarrow> string \<Rightarrow> string \<Rightarrow> bool \<Rightarrow> json host" where
  "delete_site env domain config_path delete_files =
     (if \<not> is_valid_domain domain then host_ok (json_error ''Invalid domain'')
      else
        let config_dir = config_dir_of config_path
        in host_then (host_ignore (do_effect env
             (Remove_File (path_join (path_join config_dir ''sites-enabled'') (domain @ ''.conf''))))) (\<lambda>_.
           host_then (host_ignore (do_effect env (Remove_Dir_All (path_join (path_join config_dir ''sites'') domain)))) (\<lambda>_.
           host_then (if delete_files then host_ignore (do_effect env (Remove_Dir_All (path_join ''/var/www'' domain)))
                      else host_ok ()) (\<lambda>_.
           host_ok (JObj [(''ok'', JBool True), (''domain'', JStr domain)])))))"

definition ssl_status_json :: "bool \<Rightarrow> string option \<Rightarrow> json" where
  "ssl_status_json active expires_at = JObj [(''active'', JBool active), (''expires_at'', json_opt expires_at)]"

definition parse_enddate :: "string \<Rightarrow> string option" where
  "parse_enddate out =
     (case strip_prefix (str_trim (from_utf8_lossy out)) ''notAfter='' of
        None \<Rightarrow> None | Some d \<Rightarrow> Some (str_trim d))"

definition ssl_status_for :: "site_env \<Rightarrow> string \<Rightarrow> string \<Rightarrow> json host" where
  "ssl_status_for env domain config_dir =
     (let le_cert = ''/etc/letsencrypt/live/'' @ domain @ ''/fullchain.pem'';
          custom_cert = path_join (path_join (path_join config_dir ''ssl'') domain) ''cert.pem'';
          status_of = (\<lambda>cert_path.
            host_then (host_try (command env ''openssl'' [''x509'', ''-noout'', ''-enddate'', ''-in'', cert_path])) (\<lambda>out.
            host_ok (ssl_status_json True
              (case out of Inr (True, stdout, _) \<Rightarrow> parse_enddate stdout | _ \<Rightarrow> None))))
      in exists_then env le_cert (\<lambda>ex.
         if ex then status_of le_cert
         else exists_then env custom_cert (\<lambda>ex.
           if ex then status_of custom_cert else host_ok (ssl_status_json False None))))"

function trim_end_str :: "string \<Rightarrow> string \<Rightarrow> string" where
  "trim_end_str suffix s =
     (if suffix \<noteq> [] \<and> ends_with s suffix then trim_end_str suffix (take (length s - length suffix) s) else s)"
  by pat_completeness auto
termination
  by (relation "measure (\<lambda>(suffix, s). length s)") (auto simp: ends_with_iff)

declare trim_end_str.simps [simp del]

definition site_entry :: "site_env \<Rightarrow> string \<Rightarrow> string \<Rightarrow> json host" where
  "site_entry env config_dir fname =
     (let domain = trim_end_str ''.conf'' (from_utf8_lossy fname);
          meta_path = path_join (path_join (path_join config_dir ''sites'') domain) ''meta.json''
      in host_then (host_get (\<lambda>tr.
           case (case he_read (si_host env) tr meta_path of None \<Rightarrow> None | Some src \<Rightarrow> js_parse (si_json env) src) of
             Some v \<Rightarrow> v
           | None \<Rightarrow> JObj [(''domain'', JStr domain), (''type'', JStr ''unknown'')])) (\<lambda>meta.
         host_then (ssl_status_for env domain config_dir) (\<lambda>ssl_status.
         host_ok (case meta of JObj m \<Rightarrow> JObj (AList.update ''ssl_status'' ssl_status m) | _ \<Rightarrow> meta))))"

fun host_collect :: "('a \<Rightarrow> 'b host) \<Rightarrow> 'a list \<Rightarrow> 'b list host" where
  "host_collect f [] = host_ok []"
| "host_collect f (x # xs) = host_then (f x) (\<lambda>y. host_then (host_collect f xs) (\<lambda>ys. host_ok (y # ys)))"

definition list_sites :: "site_env \<Rightarrow> string \<Rightarrow> json host" where
  "list_sites env config_path =
     (let config_dir = config_dir_of config_path;
          sites_enabled = path_join config_dir ''sites-enabled''
      in host_then (host_get (\<lambda>tr. he_list_dir (si_host env) tr sites_enabled)) (\<lambda>entries.
         case entries of
           None \<Rightarrow> host_ok (JArr [])
         | Some names \<Rightarrow>
             host_then (host_collect (site_entry env config_dir)
               (filter (\<lambda>n. path_extension (path_join sites_enabled n) = Some ''conf'') names)) (\<lambda>sites.
             host_ok (JArr (sort_key (\<lambda>v. str_field v ''domain'' []) sites)))))"

definition socket_version :: "string \<Rightarrow> string" where
  "socket_version name = trim_end_str ''-fpm.sock'' (trim_start_str ''php'' name)"

definition list_php_versions :: "site_env \<Rightarrow> json host" where
  "list_php_versions env =
     host_then (host_get (\<lambda>tr.
       filter (\<lambda>v. v \<noteq> []) (map socket_version (filter is_php_socket
         (dir_names env tr ''/run/php'' @ dir_names env tr ''/var/run/php'')))
       @ filter (\<lambda>v. v \<noteq> [] \<and> is_ascii_digit (hd v))
           (map from_utf8_lossy (filter (\<lambda>n. si_is_dir env tr (path_join ''/etc/php'' n))
              (or_default [] (he_list_dir (si_host env) tr ''/etc/php'')))))) (\<lambda>found.
     host_then (host_try (command env ''sh'' [''-c'', ''php -r '' @ SQ @ ''echo PHP_MAJOR_VERSION.'' @ [DQUOTE] @ ''.'' @ [DQUOTE]
         @ ''.PHP_MINOR_VERSION;'' @ SQ @ '' 2>/dev/null''])) (\<lambda>out.
     let v = (case out of Inl _ \<Rightarrow> [] | Inr (_, stdout, _) \<Rightarrow> str_trim (from_utf8_lossy stdout))
     in host_ok (JArr (map JStr (sort (remdups
          (found @ (if v \<noteq> [] \<and> CHR ''.'' \<in> set v then [v] else []))))))))"

end
