(* ===== verification/Stats.thy ===== *)
theory Stats
  imports Limiter Rust_Net
begin

text \<open>
  The counters and the request limiter of \<open>src/stats/mod.rs\<close>. The relaxed atomics are natural
  numbers modulo \<open>2 ^ 64\<close>; every counter is only read by itself, so a call is one step. A request's
  duration is in microseconds.
\<close>

record stats =
  st_requests_total :: nat
  st_bytes_sent :: nat
  st_bytes_received :: nat
  st_active :: nat
  st_2xx :: nat
  st_3xx :: nat
  st_4xx :: nat
  st_5xx :: nat
  st_latency_buckets :: "nat list"

definition new_stats :: stats where
  "new_stats =
     \<lparr>st_requests_total = 0, st_bytes_sent = 0, st_bytes_received = 0, st_active = 0, st_2xx = 0,
      st_3xx = 0, st_4xx = 0, st_5xx = 0, st_latency_buckets = replicate 32 0\<rparr>"

definition fetch_add :: "nat \<Rightarrow> nat \<Rightarrow> nat" where
  "fetch_add counter n = (counter + n) mod 2 ^ 64"

text \<open>\<open>63 - us.leading_zeros()\<close> is the position of the highest bit set.\<close>

fun highest_bit :: "nat \<Rightarrow> nat" where
  "highest_bit n = (if n \<le> 1 then 0 else Suc (highest_bit (n div 2)))"

declare highest_bit.simps [simp del]

definition latency_bucket :: "nat \<Rightarrow> nat" where
  "latency_bucket us = (if us = 0 then 0 else min (highest_bit us) 31)"

definition record_request :: "nat \<Rightarrow> nat \<Rightarrow> nat \<Rightarrow> nat \<Rightarrow> stats \<Rightarrow> stats" where
  "record_request status bytes_out bytes_in micros s =
     (let s = s\<lparr>st_requests_total := fetch_add (st_requests_total s) 1,
               st_bytes_sent := fetch_add (st_bytes_sent s) bytes_out,
               st_bytes_received := fetch_add (st_bytes_received s) bytes_in\<rparr>;
          s = (if status div 100 = 2 then s\<lparr>st_2xx := fetch_add (st_2xx s) 1\<rparr>
               else if status div 100 = 3 then s\<lparr>st_3xx := fetch_add (st_3xx s) 1\<rparr>
               else if status div 100 = 4 then s\<lparr>st_4xx := fetch_add (st_4xx s) 1\<rparr>
               else if status div 100 = 5 then s\<lparr>st_5xx := fetch_add (st_5xx s) 1\<rparr>
               else s);
          b = latency_bucket (micros mod 2 ^ 64)
      in s\<lparr>st_latency_buckets := (st_latency_buckets s)[b := fetch_add (st_latency_buckets s ! b) 1]\<rparr>)"

text \<open>The loop of \<open>percentile_us\<close> from bucket \<open>i\<close> on.\<close>

fun percentile_scan :: "nat \<Rightarrow> nat \<Rightarrow> nat \<Rightarrow> nat list \<Rightarrow> nat" where
  "percentile_scan target i cumulative [] = 2 ^ 31"
| "percentile_scan target i cumulative (count # counts) =
     (let cumulative = (cumulative + count) mod 2 ^ 64
      in if target \<le> cumulative then (if i = 0 then 0 else 2 ^ (i - 1))
         else percentile_scan target (Suc i) cumulative counts)"

definition percentile_us :: "nat list \<Rightarrow> nat \<Rightarrow> nat \<Rightarrow> nat" where
  "percentile_us buckets tot per_mille_x10 =
     percentile_scan ((tot * per_mille_x10) mod 2 ^ 64 div 1000) 0 0 buckets"

definition latency_percentiles :: "stats \<Rightarrow> nat \<times> nat \<times> nat \<times> nat" where
  "latency_percentiles s =
     (let tot = st_requests_total s; buckets = st_latency_buckets s
      in if tot = 0 then (0, 0, 0, 0)
         else (percentile_us buckets tot 50, percentile_us buckets tot 90,
               percentile_us buckets tot 99, percentile_us buckets tot 999))"

section \<open>The per-client limiter of the API\<close>

record rate_limiter =
  rl_windows :: "ip_addr \<rightharpoonup> nat \<times> nat"
  rl_rps_limit :: nat

definition new_rate_limiter :: "nat \<Rightarrow> rate_limiter" where
  "new_rate_limiter rps = \<lparr>rl_windows = Map.empty, rl_rps_limit = rps\<rparr>"

definition rate_allow :: "nat \<Rightarrow> rate_limiter \<Rightarrow> ip_addr \<Rightarrow> bool \<times> rate_limiter" where
  "rate_allow now_sec rl ip =
     (let (sec, count) = (case rl_windows rl ip of None \<Rightarrow> (now_sec, 0) | Some e \<Rightarrow> e)
      in if sec \<noteq> now_sec then (True, rl\<lparr>rl_windows := (rl_windows rl)(ip \<mapsto> (now_sec, 1))\<rparr>)
         else let count = (count + 1) mod 2 ^ 32
              in (count \<le> rl_rps_limit rl, rl\<lparr>rl_windows := (rl_windows rl)(ip \<mapsto> (sec, count))\<rparr>))"

definition rate_view :: "rate_limiter \<Rightarrow> ip_addr \<Rightarrow> nat \<times> (nat \<times> nat) option" where
  "rate_view rl ip = (rl_rps_limit rl, rl_windows rl ip)"

interpretation api_limiter: per_client_limiter rate_allow rate_view
  by unfold_locales (auto simp: rate_view_def rate_allow_def Let_def split_beta)

section \<open>Counters\<close>

lemma highest_bit_bounds: "0 < n \<Longrightarrow> 2 ^ highest_bit n \<le> n \<and> n < 2 ^ Suc (highest_bit n)"
proof (induction n rule: highest_bit.induct)
  case (1 n)
  show ?case
  proof (cases "n \<le> 1")
    case True
    then show ?thesis using 1(2) by (simp add: highest_bit.simps [of n])
  next
    case False
    then have "2 ^ highest_bit (n div 2) \<le> n div 2 \<and> n div 2 < 2 ^ Suc (highest_bit (n div 2))" using 1 by simp
    then have "2 * 2 ^ highest_bit (n div 2) \<le> n" "n < 2 * 2 ^ Suc (highest_bit (n div 2))" by linarith+
    then show ?thesis using False by (simp add: highest_bit.simps [of n])
  qed
qed

lemma latency_bucket_less: "latency_bucket us < 32"
  by (simp add: latency_bucket_def min_def)

lemma mod_sum_update:
  assumes "b < length xs"
  shows "(\<Sum>x\<leftarrow>xs[b := fetch_add (xs ! b) 1]. x) mod 2 ^ 64 = Suc (\<Sum>x\<leftarrow>xs. x) mod 2 ^ 64"
proof -
  have "(\<Sum>x\<leftarrow>xs[b := v]. x) = (\<Sum>x\<leftarrow>take b xs. x) + v + (\<Sum>x\<leftarrow>drop (Suc b) xs. x)" for v
    using assms by (simp add: upd_conv_take_nth_drop)
  moreover have "(\<Sum>x\<leftarrow>xs. x) = (\<Sum>x\<leftarrow>take b xs. x) + xs ! b + (\<Sum>x\<leftarrow>drop (Suc b) xs. x)"
    using assms by (subst id_take_nth_drop [OF assms]) simp
  moreover have "(a + (x + 1) mod m + c) mod m = Suc (a + x + c) mod m" for a x c m :: nat
  proof -
    have "(a + (x + 1) mod m + c) mod m = ((a + c) + (x + 1) mod m) mod m" by (simp add: ac_simps)
    also have "\<dots> = ((a + c) + (x + 1)) mod m" by (rule mod_add_right_eq)
    finally show ?thesis by (simp add: ac_simps)
  qed
  ultimately show ?thesis by (simp only: fetch_add_def)
qed

definition stats_ok :: "stats \<Rightarrow> bool" where
  "stats_ok s \<longleftrightarrow> length (st_latency_buckets s) = 32 \<and> st_requests_total s < 2 ^ 64
     \<and> (\<Sum>x\<leftarrow>st_latency_buckets s. x) mod 2 ^ 64 = st_requests_total s"

lemma record_request_fields:
  "st_latency_buckets (record_request status out inn us s) =
     (let b = latency_bucket (us mod 2 ^ 64); xs = st_latency_buckets s in xs[b := fetch_add (xs ! b) 1])"
  "st_requests_total (record_request status out inn us s) = fetch_add (st_requests_total s) 1"
  by (simp_all add: record_request_def Let_def)

lemma record_request_ok:
  assumes "stats_ok s"
  shows "stats_ok (record_request status out inn us s)"
proof -
  let ?xs = "st_latency_buckets s" and ?b = "latency_bucket (us mod 2 ^ 64)"
  have "?b < length ?xs" using assms latency_bucket_less [of "us mod 2 ^ 64"] by (simp add: stats_ok_def)
  then have "(\<Sum>x\<leftarrow>?xs[?b := fetch_add (?xs ! ?b) 1]. x) mod 2 ^ 64 = Suc (\<Sum>x\<leftarrow>?xs. x) mod 2 ^ 64"
    by (rule mod_sum_update)
  also have "\<dots> = Suc ((\<Sum>x\<leftarrow>?xs. x) mod 2 ^ 64) mod 2 ^ 64" by (rule mod_Suc_eq [symmetric])
  also have "\<dots> = fetch_add (st_requests_total s) 1" using assms by (simp add: stats_ok_def fetch_add_def)
  finally show ?thesis
    using assms by (simp only: stats_ok_def record_request_fields Let_def length_list_update) (simp add: fetch_add_def)
qed

section \<open>The limiter within one second\<close>

lemma rate_run_same_second:
  assumes "rl_windows rl ip = Some (t, k)" "k + n < 2 ^ 32"
  shows "map snd (run_limiter rate_allow rl (replicate n (t, ip)))
       = map (\<lambda>j. k + j < rl_rps_limit rl) [0..<n]"
  using assms
proof (induction n arbitrary: rl k)
  case (Suc n)
  let ?rl = "rl\<lparr>rl_windows := (rl_windows rl)(ip \<mapsto> (t, k + 1))\<rparr>"
  have "rate_allow t rl ip = (k < rl_rps_limit rl, ?rl)"
    using Suc.prems by (simp add: rate_allow_def Suc_le_eq)
  moreover have "map snd (run_limiter rate_allow ?rl (replicate n (t, ip))) = map (\<lambda>j. k + 1 + j < rl_rps_limit ?rl) [0..<n]"
    using Suc.prems by (intro Suc.IH) simp_all
  ultimately show ?case by (simp add: map_upt_Suc del: upt_Suc)
qed simp

lemma map_less_upt: "map (\<lambda>j. j < (m::nat)) [0..<n] = replicate (min m n) True @ replicate (n - m) False"
  by (rule nth_equalityI) (auto simp: nth_append)

section \<open>The percentiles\<close>

lemma percentile_scan_spec:
  assumes "cumulative + (\<Sum>x\<leftarrow>take (Suc j) bs. x) < 2 ^ 64" "j < length bs"
    and "target \<le> cumulative + (\<Sum>x\<leftarrow>take (Suc j) bs. x)" "cumulative + (\<Sum>x\<leftarrow>take j bs. x) < target"
  shows "percentile_scan target i cumulative bs = (if i + j = 0 then 0 else 2 ^ (i + j - 1))"
  using assms
proof (induction bs arbitrary: i cumulative j)
  case (Cons b bs)
  show ?case
  proof (cases j)
    case 0
    then show ?thesis using Cons.prems by simp
  next
    case (Suc j')
    have small: "(cumulative + b) mod 2 ^ 64 = cumulative + b" and lt: "cumulative + b < target"
      using Cons.prems Suc by (simp_all add: add.assoc)
    have "percentile_scan target (Suc i) (cumulative + b) bs = (if Suc i + j' = 0 then 0 else 2 ^ (Suc i + j' - 1))"
      by (rule Cons.IH) (use Cons.prems Suc in \<open>auto simp: add.assoc\<close>)
    then show ?thesis using small lt Suc by (simp add: Let_def not_le)
  qed
qed simp

section \<open>Properties\<close>

text \<open>After any sequence of requests the latency histogram adds up to the number of requests,
  modulo the width of the counters.\<close>

theorem histogram_adds_up:
  "(\<Sum>n\<leftarrow>st_latency_buckets (fold (\<lambda>(status, out, inn, us). record_request status out inn us) reqs new_stats). n) mod 2 ^ 64
   = length reqs mod 2 ^ 64"
proof -
  let ?run = "fold (\<lambda>(status, out, inn, us). record_request status out inn us)"
  have gen: "stats_ok (?run reqs s) \<and> st_requests_total (?run reqs s) = (st_requests_total s + length reqs) mod 2 ^ 64"
    if "stats_ok s" for s
    using that
  proof (induction reqs arbitrary: s)
    case (Cons r reqs)
    obtain a b c d where r: "r = (a, b, c, d)" by (cases r) auto
    have "st_requests_total (record_request a b c d s) = (st_requests_total s + 1) mod 2 ^ 64"
      by (simp add: record_request_def fetch_add_def Let_def)
    then show ?case
      using Cons.IH [OF record_request_ok [OF Cons.prems]] r by (simp add: mod_add_left_eq)
  qed (auto simp: stats_ok_def)
  have "stats_ok new_stats" by (simp add: stats_ok_def new_stats_def sum_list_replicate)
  from gen [OF this] show ?thesis by (simp add: stats_ok_def new_stats_def)
qed

text \<open>A request of at least one microsecond is counted in the bucket of the highest power of two
  not above its duration, the last bucket taking everything longer.\<close>

theorem latency_bucket_spec:
  assumes "0 < us"
  shows "2 ^ latency_bucket us \<le> us \<and> (latency_bucket us = 31 \<or> us < 2 ^ Suc (latency_bucket us))"
proof (cases "highest_bit us \<le> 31")
  case True
  then show ?thesis using highest_bit_bounds [OF assms] assms by (simp add: latency_bucket_def min_def)
next
  case False
  then have "(2::nat) ^ 31 \<le> 2 ^ highest_bit us" by (intro power_increasing) auto
  then show ?thesis using highest_bit_bounds [OF assms] assms False by (simp add: latency_bucket_def min_def)
qed

theorem latency_bucket_spec_witness: "(2::nat) ^ latency_bucket 1500 \<le> 1500"
  using latency_bucket_spec [of 1500] by simp

text \<open>\<open>percentile_us\<close> with argument \<open>k\<close> reports the bucket that holds request number
  \<open>tot * k div 1000\<close> in order of latency; so the value reported as the median (argument 50) is the
  5th percentile.\<close>

theorem percentile_is_per_mille:
  assumes "tot * k < 2 ^ 64" "j < length bs" "(\<Sum>x\<leftarrow>take (Suc j) bs. x) < 2 ^ 64"
    and "tot * k div 1000 \<le> (\<Sum>x\<leftarrow>take (Suc j) bs. x)" "(\<Sum>x\<leftarrow>take j bs. x) < tot * k div 1000"
  shows "percentile_us bs tot k = (if j = 0 then 0 else 2 ^ (j - 1))"
  using percentile_scan_spec [of 0 j bs "tot * k div 1000" 0] assms by (simp add: percentile_us_def)

theorem percentile_is_per_mille_witness:
  "percentile_us [0, 6, 0, 0, 0, 0, 0, 0, 0, 0, 0, 0, 0, 0, 0, 0, 0, 0, 0, 0, 94] 100 50 = 1"
  using percentile_is_per_mille [of 100 50 1 "[0, 6, 0, 0, 0, 0, 0, 0, 0, 0, 0, 0, 0, 0, 0, 0, 0, 0, 0, 0, 94]"]
  by simp

text \<open>With a limit of at least one, of the requests a new client of the API sends within one second
  exactly the first \<open>limit\<close> are allowed.\<close>

theorem api_limit_per_second:
  assumes "rl_windows rl ip = None" "n < 2 ^ 32"
  shows "map snd (run_limiter rate_allow rl (replicate n (t, ip)))
       = replicate (min (rl_rps_limit rl) n) True @ replicate (n - rl_rps_limit rl) False"
proof (cases n)
  case (Suc m)
  let ?rl = "rl\<lparr>rl_windows := (rl_windows rl)(ip \<mapsto> (t, 1))\<rparr>"
  have "rate_allow t rl ip = (0 < rl_rps_limit rl, ?rl)"
    using assms(1) by (simp add: rate_allow_def Suc_le_eq)
  moreover have "map snd (run_limiter rate_allow ?rl (replicate m (t, ip))) = map (\<lambda>j. 1 + j < rl_rps_limit ?rl) [0..<m]"
    using assms(2) Suc by (intro rate_run_same_second) simp_all
  ultimately have "map snd (run_limiter rate_allow rl (replicate n (t, ip))) = map (\<lambda>j. j < rl_rps_limit rl) [0..<n]"
    by (simp add: Suc map_upt_Suc del: upt_Suc)
  then show ?thesis by (simp only: map_less_upt)
qed simp

theorem api_limit_per_second_witness:
  "map snd (run_limiter rate_allow (new_rate_limiter 2) (replicate 3 (100, V4 1))) = [True, True, False]"
proof -
  have "replicate (min 2 3) True @ replicate (3 - 2) False = [True, True, False]" by (simp add: numeral_2_eq_2)
  then show ?thesis
    using api_limit_per_second [of "new_rate_limiter 2" "V4 1" 3 100] by (simp add: new_rate_limiter_def)
qed

end
