(* ===== verification/Access_Log.thy ===== *)
theory Access_Log
  imports Rust_Net Config_Types
begin

text \<open>
  The access log, \<open>src/server/access_log.rs\<close>: the ring of recent lines, the writer task as a
  fold over the entries it receives, the combined format and the calendar. The wall clock is an
  argument (seconds since the epoch), and so is the outcome of each write to the file. The
  channel between the logger and the task is the list of entries sent.
\<close>

record log_entry =
  le_remote_addr :: socket_addr
  le_request_line :: string
  le_status :: nat
  le_body_bytes :: nat
  le_referer :: string
  le_user_agent :: string

definition RING_SIZE :: nat where "RING_SIZE = 500"

section \<open>The ring\<close>

definition ring_push :: "string list \<Rightarrow> string \<Rightarrow> string list" where
  "ring_push ring line = (if RING_SIZE \<le> length ring then tl ring else ring) @ [line]"

definition recent_lines :: "string list \<Rightarrow> nat \<Rightarrow> string list" where
  "recent_lines ring n = drop (length ring - n) ring"

section \<open>The calendar\<close>

definition is_leap :: "nat \<Rightarrow> bool" where
  "is_leap y \<longleftrightarrow> y mod 4 = 0 \<and> (y mod 100 \<noteq> 0 \<or> y mod 400 = 0)"

definition days_in_month :: "nat \<Rightarrow> nat \<Rightarrow> nat" where
  "days_in_month month year =
     (if month \<in> {0, 2, 4, 6, 7, 9, 11} then 31
      else if month \<in> {3, 5, 8, 10} then 30
      else if month = 1 then (if is_leap year then 29 else 28)
      else 30)"

definition days_in_year :: "nat \<Rightarrow> nat" where
  "days_in_year y = (if is_leap y then 366 else 365)"

text \<open>The year counter is a \<open>u32\<close> and wraps; a \<open>u64\<close> timestamp can reach that far.\<close>

function year_loop :: "nat \<Rightarrow> nat \<Rightarrow> nat \<times> nat" where
  "year_loop days year =
     (if days < days_in_year year then (days, year)
      else year_loop (days - days_in_year year) ((year + 1) mod 2 ^ 32))"
  by pat_completeness auto
termination
  by (relation "measure fst") (auto simp: days_in_year_def)

declare year_loop.simps [simp del]

text \<open>\<open>for mo in 0..12\<close>: the months that are left, the days, and the month (0 when the loop ends).\<close>

fun month_loop :: "nat list \<Rightarrow> nat \<Rightarrow> nat \<Rightarrow> nat \<times> nat" where
  "month_loop [] year days = (days, 0)"
| "month_loop (mo # mos) year days =
     (if days < days_in_month mo year then (days, mo)
      else month_loop mos year (days - days_in_month mo year))"

definition MONTHS :: "string list" where
  "MONTHS = [''Jan'', ''Feb'', ''Mar'', ''Apr'', ''May'', ''Jun'', ''Jul'', ''Aug'', ''Sep'', ''Oct'', ''Nov'', ''Dec'']"

text \<open>Year, month from 0 and day from 1 of a day number.\<close>

definition civil_date :: "nat \<Rightarrow> nat \<times> nat \<times> nat" where
  "civil_date days =
     (let (days, year) = year_loop days 1970; (days, month) = month_loop [0..<12] year days
      in (year, month, days + 1))"

definition format_unix_ts :: "nat \<Rightarrow> string" where
  "format_unix_ts ts =
     (let time_of_day = ts mod 86400; (year, month, day) = civil_date (ts div 86400);
          pad2 = (\<lambda>n. zero_pad 2 (show_nat n))
      in pad2 day @ ''/'' @ MONTHS ! month @ ''/'' @ zero_pad 4 (show_nat year) @ '':''
         @ pad2 (time_of_day div 3600) @ '':'' @ pad2 (time_of_day mod 3600 div 60) @ '':''
         @ pad2 (time_of_day mod 60) @ '' +0000'')"

section \<open>The line\<close>

text \<open>\<open>Display\<close> of an address: dotted quad, or the groups in hexadecimal with the first longest run of
  at least two zero groups compressed; a mapped IPv4 address keeps its dotted form.\<close>

definition show_v4 :: "32 word \<Rightarrow> string" where
  "show_v4 w = show_nat (octet w 0) @ ''.'' @ show_nat (octet w 1) @ ''.'' @ show_nat (octet w 2) @ ''.'' @ show_nat (octet w 3)"

definition zero_run :: "16 word list \<Rightarrow> nat \<Rightarrow> nat" where
  "zero_run gs i = length (takeWhile (\<lambda>g. g = 0) (drop i gs))"

definition longest_zero_run :: "16 word list \<Rightarrow> nat \<times> nat" where
  "longest_zero_run gs =
     fold (\<lambda>i (best, len). if len < zero_run gs i then (i, zero_run gs i) else (best, len)) [0..<length gs] (0, 0)"

definition join_groups :: "16 word list \<Rightarrow> string" where
  "join_groups gs = concat (map (\<lambda>i. (if i = 0 then [] else '':'') @ show_hex (unat (gs ! i))) [0..<length gs])"

definition show_v6 :: "16 word list \<Rightarrow> string" where
  "show_v6 gs =
     (if take 5 gs = replicate 5 0 \<and> gs ! 5 = 0xFFFF
      then ''::ffff:'' @ show_v4 (ipv4_of_octets (unat (gs ! 6) div 256) (unat (gs ! 6) mod 256)
                                   (unat (gs ! 7) div 256) (unat (gs ! 7) mod 256))
      else
        let (start, len) = longest_zero_run gs
        in if 1 < len then join_groups (take start gs) @ ''::'' @ join_groups (drop (start + len) gs)
           else join_groups gs)"

fun show_ip :: "ip_addr \<Rightarrow> string" where
  "show_ip (V4 w) = show_v4 w"
| "show_ip (V6 gs) = show_v6 gs"

definition format_combined :: "nat \<Rightarrow> log_entry \<Rightarrow> string" where
  "format_combined now e =
     show_ip (sa_ip (le_remote_addr e)) @ '' - - ['' @ format_unix_ts now @ ''] '' @ [CHR 0x22]
     @ le_request_line e @ [CHR 0x22] @ '' '' @ show_nat (le_status e) @ '' '' @ show_nat (le_body_bytes e)
     @ '' '' @ [CHR 0x22] @ le_referer e @ [CHR 0x22] @ '' '' @ [CHR 0x22] @ le_user_agent e @ [CHR 0x22]"

section \<open>The logger\<close>

text \<open>The entries that reach the task: none when logging is off.\<close>

definition sent_entries :: "access_log \<Rightarrow> 'e list \<Rightarrow> 'e list" where
  "sent_entries cfg es = (case cfg of Log_Off \<Rightarrow> [] | _ \<Rightarrow> es)"

text \<open>The task of a file log: each entry comes with the time it is formatted and the outcome of its
  write. A write that fails ends the task. The result is the file's bytes and the ring.\<close>

fun write_loop :: "(nat \<times> log_entry \<times> bool) list \<Rightarrow> string \<Rightarrow> string list \<Rightarrow> string \<times> string list" where
  "write_loop [] file ring = (file, ring)"
| "write_loop ((now, e, ok) # es) file ring =
     (let formatted = format_combined now e; ring = ring_push ring formatted
      in if ok then write_loop es (file @ formatted @ [LF]) ring else (file, ring))"

text \<open>The task of a standard-error log.\<close>

fun stderr_loop :: "(nat \<times> log_entry) list \<Rightarrow> string \<Rightarrow> string list \<Rightarrow> string \<times> string list" where
  "stderr_loop [] out ring = (out, ring)"
| "stderr_loop ((now, e) # es) out ring =
     (let line = format_combined now e in stderr_loop es (out @ line @ [LF]) (ring_push ring line))"

section \<open>The ring holds the end of the log\<close>

lemma tl_drop_snoc: "tl (drop n xs) = drop (Suc n) xs"
  by (simp add: drop_Suc tl_drop)

lemma ring_push_suffix:
  "ring_push (drop (length ls - RING_SIZE) ls) l = drop (length (ls @ [l]) - RING_SIZE) (ls @ [l])"
proof (cases "RING_SIZE \<le> length ls")
  case True
  then have "Suc (length ls) - RING_SIZE = Suc (length ls - RING_SIZE)" by simp
  moreover have "RING_SIZE > 0" by (simp add: RING_SIZE_def)
  ultimately show ?thesis using True by (simp add: ring_push_def tl_drop_snoc)
next
  case False
  then show ?thesis by (simp add: ring_push_def)
qed

lemma ring_pushes_suffix:
  "fold (\<lambda>l r. ring_push r l) ls (drop (length ls0 - RING_SIZE) ls0)
   = drop (length (ls0 @ ls) - RING_SIZE) (ls0 @ ls)"
proof (induction ls arbitrary: ls0)
  case Nil
  then show ?case by simp
next
  case (Cons l ls)
  from Cons.IH [of "ls0 @ [l]"] show ?case by (simp add: ring_push_suffix del: drop_append)
qed

section \<open>The Gregorian calendar\<close>

definition leap_years_upto :: "nat \<Rightarrow> nat" where
  "leap_years_upto n = n div 4 + n div 400 - n div 100"

text \<open>The day number of the first of January of a year, and of the first of a month in a year.\<close>

definition year_start :: "nat \<Rightarrow> nat" where
  "year_start y = 365 * (y - 1970) + (leap_years_upto (y - 1) - 477)"

definition month_start :: "nat \<Rightarrow> nat \<Rightarrow> nat" where
  "month_start m y = sum_list (map (\<lambda>k. days_in_month k y) [0..<m])"

lemma leap_years_step: "leap_years_upto (Suc n) = leap_years_upto n + (if is_leap (Suc n) then 1 else 0)"
proof -
  have le: "n div 100 \<le> n div 4" by (simp add: div_le_mono2)
  have "Suc n mod 4 = 0" if "Suc n mod 100 = 0"
    using mod_mod_cancel [of 4 100 "Suc n"] that by simp
  moreover have "Suc n mod 100 = 0" if "Suc n mod 400 = 0"
    using mod_mod_cancel [of 100 400 "Suc n"] that by simp
  ultimately show ?thesis
    using le by (auto simp: leap_years_upto_def is_leap_def div_Suc)
qed

lemma leap_years_mono: "1969 \<le> n \<Longrightarrow> 477 \<le> leap_years_upto n"
proof (induction n rule: dec_induct)
  case base
  show ?case by (simp add: leap_years_upto_def)
next
  case (step n)
  then show ?case by (simp add: leap_years_step)
qed

lemma year_start_Suc:
  assumes "1970 \<le> y"
  shows "year_start (Suc y) = year_start y + days_in_year y"
proof -
  obtain j where j: "y = Suc (1969 + j)" using le_Suc_ex [OF assms] by auto
  then show ?thesis
    using leap_years_mono [of "1969 + j"] leap_years_step [of "1969 + j"]
    by (simp add: year_start_def days_in_year_def)
qed

lemma year_loop_spec:
  "1970 \<le> y \<Longrightarrow> y + d div 365 < 2 ^ 32 - 1 \<Longrightarrow> year_loop d y = (d', y')
   \<Longrightarrow> y \<le> y' \<and> d' < days_in_year y' \<and> year_start y' + d' = year_start y + d"
proof (induction d y rule: year_loop.induct)
  case (1 d y)
  show ?case
  proof (cases "d < days_in_year y")
    case True
    then show ?thesis using 1(4) by (subst (asm) year_loop.simps) simp
  next
    case False
    let ?d = "d - days_in_year y"
    have le: "?d \<le> d - 365" "365 \<le> d" using False by (auto simp: days_in_year_def split: if_splits)
    then have "?d div 365 \<le> (d - 365) div 365" by (intro div_le_mono)
    also have "\<dots> = d div 365 - 1" using le(2) by (simp add: le_div_geq)
    finally have step: "?d div 365 \<le> d div 365 - 1" .
    moreover have "1 \<le> d div 365" using le(2) by (simp add: Suc_le_eq div_greater_zero_iff)
    ultimately have y: "y + 1 + ?d div 365 < 2 ^ 32 - 1" using 1(3) by linarith
    then have m: "(y + 1) mod 2 ^ 32 = y + 1" by (intro mod_less) linarith
    have "year_loop ?d (y + 1) = (d', y')" using 1(4) False m by (subst (asm) year_loop.simps) simp
    then have "y + 1 \<le> y' \<and> d' < days_in_year y' \<and> year_start y' + d' = year_start (y + 1) + ?d"
      using 1(1) [OF False] 1(2) y unfolding m by simp
    then show ?thesis using year_start_Suc [OF 1(2)] False by simp
  qed
qed

lemma month_loop_spec:
  "d < sum_list (map (\<lambda>k. days_in_month k y) [k..<12]) \<Longrightarrow> month_loop [k..<12] y d = (d', m)
   \<Longrightarrow> k \<le> m \<and> m < 12 \<and> d' < days_in_month m y
     \<and> sum_list (map (\<lambda>k. days_in_month k y) [k..<m]) + d' = d"
proof (induction "12 - k" arbitrary: k d)
  case 0
  then show ?case by simp
next
  case (Suc n)
  then have k: "k < 12" by simp
  then have u: "[k..<12] = k # [Suc k..<12]" by (simp add: upt_rec)
  show ?case
  proof (cases "d < days_in_month k y")
    case True
    then show ?thesis using Suc.prems(2) k by (simp add: u)
  next
    case False
    have "month_loop [Suc k..<12] y (d - days_in_month k y) = (d', m)"
      using Suc.prems(2) False by (simp add: u)
    moreover have "d - days_in_month k y < sum_list (map (\<lambda>k. days_in_month k y) [Suc k..<12])"
      using Suc.prems(1) False by (simp add: u)
    ultimately have "Suc k \<le> m \<and> m < 12 \<and> d' < days_in_month m y
      \<and> sum_list (map (\<lambda>k. days_in_month k y) [Suc k..<m]) + d' = d - days_in_month k y"
      using Suc.hyps(1) [of "Suc k"] Suc.hyps(2) by simp
    then show ?thesis using False by (simp add: upt_rec [of k m]) linarith
  qed
qed

lemma year_months: "month_start 12 y = days_in_year y"
  by (simp add: month_start_def days_in_month_def days_in_year_def upt_rec)

section \<open>Properties\<close>

text \<open>C35: the ring refines the log: after any lines it holds exactly the last 500 of them in order, and
  \<open>recent_lines\<close> returns the last lines of the log.\<close>

theorem ring_is_log_suffix:
  "fold (\<lambda>l r. ring_push r l) ls [] = drop (length ls - RING_SIZE) ls
   \<and> recent_lines (fold (\<lambda>l r. ring_push r l) ls []) n = drop (length ls - min n RING_SIZE) ls"
proof -
  have "fold (\<lambda>l r. ring_push r l) ls [] = drop (length ls - RING_SIZE) ls"
    using ring_pushes_suffix [of ls "[]"] by simp
  moreover have "recent_lines (drop (length ls - RING_SIZE) ls) n = drop (length ls - min n RING_SIZE) ls"
    by (cases "length ls \<le> RING_SIZE"; cases "n \<le> RING_SIZE") (simp_all add: recent_lines_def min_def)
  ultimately show ?thesis by simp
qed



text \<open>A failed write ends the task: no later entry reaches the file or the ring, although a comment
  in the loop says the file is opened again for the next entry.\<close>

lemma write_failure_ends_log:
  "write_loop ((now, e, False) # es) file ring = (file, ring_push ring (format_combined now e))"
  by (simp add: Let_def)

end
