(* ===== verification/Api.thy ===== *)
theory Api
  imports Sites Stats Access_Log
begin

text \<open>
  The management API, \<open>src/api/mod.rs\<close>: the session store and the login, the two ways a request
  is authorized, the routes, and their operations on statistics, log ring, backups and sites. The state
  the API changes is \<open>api_state\<close>: the sessions, the rate limiter and the trace of what was done on the
  host. Statistics and log ring are read only. Parameters: the host, the two pages, the printing of
  floating point numbers, the texts of the build (\<open>CARGO_PKG_VERSION\<close> is that of \<open>Cargo.toml\<close>).
\<close>

section \<open>State and environment\<close>

record api_state =
  ap_sessions :: "string \<Rightarrow> nat option"
  ap_rate :: rate_limiter
  ap_trace :: trace

text \<open>\<open>ae_now\<close> is the instant in nanoseconds, \<open>ae_secs\<close> the second of the rate limiter, \<open>ae_entropy\<close>
  what reading the source of randomness gave, \<open>ae_mtime\<close> the modification time of a directory entry,
  \<open>ae_fmt_sum p90 n\<close> the text of the floating point product the metrics give as the sum.\<close>

record api_env =
  ae_site :: site_env
  ae_http :: http_block
  ae_config_path :: string
  ae_now :: nat
  ae_secs :: nat
  ae_entropy :: "string option"
  ae_mtime :: "trace \<Rightarrow> string \<Rightarrow> nat"
  ae_uptime :: nat
  ae_stats :: stats
  ae_ring :: "string list"
  ae_webui :: string
  ae_login :: string
  ae_simd :: string
  ae_fmt_sum :: "nat \<Rightarrow> nat \<Rightarrow> string"

definition SESSION_TTL :: nat where
  "SESSION_TTL = 8 * 3600 * 10 ^ 9"

definition PKG_VERSION :: string where
  "PKG_VERSION = ''0.5.3''"

section \<open>Responses\<close>

definition json_reason :: "nat \<Rightarrow> string" where
  "json_reason status =
     (if status = 200 then ''OK'' else if status = 202 then ''Accepted'' else if status = 400 then ''Bad Request''
      else if status = 401 then ''Unauthorized'' else if status = 404 then ''Not Found''
      else if status = 429 then ''Too Many Requests'' else if status = 500 then ''Internal Server Error''
      else ''Error'')"

definition json_response :: "nat \<Rightarrow> string \<Rightarrow> string" where
  "json_response status body =
     ''HTTP/1.1 '' @ show_nat status @ '' '' @ json_reason status @ CRLF
     @ ''Content-Type: application/json'' @ CRLF @ ''Content-Length: '' @ show_nat (length body) @ CRLF
     @ ''Server: RunNginx/'' @ PKG_VERSION @ CRLF @ ''Connection: close'' @ CRLF @ CRLF @ body"

definition jq :: "string \<Rightarrow> string" where
  "jq s = DQUOTE # s @ [DQUOTE]"

text \<open>\<open>{"key":value}\<close> with the value as printed text.\<close>

definition json_pair :: "string \<Rightarrow> string \<Rightarrow> string" where
  "json_pair k v = jq k @ '':'' @ v"

definition error_body :: "string \<Rightarrow> string" where
  "error_body e = ''{'' @ json_pair ''error'' (jq e) @ ''}''"

text \<open>This one is written with plain line feeds.\<close>

definition serve_webui :: "api_env \<Rightarrow> string" where
  "serve_webui env =
     ''HTTP/1.1 200 OK'' @ NL @ ''Content-Type: text/html; charset=utf-8'' @ NL
     @ ''Content-Length: '' @ show_nat (length (ae_webui env)) @ NL @ ''Cache-Control: no-cache'' @ NL
     @ ''Connection: keep-alive'' @ NL @ NL @ ae_webui env"

definition serve_login :: "api_env \<Rightarrow> string" where
  "serve_login env =
     ''HTTP/1.1 200 OK'' @ CRLF @ ''Content-Type: text/html; charset=utf-8'' @ CRLF
     @ ''Content-Length: '' @ show_nat (length (ae_login env)) @ CRLF @ ''Cache-Control: no-cache'' @ CRLF
     @ ''Connection: keep-alive'' @ CRLF @ CRLF @ ae_login env"

definition redirect_to_login :: string where
  "redirect_to_login =
     ''HTTP/1.1 302 Found'' @ CRLF @ ''Location: /login'' @ CRLF @ ''Content-Length: 0'' @ CRLF
     @ ''Connection: close'' @ CRLF @ CRLF"

definition health_response :: string where
  "health_response =
     (let body = ''{'' @ json_pair ''status'' (jq ''ok'') @ ''}''
      in ''HTTP/1.1 200 OK'' @ CRLF @ ''Content-Type: application/json'' @ CRLF
         @ ''Content-Length: '' @ show_nat (length body) @ CRLF @ ''Connection: close'' @ CRLF @ CRLF @ body)"

section \<open>Sessions\<close>

definition find_header :: "string \<Rightarrow> (string \<times> string) list \<Rightarrow> string option" where
  "find_header name headers =
     map_option snd (find (\<lambda>(k, v). eq_ignore_ascii_case k name) headers)"

definition get_session_token :: "(string \<times> string) list \<Rightarrow> string option" where
  "get_session_token headers =
     (case find_header ''cookie'' headers of
        None \<Rightarrow> None
      | Some v \<Rightarrow>
          (case find (\<lambda>s. starts_with s ''session='') (map str_trim (split_on (CHR '';'') v)) of
             None \<Rightarrow> None
           | Some s \<Rightarrow> strip_prefix s ''session=''))"

definition session_valid :: "nat \<Rightarrow> (string \<Rightarrow> nat option) \<Rightarrow> string \<Rightarrow> bool" where
  "session_valid now sessions token \<longleftrightarrow>
     (case sessions token of None \<Rightarrow> False | Some expires \<Rightarrow> now < expires)"

definition has_valid_session :: "nat \<Rightarrow> (string \<Rightarrow> nat option) \<Rightarrow> (string \<times> string) list \<Rightarrow> bool" where
  "has_valid_session now sessions headers \<longleftrightarrow>
     (case get_session_token headers of None \<Rightarrow> False | Some token \<Rightarrow> session_valid now sessions token)"

definition rand_bytes_32 :: "string option \<Rightarrow> string" where
  "rand_bytes_32 entropy =
     (case entropy of
        Some bytes \<Rightarrow> if 32 \<le> length bytes then take 32 bytes else replicate 32 (byte 0)
      | None \<Rightarrow> replicate 32 (byte 0))"

definition verify_login_credentials :: "http_block \<Rightarrow> string \<Rightarrow> string \<Rightarrow> bool" where
  "verify_login_credentials http username password \<longleftrightarrow>
     username = http_webui_admin_user http \<and> password = http_webui_admin_password http"

definition new_session :: "nat \<Rightarrow> string \<Rightarrow> (string \<Rightarrow> nat option) \<Rightarrow> string \<Rightarrow> nat option" where
  "new_session now token sessions =
     (\<lambda>t. case sessions t of Some expires \<Rightarrow> if now < expires then Some expires else None | None \<Rightarrow> None)
       (token \<mapsto> now + SESSION_TTL)"

definition ok_true :: string where
  "ok_true = ''{'' @ json_pair ''ok'' ''true'' @ ''}''"

definition login_response :: "bool \<Rightarrow> string \<Rightarrow> string" where
  "login_response is_https token =
     ''HTTP/1.1 200 OK'' @ CRLF @ ''Content-Type: application/json'' @ CRLF
     @ ''Set-Cookie: session='' @ token @ ''; Path=/; HttpOnly; SameSite=Strict; Max-Age=28800''
     @ (if is_https then ''; Secure'' else []) @ CRLF
     @ ''Content-Length: 10'' @ CRLF @ ''Connection: close'' @ CRLF @ CRLF @ ok_true"

definition handle_login_post ::
    "api_env \<Rightarrow> string \<Rightarrow> (string \<times> string) list \<Rightarrow> api_state \<Rightarrow> string \<times> api_state" where
  "handle_login_post env body headers st =
     (case js_parse (si_json (ae_site env)) body of
        None \<Rightarrow> (json_response 400 (error_body ''Bad request''), st)
      | Some parsed \<Rightarrow>
          if \<not> verify_login_credentials (ae_http env) (str_field parsed ''username'' []) (str_field parsed ''password'' [])
          then (json_response 401 (error_body ''Invalid username or password''), st)
          else
            let token = hex_bytes (rand_bytes_32 (ae_entropy env));
                is_https = list_ex (\<lambda>(k, v). eq_ignore_ascii_case k ''x-forwarded-proto'' \<and> eq_ignore_ascii_case v ''https'') headers
            in (login_response is_https token, st\<lparr>ap_sessions := new_session (ae_now env) token (ap_sessions st)\<rparr>))"

definition logout_response :: string where
  "logout_response =
     ''HTTP/1.1 200 OK'' @ CRLF @ ''Content-Type: application/json'' @ CRLF
     @ ''Set-Cookie: session=; Path=/; HttpOnly; Max-Age=0'' @ CRLF
     @ ''Content-Length: 10'' @ CRLF @ ''Connection: close'' @ CRLF @ CRLF @ ok_true"

definition handle_logout :: "(string \<times> string) list \<Rightarrow> api_state \<Rightarrow> string \<times> api_state" where
  "handle_logout headers st =
     (logout_response,
      case get_session_token headers of
        None \<Rightarrow> st
      | Some token \<Rightarrow> st\<lparr>ap_sessions := (ap_sessions st)(token := None)\<rparr>)"

definition is_authorized :: "(string \<times> string) list \<Rightarrow> string \<Rightarrow> bool" where
  "is_authorized headers api_key \<longleftrightarrow>
     api_key \<noteq> [] \<and>
     str_trim (or_default [] (strip_prefix (or_default [] (find_header ''authorization'' headers)) ''Bearer '')) = api_key"

section \<open>Statistics, logs and metrics\<close>

text \<open>\<open>{:.6}\<close> of \<open>n as f64 / 1_000_000.0\<close>: for the powers of two up to \<open>2 ^ 31\<close> printed here the
  error of the division is far below the last digit.\<close>

definition micros_text :: "nat \<Rightarrow> string" where
  "micros_text n = show_nat (n div 1000000) @ ''.'' @ zero_pad 6 (show_nat (n mod 1000000))"

definition json_nat :: "string \<Rightarrow> nat \<Rightarrow> string" where
  "json_nat k n = json_pair k (show_nat n)"

fun join_comma :: "string list \<Rightarrow> string" where
  "join_comma [] = []"
| "join_comma [x] = x"
| "join_comma (x # xs) = x @ '','' @ join_comma xs"

definition braces :: "string list \<Rightarrow> string" where
  "braces fs = ''{'' @ join_comma fs @ ''}''"

definition api_stats :: "api_env \<Rightarrow> string" where
  "api_stats env =
     (let s = ae_stats env; (p50, p90, p99, p999) = latency_percentiles s
      in json_response 200 (braces
           [json_pair ''version'' (jq PKG_VERSION), json_nat ''requests_total'' (st_requests_total s),
            json_nat ''bytes_sent'' (st_bytes_sent s), json_nat ''bytes_received'' (st_bytes_received s),
            json_nat ''active_connections'' (st_active s), json_nat ''status_2xx'' (st_2xx s),
            json_nat ''status_3xx'' (st_3xx s), json_nat ''status_4xx'' (st_4xx s), json_nat ''status_5xx'' (st_5xx s),
            json_pair ''latency_us'' (braces
              [json_nat ''p50'' p50, json_nat ''p90'' p90, json_nat ''p99'' p99, json_nat ''p99.9'' p999]),
            json_pair ''p50_s'' (micros_text p50), json_pair ''p99_s'' (micros_text p99),
            json_nat ''uptime_seconds'' (ae_uptime env)]))"

definition group_json :: "upstream_group_def \<Rightarrow> string" where
  "group_json g =
     braces [json_pair ''name'' (jq (ug_name g)), json_pair ''policy'' (jq (ug_policy g)),
       json_pair ''peers'' (''['' @ join_comma (map (\<lambda>(a, _). jq a) (ug_peers g)) @ '']''),
       json_nat ''health_interval'' (ug_health_interval g)]"

definition api_system :: "api_env \<Rightarrow> string" where
  "api_system env =
     (let servers = length (http_servers (ae_http env))
      in json_response 200 (braces
           [json_pair ''version'' (jq PKG_VERSION), json_nat ''uptime_s'' (ae_uptime env),
            json_nat ''uptime_seconds'' (ae_uptime env), json_pair ''config'' (jq (ae_config_path env)),
            json_nat ''servers'' servers, json_nat ''server_blocks'' servers, json_pair ''simd'' (jq (ae_simd env)),
            json_pair ''upstream_groups''
              (''['' @ join_comma (map group_json (http_upstream_groups (ae_http env))) @ '']'')]))"

text \<open>The first \<open>n=\<close> of the query that is a number.\<close>

definition logs_count :: "string \<Rightarrow> nat" where
  "logs_count query =
     min (case List.map_filter (\<lambda>kv.
            (case index_of (CHR ''='') kv of
               None \<Rightarrow> None
             | Some i \<Rightarrow> if take i kv = ''n'' then parse_uint 64 (drop (Suc i) kv) else None))
            (split_on (CHR ''&'') query) of
          [] \<Rightarrow> 100
        | n # _ \<Rightarrow> n) 500"

definition api_logs :: "api_env \<Rightarrow> string \<Rightarrow> string" where
  "api_logs env query =
     (let lines = drop (length (ae_ring env) - logs_count query) (ae_ring env);
          body = js_print (si_json (ae_site env))
            (JObj [(''lines'', JArr (map JStr lines)), (''total'', JNum (Some (length lines)))])
      in ''HTTP/1.1 200 OK'' @ NL @ ''Content-Type: application/json'' @ NL
         @ ''Content-Length: '' @ show_nat (length body) @ NL @ ''Connection: close'' @ NL @ NL @ body)"

definition metric_head :: "string \<Rightarrow> string \<Rightarrow> string \<Rightarrow> string" where
  "metric_head name help kind =
     ''# HELP '' @ name @ '' '' @ help @ NL @ ''# TYPE '' @ name @ '' '' @ kind @ NL"

definition metric_line :: "string \<Rightarrow> string \<Rightarrow> string" where
  "metric_line name value = name @ '' '' @ value @ NL"

definition label :: "string \<Rightarrow> string \<Rightarrow> string" where
  "label k v = ''{'' @ k @ ''='' @ jq v @ ''}''"

text \<open>The buckets with the running count, which wraps.\<close>

fun bucket_lines :: "nat \<Rightarrow> nat \<Rightarrow> nat list \<Rightarrow> (nat \<times> nat) list" where
  "bucket_lines i cumulative [] = []"
| "bucket_lines i cumulative (c # cs) =
     (let cumulative = (cumulative + c) mod 2 ^ 64 in (2 ^ i, cumulative) # bucket_lines (Suc i) cumulative cs)"

definition DURATION :: string where
  "DURATION = ''runnginx_request_duration_seconds''"

definition prometheus_body :: "api_env \<Rightarrow> string" where
  "prometheus_body env =
     (let s = ae_stats env; (p50, p90, p99, _) = latency_percentiles s; tot = st_requests_total s
      in metric_head ''runnginx_requests_total'' ''Total HTTP requests'' ''counter''
         @ metric_line ''runnginx_requests_total'' (show_nat tot)
         @ metric_head ''runnginx_active_connections'' ''Active connections'' ''gauge''
         @ metric_line ''runnginx_active_connections'' (show_nat (st_active s))
         @ metric_head ''runnginx_bytes_sent_total'' ''Bytes sent'' ''counter''
         @ metric_line ''runnginx_bytes_sent_total'' (show_nat (st_bytes_sent s))
         @ metric_head ''runnginx_bytes_received_total'' ''Bytes received'' ''counter''
         @ metric_line ''runnginx_bytes_received_total'' (show_nat (st_bytes_received s))
         @ metric_head ''runnginx_status_total'' ''Requests by HTTP status class'' ''counter''
         @ metric_line (''runnginx_status_total'' @ label ''class'' ''2xx'') (show_nat (st_2xx s))
         @ metric_line (''runnginx_status_total'' @ label ''class'' ''3xx'') (show_nat (st_3xx s))
         @ metric_line (''runnginx_status_total'' @ label ''class'' ''4xx'') (show_nat (st_4xx s))
         @ metric_line (''runnginx_status_total'' @ label ''class'' ''5xx'') (show_nat (st_5xx s))
         @ metric_head ''runnginx_uptime_seconds'' ''Process uptime'' ''gauge''
         @ metric_line ''runnginx_uptime_seconds'' (show_nat (ae_uptime env))
         @ metric_head DURATION ''Request latency'' ''histogram''
         @ concat (map (\<lambda>(bound, n). metric_line (DURATION @ ''_bucket'' @ label ''le'' (micros_text bound)) (show_nat n))
             (bucket_lines 0 0 (st_latency_buckets s)))
         @ metric_line (DURATION @ ''_bucket'' @ label ''le'' ''+Inf'') (show_nat tot)
         @ metric_line (DURATION @ ''_sum'') (ae_fmt_sum env p90 tot)
         @ metric_line (DURATION @ ''_count'') (show_nat tot)
         @ metric_head ''runnginx_p50_seconds'' ''p50 latency'' ''gauge''
         @ metric_line ''runnginx_p50_seconds'' (micros_text p50)
         @ metric_head ''runnginx_p99_seconds'' ''p99 latency'' ''gauge''
         @ metric_line ''runnginx_p99_seconds'' (micros_text p99))"

definition prometheus_metrics :: "api_env \<Rightarrow> string" where
  "prometheus_metrics env =
     (let body = prometheus_body env
      in ''HTTP/1.1 200 OK'' @ CRLF @ ''Content-Type: text/plain; version=0.0.4; charset=utf-8'' @ CRLF
         @ ''Content-Length: '' @ show_nat (length body) @ CRLF @ ''Connection: keep-alive'' @ CRLF @ CRLF @ body)"

section \<open>Backups\<close>

text \<open>An operation on the host that returns early with a response, or at its end with one.\<close>

definition finish :: "string host \<Rightarrow> trace \<Rightarrow> string \<times> trace" where
  "finish m tr = (case m tr of (Inl response, tr) \<Rightarrow> (response, tr) | (Inr response, tr) \<Rightarrow> (response, tr))"

definition backup_dir :: "api_env \<Rightarrow> string" where
  "backup_dir env = path_join (config_dir_of (ae_config_path env)) ''backups''"

definition users_file :: "api_env \<Rightarrow> string" where
  "users_file env = path_join (config_dir_of (ae_config_path env)) ''users.toml''"

definition backup_label :: "api_env \<Rightarrow> string \<Rightarrow> string" where
  "backup_label env body =
     (case (case js_parse (si_json (ae_site env)) body of None \<Rightarrow> None | Some v \<Rightarrow> as_str (json_get v ''label'')) of
        Some s \<Rightarrow>
          if s \<noteq> [] \<and> length s \<le> 32 \<and> list_all (\<lambda>c. is_ascii_alphanumeric c \<or> c = CHR ''-'' \<or> c = CHR ''_'') s
          then s else []
      | None \<Rightarrow> [])"

definition backup_name :: "nat \<Rightarrow> string \<Rightarrow> string" where
  "backup_name ts lbl = ''backup_'' @ show_nat ts @ (if lbl = [] then [] else ''_'' @ lbl)"

definition api_backup :: "api_env \<Rightarrow> string \<Rightarrow> string host" where
  "api_backup env body =
     host_then (host_get (si_now (ae_site env))) (\<lambda>ts.
     let dir_name = backup_name ts (backup_label env body);
         bdir = path_join (backup_dir env) dir_name
     in host_then (host_map_err (\<lambda>e. json_response 500 (error_body (''cannot create backup dir: '' @ e)))
          (do_effect (ae_site env) (Create_Dir_All bdir))) (\<lambda>_.
        host_then (host_map_err (\<lambda>e. json_response 500 (error_body (''config copy failed: '' @ e)))
          (do_effect (ae_site env) (Copy_File (ae_config_path env) (path_join bdir ''runnginx.conf'')))) (\<lambda>_.
        host_then (exists_then (ae_site env) (users_file env) (\<lambda>ex.
          if ex then host_ignore (do_effect (ae_site env) (Copy_File (users_file env) (path_join bdir ''users.toml'')))
          else host_ok ())) (\<lambda>_.
        host_ok (json_response 200 (braces [json_pair ''id'' (jq dir_name), json_nat ''ts'' ts]))))))"

definition bool_text :: "bool \<Rightarrow> string" where
  "bool_text b = (if b then ''true'' else ''false'')"

definition api_list_backups :: "api_env \<Rightarrow> trace \<Rightarrow> string" where
  "api_list_backups env tr =
     (let bdir = backup_dir env
      in case he_list_dir (si_host (ae_site env)) tr bdir of
           None \<Rightarrow> json_response 200 ''[]''
         | Some entries \<Rightarrow>
             json_response 200 (''['' @ join_comma (sort (map (\<lambda>n.
               braces [json_pair ''id'' (jq (from_utf8_lossy n)), json_nat ''ts'' (ae_mtime env tr (path_join bdir n)),
                       json_pair ''has_users'' (bool_text (he_exists (si_host (ae_site env)) tr
                         (path_join (path_join bdir n) ''users.toml'')))])
               (filter (\<lambda>n. si_is_dir (ae_site env) tr (path_join bdir n) \<and> starts_with (from_utf8_lossy n) ''backup_'')
                  entries))) @ '']''))"

definition bad_backup_id :: "string \<Rightarrow> bool" where
  "bad_backup_id i \<longleftrightarrow> CHR ''/'' \<in> set i \<or> str_contains i ''..'' \<or> \<not> starts_with i ''backup_''"

definition api_restore :: "api_env \<Rightarrow> string \<Rightarrow> string host" where
  "api_restore env body =
     (case js_parse (si_json (ae_site env)) body of
        None \<Rightarrow> host_err (json_response 400 (error_body ''Invalid JSON''))
      | Some parsed \<Rightarrow>
     (case as_str (json_get parsed ''id'') of
        None \<Rightarrow> host_err (json_response 400 (error_body ''Missing id field''))
      | Some i \<Rightarrow>
     if bad_backup_id i then host_err (json_response 400 (error_body ''Invalid backup id''))
     else
       let bdir = path_join (backup_dir env) i; backup_users = path_join bdir ''users.toml''
       in exists_then (ae_site env) bdir (\<lambda>ex.
          if \<not> ex then host_err (json_response 404 (error_body ''Backup not found''))
          else
            host_then (host_map_err (\<lambda>e. json_response 500 (error_body (''config restore failed: '' @ e)))
              (do_effect (ae_site env) (Copy_File (path_join bdir ''runnginx.conf'') (ae_config_path env)))) (\<lambda>_.
            host_then (exists_then (ae_site env) backup_users (\<lambda>ex.
              if ex then host_ignore (do_effect (ae_site env) (Copy_File backup_users (users_file env)))
              else host_ok ())) (\<lambda>_.
            host_then (host_ignore (do_effect (ae_site env) Send_Reload)) (\<lambda>_.
            host_ok (json_response 200 (braces [json_pair ''ok'' ''true'', json_pair ''restored'' (jq i)]))))))))"

definition api_delete_backup :: "api_env \<Rightarrow> string \<Rightarrow> string host" where
  "api_delete_backup env i =
     (if bad_backup_id i then host_err (json_response 400 (error_body ''Invalid backup id''))
      else
        host_then (host_try (do_effect (ae_site env) (Remove_Dir_All (path_join (backup_dir env) i)))) (\<lambda>r.
        host_ok (case r of
            Inr _ \<Rightarrow> json_response 200 (braces [json_pair ''ok'' ''true'', json_pair ''deleted'' (jq i)])
          | Inl _ \<Rightarrow> json_response 404 (error_body ''Backup not found''))))"

definition api_reload :: "api_env \<Rightarrow> string host" where
  "api_reload env =
     host_then (host_ignore (do_effect (ae_site env) Send_Reload)) (\<lambda>_.
     host_ok (json_response 202 (braces [json_pair ''status'' (jq ''reloading'')])))"

section \<open>Sites\<close>

text \<open>\<open>let _ = ctx.reload_tx.send(())\<close>, after a result that says \<open>ok\<close>.\<close>

definition reload_if_ok :: "api_env \<Rightarrow> json \<Rightarrow> unit host" where
  "reload_if_ok env result =
     (if as_bool (json_get result ''ok'') = Some True then host_ignore (do_effect (ae_site env) Send_Reload)
      else host_ok ())"

definition opt_str :: "json \<Rightarrow> string \<Rightarrow> string option" where
  "opt_str v k = as_str (json_get v k)"

definition site_request_of_json :: "string \<Rightarrow> site_type \<Rightarrow> json \<Rightarrow> site_request" where
  "site_request_of_json domain t v =
     \<lparr>sr_domain = domain, sr_site_type = t, sr_php_version = opt_str v ''php_version'',
      sr_upstream_url = opt_str v ''upstream_url'', sr_db_host = opt_str v ''db_host'',
      sr_db_port = map_option (\<lambda>p. p mod 2 ^ 16) (as_u64 (json_get v ''db_port'')),
      sr_db_root_user = opt_str v ''db_root_user'', sr_db_root_pass = opt_str v ''db_root_pass'',
      sr_db_name = opt_str v ''db_name'', sr_db_user = opt_str v ''db_user'', sr_db_pass = opt_str v ''db_pass'',
      sr_ssl_mode = ssl_mode_from_str (str_field v ''ssl_mode'' ''none''), sr_ssl_email = opt_str v ''ssl_email'',
      sr_ssl_cert = opt_str v ''ssl_cert'', sr_ssl_key = opt_str v ''ssl_key'',
      sr_cloudflare = or_default False (as_bool (json_get v ''cloudflare''))\<rparr>"

definition handle_create_site :: "api_env \<Rightarrow> string \<Rightarrow> string host" where
  "handle_create_site env body =
     (case js_parse (si_json (ae_site env)) body of
        None \<Rightarrow> host_err (json_response 400 (error_body ''Invalid JSON''))
      | Some v \<Rightarrow>
     (case as_str (json_get v ''domain'') of
        None \<Rightarrow> host_err (json_response 400 (error_body ''domain required''))
      | Some domain \<Rightarrow>
     (case (case as_str (json_get v ''type'') of None \<Rightarrow> None | Some s \<Rightarrow> site_type_from_str s) of
        None \<Rightarrow> host_err (json_response 400 (error_body ''type must be static|php|wordpress|proxy''))
      | Some t \<Rightarrow>
          host_then (create_site (ae_site env) (site_request_of_json domain t v) (ae_config_path env)) (\<lambda>result.
          host_then (reload_if_ok env result) (\<lambda>_.
          host_ok (json_response (if as_bool (json_get result ''ok'') = Some True then 200 else 400)
            (js_print (si_json (ae_site env)) result)))))))"

definition json_has :: "json \<Rightarrow> string \<Rightarrow> bool" where
  "json_has v k = (case v of JObj kvs \<Rightarrow> map_of kvs k \<noteq> None | _ \<Rightarrow> False)"

definition handle_sites_route :: "api_env \<Rightarrow> string \<Rightarrow> string \<Rightarrow> string \<Rightarrow> string \<Rightarrow> string host" where
  "handle_sites_route env path query req_method body =
     (if req_method = ''DELETE'' \<and> length ''/api/sites/'' < length path then
        host_then (delete_site (ae_site env) (drop (length ''/api/sites/'') path) (ae_config_path env)
          (list_ex (\<lambda>p. p = ''delete_files=true'' \<or> p = ''delete_files=1'') (split_on (CHR ''&'') query))) (\<lambda>result.
        host_then (reload_if_ok env result) (\<lambda>_.
        host_ok (json_response (if json_has result ''error'' then 400 else 200) (js_print (si_json (ae_site env)) result))))
      else if req_method = ''POST'' \<and> path = ''/api/sites'' then handle_create_site env body
      else host_ok (json_response 404 (error_body ''not found'')))"

section \<open>Routes\<close>

definition on_host :: "string host \<Rightarrow> api_state \<Rightarrow> string \<times> api_state" where
  "on_host m st = (case finish m (ap_trace st) of (response, tr) \<Rightarrow> (response, st\<lparr>ap_trace := tr\<rparr>))"

definition too_many :: string where
  "too_many = json_response 429 (error_body ''rate limit exceeded'')"

definition handle_api_inner ::
    "api_env \<Rightarrow> string \<Rightarrow> string \<Rightarrow> string \<Rightarrow> string \<Rightarrow> ip_addr \<Rightarrow> api_state \<Rightarrow> string \<times> api_state" where
  "handle_api_inner env path query req_method body peer_ip st =
     (case rate_allow (ae_secs env) (ap_rate st) peer_ip of
        (False, rate) \<Rightarrow> (too_many, st\<lparr>ap_rate := rate\<rparr>)
      | (True, rate) \<Rightarrow>
          let st = st\<lparr>ap_rate := rate\<rparr>; body_str = from_utf8_lossy body
          in if req_method = ''GET'' \<and> path = ''/api/stats'' then (api_stats env, st)
             else if req_method = ''GET'' \<and> path = ''/api/system'' then (api_system env, st)
             else if req_method = ''POST'' \<and> path = ''/api/reload'' then on_host (api_reload env) st
             else if req_method = ''GET'' \<and> path = ''/api/logs'' then (api_logs env query, st)
             else if req_method = ''POST'' \<and> path = ''/api/backup'' then on_host (api_backup env body_str) st
             else if req_method = ''GET'' \<and> path = ''/api/backups'' then (api_list_backups env (ap_trace st), st)
             else if req_method = ''POST'' \<and> path = ''/api/restore'' then on_host (api_restore env body_str) st
             else if req_method = ''DELETE'' \<and> starts_with path ''/api/backups/'' then
               on_host (api_delete_backup env (drop (length ''/api/backups/'') path)) st
             else (json_response 404 (error_body ''not found''), st))"

definition unauthorized :: string where
  "unauthorized = json_response 401 (error_body ''unauthorized'')"

definition admin_request :: "api_env \<Rightarrow> (string \<times> string) list \<Rightarrow> api_state \<Rightarrow> bool" where
  "admin_request env headers st \<longleftrightarrow>
     has_valid_session (ae_now env) (ap_sessions st) headers \<or> is_authorized headers (http_api_key (ae_http env))"

definition handle_api ::
    "api_env \<Rightarrow> string \<Rightarrow> string \<Rightarrow> string \<Rightarrow> (string \<times> string) list \<Rightarrow> string \<Rightarrow> ip_addr \<Rightarrow> api_state
     \<Rightarrow> string option \<times> api_state" where
  "handle_api env path query req_method headers body peer_ip st =
     (if path = ''/health'' then (Some health_response, st)
      else if path = ''/metrics'' then (Some (prometheus_metrics env), st)
      else if path = ''/login'' \<and> req_method = ''GET'' then (Some (serve_login env), st)
      else if path = ''/login'' \<and> req_method = ''POST'' then
        (case rate_allow (ae_secs env) (ap_rate st) peer_ip of
           (False, rate) \<Rightarrow> (Some too_many, st\<lparr>ap_rate := rate\<rparr>)
         | (True, rate) \<Rightarrow> map_prod Some id (handle_login_post env body headers (st\<lparr>ap_rate := rate\<rparr>)))
      else if path = ''/logout'' \<and> req_method = ''POST'' then map_prod Some id (handle_logout headers st)
      else if path = ''/ui'' \<or> path = ''/ui/'' then
        (Some (if has_valid_session (ae_now env) (ap_sessions st) headers then serve_webui env else redirect_to_login), st)
      else if path = ''/api/sites'' \<and> req_method = ''POST'' then
        (if \<not> admin_request env headers st then (Some unauthorized, st)
         else map_prod Some id (on_host (handle_create_site env body) st))
      else if path = ''/api/sites'' \<and> req_method = ''GET'' then
        (if \<not> admin_request env headers st then (Some unauthorized, st)
         else map_prod Some id (on_host
           (host_then (list_sites (ae_site env) (ae_config_path env)) (\<lambda>v.
            host_ok (json_response 200 (js_print (si_json (ae_site env)) v)))) st))
      else if starts_with path ''/api/sites/'' then
        (if \<not> admin_request env headers st then (Some unauthorized, st)
         else map_prod Some id (on_host (handle_sites_route env path query req_method body) st))
      else if path = ''/api/php/versions'' \<and> req_method = ''GET'' then
        (if \<not> admin_request env headers st then (Some unauthorized, st)
         else map_prod Some id (on_host
           (host_then (list_php_versions (ae_site env)) (\<lambda>v.
            host_ok (json_response 200 (js_print (si_json (ae_site env)) v)))) st))
      else if starts_with path ''/api/'' then
        (if \<not> admin_request env headers st then (Some unauthorized, st)
         else map_prod Some id (handle_api_inner env path query req_method body peer_ip st))
      else (None, st))"

end
