(* ===== verification/Handler.thy ===== *)
theory Handler
  imports Http_Parse Router Rewrite Limit_Req Scan_Detector Upstream Cache Fastcgi Websocket Auth
    Compression Multiuser Api
begin

text \<open>
  The request handler, \<open>src/server/handler.rs\<close>: it composes every other component. A request is
  one step on \<open>handler_state\<close>, the shared state behind the \<open>Arc\<close>s of \<open>HandlerContext\<close>; what other
  tasks do while it waits for the network is not interleaved. \<open>handler_env\<close> is everything else one
  request meets: the configuration, the clocks, the file system, the regular expressions, the
  compressors, the network. \<open>'c\<close> is the type of a connection.
\<close>

section \<open>State and environment\<close>

record 'c handler_result =
  hr_bytes :: string
  hr_keep_alive :: bool
  hr_status :: nat
  hr_tunnel :: "'c option"

record 'c handler_state =
  hc_scan :: scan_detector
  hc_stats :: stats
  hc_api :: api_state
  hc_zones :: zone_registry
  hc_challenges :: "string \<Rightarrow> string option"
  hc_upstreams :: upstream_registry
  hc_cache :: response_cache
  hc_users :: registry
  hc_pool :: "'c pool"
  hc_log :: "log_entry list"
  hc_reports :: "(ip_addr \<times> nat) list"

text \<open>What connecting to a peer of an upstream group gives.\<close>

datatype 'c connect_outcome = Connected 'c | Connect_Failed | Nodelay_Failed

record 'c handler_env =
  hv_http :: http_block
  hv_api :: api_env
  hv_users :: mu_env
  hv_user_id :: "string option"
  hv_user_key :: "string option"
  hv_memchr :: memchr_lib
  hv_simd :: simd_level
  hv_regex :: "string \<Rightarrow> string \<Rightarrow> bool"
  hv_rewrite :: regex_lib
  hv_rnd :: rounding
  hv_rnd32 :: rounding
  hv_now :: nat
  hv_now_secs :: nat
  hv_micros :: nat
  hv_fs :: file_system
  hv_bcrypt :: "string \<Rightarrow> string \<Rightarrow> bool"
  hv_user_file :: "string \<Rightarrow> string option"
  hv_connect :: "string \<Rightarrow> string + 'c"
  hv_exchange :: "'c \<Rightarrow> string \<Rightarrow> string + read_event list"
  hv_peer_connect :: "socket_addr \<Rightarrow> 'c connect_outcome"
  hv_url_parse :: "string \<Rightarrow> url option"
  hv_fcgi :: fcgi_peer
  hv_param_order :: "(string \<times> string) list \<Rightarrow> (string \<times> string) list"
  hv_cache_order :: "cache_entries \<Rightarrow> cache_entries"
  hv_gzip :: "string \<Rightarrow> string option"
  hv_brotli :: "(string \<Rightarrow> string option) option"

section \<open>The challenge store\<close>

text \<open>\<open>ChallengeStore\<close> of \<open>src/acme/mod.rs\<close>.\<close>

definition set_challenge :: "string \<Rightarrow> string \<Rightarrow> (string \<Rightarrow> string option) \<Rightarrow> string \<Rightarrow> string option" where
  "set_challenge token key_auth store = store(token \<mapsto> key_auth)"

definition remove_challenge :: "string \<Rightarrow> (string \<Rightarrow> string option) \<Rightarrow> string \<Rightarrow> string option" where
  "remove_challenge token store = store(token := None)"

definition get_key_auth :: "(string \<Rightarrow> string option) \<Rightarrow> string \<Rightarrow> string option" where
  "get_key_auth store token = store token"

section \<open>Responses\<close>

definition status_table :: "(nat \<times> string) list" where
  "status_table =
     [(200, ''OK''), (206, ''Partial Content''), (301, ''Moved Permanently''), (302, ''Found''),
      (304, ''Not Modified''), (307, ''Temporary Redirect''), (308, ''Permanent Redirect''),
      (400, ''Bad Request''), (401, ''Unauthorized''), (403, ''Forbidden''), (404, ''Not Found''),
      (405, ''Method Not Allowed''), (408, ''Request Timeout''), (413, ''Content Too Large''),
      (429, ''Too Many Requests''), (500, ''Internal Server Error''), (501, ''Not Implemented''),
      (502, ''Bad Gateway''), (503, ''Service Unavailable'')]"

definition status_reason :: "nat \<Rightarrow> string" where
  "status_reason code = (case map_of status_table code of Some r \<Rightarrow> r | None \<Rightarrow> ''Unknown'')"

definition format_response :: "nat \<Rightarrow> (string \<times> string) list \<Rightarrow> bool \<Rightarrow> string \<Rightarrow> string" where
  "format_response status headers ka body =
     ''HTTP/1.1 '' @ show_nat status @ '' '' @ status_reason status @ CRLF
     @ ''Server: RunNginx/'' @ PKG_VERSION @ CRLF
     @ concat (map (\<lambda>kv. header_line kv @ CRLF) headers)
     @ (if ka then ''Connection: keep-alive'' else ''Connection: close'') @ CRLF @ CRLF @ body"

definition plain_result :: "nat \<Rightarrow> (string \<times> string) list \<Rightarrow> bool \<Rightarrow> bool \<Rightarrow> string \<Rightarrow> 'c handler_result" where
  "plain_result status headers header_ka ka body =
     \<lparr>hr_bytes = format_response status headers header_ka body, hr_keep_alive = ka, hr_status = status, hr_tunnel = None\<rparr>"

definition bad_request :: "string \<Rightarrow> bool \<Rightarrow> 'c handler_result" where
  "bad_request reason ka =
     (let body = ''Bad Request: '' @ reason @ CRLF
      in plain_result 400 [(''Content-Type'', ''text/plain''), (''Content-Length'', show_nat (length body))] ka ka body)"

definition blocked_result :: "'c handler_result" where
  "blocked_result =
     (let body = ''Too Many Requests''
      in plain_result 429 [(''Content-Length'', show_nat (length body)), (''Retry-After'', ''3600''),
           (''Content-Type'', ''text/plain'')] False False body)"

definition redirect_result :: "nat \<Rightarrow> string \<Rightarrow> bool \<Rightarrow> 'c handler_result" where
  "redirect_result status uri ka = plain_result status [(''Location'', uri), (''Content-Length'', ''0'')] ka ka []"

definition handle_return :: "return_directive \<Rightarrow> bool \<Rightarrow> 'c handler_result" where
  "handle_return rd ka =
     (let (body, location_hdr) = (case rd_body rd of
            Empty_Body \<Rightarrow> ([], None) | Text_Body t \<Rightarrow> (t, None) | Url_Body u \<Rightarrow> ([], Some u))
      in plain_result (rd_status rd)
           ([(''Content-Length'', show_nat (length body))]
            @ (case location_hdr of None \<Rightarrow> [] | Some u \<Rightarrow> [(''Location'', u)])
            @ (if body \<noteq> [] then [(''Content-Type'', ''text/plain'')] else []))
           ka ka body)"

definition extract_status_from_response :: "string \<Rightarrow> nat" where
  "extract_status_from_response bytes =
     (case nth_opt (split_whitespace (if is_utf8 bytes then bytes else [])) 1 of
        None \<Rightarrow> 200
      | Some s \<Rightarrow> (case parse_uint 16 s of None \<Rightarrow> 200 | Some n \<Rightarrow> n))"

section \<open>The request\<close>

record parsed_request =
  pr_method :: string
  pr_path :: string
  pr_query :: string
  pr_version_1_0 :: bool
  pr_headers :: "(string \<times> string) list"
  pr_host :: string
  pr_content_len :: nat

text \<open>With the full URI, the bytes of the body that have arrived, and whether to keep the connection.\<close>

record incoming =
  in_request :: parsed_request
  in_full_uri :: string
  in_body :: string
  in_keep_alive :: bool

definition split_uri :: "string \<Rightarrow> string \<times> string" where
  "split_uri full_uri =
     (case index_of (CHR ''?'') full_uri of
        Some q \<Rightarrow> (take q full_uri, drop (Suc q) full_uri)
      | None \<Rightarrow> (full_uri, []))"

definition content_length_of :: "(string \<times> string) list \<Rightarrow> nat" where
  "content_length_of headers =
     (case get_header headers ''content-length'' of
        None \<Rightarrow> 0
      | Some v \<Rightarrow> (case parse_uint 64 v of None \<Rightarrow> 0 | Some n \<Rightarrow> n))"

definition keeps_alive :: "bool \<Rightarrow> (string \<times> string) list \<Rightarrow> bool" where
  "keeps_alive version_1_0 headers \<longleftrightarrow>
     \<not> version_1_0 \<and>
     (case get_header headers ''connection'' of None \<Rightarrow> True | Some v \<Rightarrow> \<not> eq_ignore_ascii_case v ''close'')"

definition lossy_header :: "header \<Rightarrow> string \<times> string" where
  "lossy_header h = (from_utf8_lossy (hd_name h), from_utf8_lossy (hd_value h))"

definition read_request :: "'c handler_env \<Rightarrow> string \<Rightarrow> parse_error + incoming" where
  "read_request env raw =
     and_then (parse_request_line (hv_memchr env) (hv_simd env) raw) (\<lambda>(rl, rl_len).
     if \<not> is_uri_safe (rl_uri rl) then Inl (Err ''forbidden URI sequence'')
     else
       and_then (parse_headers (hv_memchr env) (hv_simd env) (drop rl_len raw)) (\<lambda>(raw_headers, headers_len).
       let version_1_0 = (rl_version rl = ''HTTP/1.0'');
           full_uri = from_utf8_lossy (rl_uri rl);
           headers = map lossy_header raw_headers;
           content_len = content_length_of headers
       in Inr
         \<lparr>in_request =
            \<lparr>pr_method = from_utf8_lossy (rl_method rl), pr_path = fst (split_uri full_uri),
             pr_query = snd (split_uri full_uri), pr_version_1_0 = version_1_0, pr_headers = headers,
             pr_host = str_or [] (get_header headers ''host''), pr_content_len = content_len\<rparr>,
          in_full_uri = full_uri,
          in_body = take content_len (drop (rl_len + headers_len) raw),
          in_keep_alive = keeps_alive version_1_0 headers\<rparr>))"

text \<open>The parser never reads outside its buffer, so that only its own errors are reported.\<close>

fun parse_error_text :: "parse_error \<Rightarrow> string" where
  "parse_error_text (Err e) = e"
| "parse_error_text (Fault f) = []"

section \<open>Logging\<close>

definition log_entry_of :: "parsed_request \<Rightarrow> string \<Rightarrow> socket_addr \<Rightarrow> nat \<Rightarrow> nat \<Rightarrow> log_entry" where
  "log_entry_of rq minor peer status body_bytes =
     \<lparr>le_remote_addr = peer, le_request_line = pr_method rq @ '' '' @ pr_path rq @ '' HTTP/1.'' @ minor,
      le_status = status, le_body_bytes = body_bytes,
      le_referer = str_or ''-'' (get_header (pr_headers rq) ''referer''),
      le_user_agent = str_or ''-'' (get_header (pr_headers rq) ''user-agent'')\<rparr>"

definition minor_version :: "parsed_request \<Rightarrow> string" where
  "minor_version rq = (if pr_version_1_0 rq then ''0'' else ''1'')"

definition log_to :: "http_block \<Rightarrow> log_entry \<Rightarrow> 'c handler_state \<Rightarrow> 'c handler_state" where
  "log_to http e st = st\<lparr>hc_log := hc_log st @ sent_entries (http_access_log http) [e]\<rparr>"

definition log_request ::
    "'c handler_env \<Rightarrow> parsed_request \<Rightarrow> socket_addr \<Rightarrow> 'c handler_result \<Rightarrow> 'c handler_state \<Rightarrow> 'c handler_state" where
  "log_request env rq peer r =
     log_to (hv_http env) (log_entry_of rq (minor_version rq) peer (hr_status r) (length (hr_bytes r)))"

text \<open>\<open>log_request(..); return r;\<close>\<close>

definition logged ::
    "'c handler_env \<Rightarrow> parsed_request \<Rightarrow> socket_addr \<Rightarrow> 'c handler_result \<Rightarrow> 'c handler_state
     \<Rightarrow> 'c handler_result \<times> 'c handler_state" where
  "logged env rq peer r st = (r, log_request env rq peer r st)"

section \<open>Before routing\<close>

text \<open>The cache, for \<open>GET\<close> and \<open>HEAD\<close>; a hit is counted at once with no duration.\<close>

definition serve_cached ::
    "'c handler_env \<Rightarrow> incoming \<Rightarrow> nat \<Rightarrow> 'c handler_state \<Rightarrow> 'c handler_result option \<times> 'c handler_state" where
  "serve_cached env inc raw_len st =
     (let rq = in_request inc
      in if pr_method rq \<in> set [''GET'', ''HEAD''] \<and> \<not> request_bypasses_cache (pr_headers rq) then
           (case cache_get (hv_now env) (cache_key (pr_host rq) (pr_method rq) (in_full_uri inc)) (hc_cache st) of
              (Some bytes, cache) \<Rightarrow>
                (Some \<lparr>hr_bytes = bytes, hr_keep_alive = True, hr_status = 200, hr_tunnel = None\<rparr>,
                 st\<lparr>hc_cache := cache, hc_stats := record_request 200 (length bytes) raw_len 0 (hc_stats st)\<rparr>)
            | (None, cache) \<Rightarrow> (None, st\<lparr>hc_cache := cache\<rparr>))
         else (None, st))"

definition challenge_prefix :: string where
  "challenge_prefix = ''/.well-known/acme-challenge/''"

definition serve_challenge :: "parsed_request \<Rightarrow> 'c handler_state \<Rightarrow> 'c handler_result option" where
  "serve_challenge rq st =
     (case strip_prefix (pr_path rq) challenge_prefix of
        None \<Rightarrow> None
      | Some token \<Rightarrow>
          map_option (\<lambda>key_auth. plain_result 200
              [(''Content-Type'', ''application/octet-stream''), (''Content-Length'', show_nat (length key_auth))]
              False False key_auth)
            (get_key_auth (hc_challenges st) token))"

definition bearer_token :: "parsed_request \<Rightarrow> string" where
  "bearer_token rq =
     (case get_header (pr_headers rq) ''authorization'' of
        None \<Rightarrow> []
      | Some h \<Rightarrow> (case strip_prefix h ''Bearer '' of None \<Rightarrow> [] | Some k \<Rightarrow> str_trim k))"

definition api_result :: "string \<Rightarrow> 'c handler_result" where
  "api_result bytes =
     \<lparr>hr_bytes = bytes, hr_keep_alive = False, hr_status = extract_status_from_response bytes, hr_tunnel = None\<rparr>"

definition serve_user_api ::
    "'c handler_env \<Rightarrow> incoming \<Rightarrow> socket_addr \<Rightarrow> 'c handler_state \<Rightarrow> 'c handler_result option \<times> 'c handler_state" where
  "serve_user_api env inc peer st =
     (let rq = in_request inc; key = bearer_token rq;
          is_admin = (http_api_key (hv_http env) \<noteq> [] \<and> key = http_api_key (hv_http env))
      in case handle_user_api (hv_users env) (si_json (ae_site (hv_api env))) (hv_user_id env) (hv_user_key env)
             (pr_path rq) (pr_method rq) (in_body inc) key is_admin (hc_users st) of
           (None, users) \<Rightarrow> (None, st\<lparr>hc_users := users\<rparr>)
         | (Some bytes, users) \<Rightarrow>
             (let r = api_result bytes
              in (Some r, log_to (hv_http env) (log_entry_of rq ''1'' peer (hr_status r) (length bytes)) (st\<lparr>hc_users := users\<rparr>))))"

definition api_view :: "'c handler_env \<Rightarrow> 'c handler_state \<Rightarrow> api_env" where
  "api_view env st = (hv_api env)\<lparr>ae_http := hv_http env, ae_stats := hc_stats st\<rparr>"

definition serve_api ::
    "'c handler_env \<Rightarrow> incoming \<Rightarrow> socket_addr \<Rightarrow> 'c handler_state \<Rightarrow> 'c handler_result option \<times> 'c handler_state" where
  "serve_api env inc peer st =
     (let rq = in_request inc
      in case handle_api (api_view env st) (pr_path rq) (pr_query rq) (pr_method rq) (pr_headers rq) (in_body inc)
             (sa_ip peer) (hc_api st) of
           (None, api) \<Rightarrow> (None, st\<lparr>hc_api := api\<rparr>)
         | (Some bytes, api) \<Rightarrow>
             (let r = api_result bytes
              in (Some r, log_to (hv_http env) (log_entry_of rq (minor_version rq) peer (hr_status r) (length bytes)) (st\<lparr>hc_api := api\<rparr>))))"

section \<open>Guards of a server and a location\<close>

text \<open>The rewrite rules: a redirect is the response, otherwise the path may have changed.\<close>

definition rewrite_request ::
    "'c handler_env \<Rightarrow> rewrite_rule list \<Rightarrow> bool \<Rightarrow> parsed_request \<Rightarrow> 'c handler_result + parsed_request" where
  "rewrite_request env rules ka rq =
     (if rules = [] then Inr rq
      else case apply_rewrites (hv_rewrite env) rules (pr_path rq) of
             RewriteRedirect uri status \<Rightarrow> Inl (redirect_result status uri ka)
           | Rewritten uri _ \<Rightarrow> Inr (rq\<lparr>pr_path := uri\<rparr>)
           | NoMatch \<Rightarrow> Inr rq)"

text \<open>\<open>location.and_then(f).or(server_value)\<close>\<close>

definition loc_or :: "location_block option \<Rightarrow> (location_block \<Rightarrow> 'a option) \<Rightarrow> 'a option \<Rightarrow> 'a option" where
  "loc_or location f server_value =
     (case (case location of None \<Rightarrow> None | Some l \<Rightarrow> f l) of Some x \<Rightarrow> Some x | None \<Rightarrow> server_value)"

definition basic_auth_ok :: "'c handler_env \<Rightarrow> auth_basic_config \<Rightarrow> parsed_request \<Rightarrow> bool" where
  "basic_auth_ok env ab rq =
     (case get_header (pr_headers rq) ''authorization'' of
        None \<Rightarrow> False
      | Some h \<Rightarrow> check_basic_auth (hv_bcrypt env) (hv_user_file env (ab_user_file ab)) h)"

definition check_auth ::
    "'c handler_env \<Rightarrow> server_block \<Rightarrow> location_block option \<Rightarrow> parsed_request \<Rightarrow> bool \<Rightarrow> socket_addr
     \<Rightarrow> 'c handler_state \<Rightarrow> ('c handler_result option \<times> 'c handler_state)" where
  "check_auth env server location rq ka peer st =
     (case loc_or location loc_auth_basic (srv_auth_basic server) of
        None \<Rightarrow> (None, st)
      | Some ab \<Rightarrow>
          if basic_auth_ok env ab rq then (None, st)
          else
            let bytes = unauthorized_response (ab_realm ab)
            in (Some \<lparr>hr_bytes = bytes, hr_keep_alive = ka, hr_status = 401, hr_tunnel = None\<rparr>,
                log_to (hv_http env) (log_entry_of rq ''1'' peer 401 (length bytes)) st))"

definition rate_limited_result :: "'c handler_result" where
  "rate_limited_result =
     plain_result 429 [(''Content-Type'', ''text/plain''), (''Content-Length'', ''19''), (''Retry-After'', ''1'')]
       False False ''429 Too Many Requests''"

definition check_rate ::
    "'c handler_env \<Rightarrow> server_block \<Rightarrow> location_block option \<Rightarrow> parsed_request \<Rightarrow> socket_addr
     \<Rightarrow> 'c handler_state \<Rightarrow> ('c handler_result option \<times> 'c handler_state)" where
  "check_rate env server location rq peer st =
     (case loc_or location loc_limit_req (srv_limit_req server) of
        None \<Rightarrow> (None, st)
      | Some lr \<Rightarrow>
     (case get_zone (hc_zones st) (lr_zone lr) of
        None \<Rightarrow> (None, st)
      | Some z \<Rightarrow>
     (case zone_allow (hv_rnd env) (hv_now env, lr_burst lr) z (sa_ip peer) of
        (ok, z) \<Rightarrow>
          (let st = st\<lparr>hc_zones := (hc_zones st)(lr_zone lr \<mapsto> z)\<rparr>
           in if ok then (None, st) else map_prod Some id (logged env rq peer rate_limited_result st)))))"

definition body_limit :: "http_block \<Rightarrow> server_block \<Rightarrow> location_block option \<Rightarrow> nat" where
  "body_limit http server location =
     (case loc_or location loc_client_max_body_size (srv_client_max_body_size server) of
        Some n \<Rightarrow> n | None \<Rightarrow> http_client_max_body_size http)"

definition too_large_result :: "bool \<Rightarrow> 'c handler_result" where
  "too_large_result ka =
     plain_result 413 [(''Content-Type'', ''text/plain''), (''Content-Length'', ''22'')] ka False ''413 Content Too Large''"

text \<open>The guards that end a request before its handler, in the code's order.\<close>

definition check_location ::
    "'c handler_env \<Rightarrow> server_block \<Rightarrow> location_block option \<Rightarrow> parsed_request \<Rightarrow> bool \<Rightarrow> socket_addr
     \<Rightarrow> 'c handler_state \<Rightarrow> ('c handler_result option \<times> 'c handler_state)" where
  "check_location env server location rq ka peer st =
     (case check_auth env server location rq ka peer st of
        (Some r, st) \<Rightarrow> (Some r, st)
      | (None, st) \<Rightarrow>
     (case check_rate env server location rq peer st of
        (Some r, st) \<Rightarrow> (Some r, st)
      | (None, st) \<Rightarrow>
          if body_limit (hv_http env) server location < pr_content_len rq
          then map_prod Some id (logged env rq peer (too_large_result ka) st)
          else
            (case loc_or location loc_return_directive (srv_return_directive server) of
               Some rd \<Rightarrow> map_prod Some id (logged env rq peer (handle_return rd ka) st)
             | None \<Rightarrow> (None, st))))"

section \<open>Handlers\<close>

definition serve_static_page ::
    "'c handler_env \<Rightarrow> server_block \<Rightarrow> location_block option \<Rightarrow> parsed_request \<Rightarrow> static_response" where
  "serve_static_page env server location rq =
     (let resp = serve_static (hv_fs env) server location (pr_path rq) (pr_method rq) (pr_headers rq)
      in if 400 \<le> sr_status resp then
           (case find_error_page_uri server (sr_status resp) of
              None \<Rightarrow> resp
            | Some ep_path \<Rightarrow>
                let ep_resp = serve_static (hv_fs env) server None ep_path ''GET'' []
                in if sr_status ep_resp = 200
                   then resp\<lparr>sr_body := sr_body ep_resp, sr_headers := sr_headers ep_resp\<rparr> else resp)
         else resp)"

definition location_prefix :: "location_block option \<Rightarrow> string" where
  "location_prefix location =
     (case map_option loc_pattern location of
        Some (Prefix p) \<Rightarrow> p | Some (PrefixNoRegex p) \<Rightarrow> p | _ \<Rightarrow> [])"

definition is_ws_upgrade :: "parsed_request \<Rightarrow> bool" where
  "is_ws_upgrade rq =
     list_ex (\<lambda>(k, v). eq_ignore_ascii_case k ''upgrade'' \<and> eq_ignore_ascii_case v ''websocket'') (pr_headers rq)"

definition tunnel_websocket ::
    "'c handler_env \<Rightarrow> proxy_config \<Rightarrow> parsed_request \<Rightarrow> socket_addr \<Rightarrow> 'c handler_state
     \<Rightarrow> 'c handler_result \<times> 'c handler_state" where
  "tunnel_websocket env pc rq peer st =
     (let addr = str_or ''127.0.0.1'' (url_host (pc_upstream pc)) @ '':'' @ show_nat (port_of pc)
      in case upgrade_to_websocket (hv_connect env) (hv_exchange env) addr (pr_method rq) (pr_path rq) (pr_headers rq) of
           Inr (resp_bytes, upstream) \<Rightarrow>
             (\<lparr>hr_bytes = resp_bytes, hr_keep_alive = False, hr_status = 101, hr_tunnel = Some upstream\<rparr>,
              log_to (hv_http env) (log_entry_of rq ''1'' peer 101 0) st)
         | Inl e \<Rightarrow> (plain_result 502 [(''Content-Length'', ''0'')] False False [], st))"

text \<open>\<open>UpstreamGroup::connect\<close>: the group after it, and the connection with the address of its peer.\<close>

definition group_connect ::
    "'c handler_env \<Rightarrow> upstream_group \<Rightarrow> ip_addr \<Rightarrow> ('c \<times> socket_addr) option \<times> upstream_group" where
  "group_connect env g ip =
     (case begin_connect g (hv_now_secs env) (Some ip) of
        None \<Rightarrow> (None, g)
      | Some (i, g) \<Rightarrow>
          let addr = pe_addr (up_peers g ! i)
          in case hv_peer_connect env addr of
               Connected c \<Rightarrow> (Some (c, addr), connect_ok i g)
             | Connect_Failed \<Rightarrow> (None, connect_failed i (hv_now_secs env) g)
             | Nodelay_Failed \<Rightarrow> (None, connect_nodelay_failed i g))"

definition show_socket :: "socket_addr \<Rightarrow> string" where
  "show_socket a =
     (case sa_ip a of
        V4 _ \<Rightarrow> show_ip (sa_ip a)
      | V6 _ \<Rightarrow> ''['' @ show_ip (sa_ip a) @ '']'') @ '':'' @ show_nat (unat (sa_port a))"

definition peer_proxy_config :: "'c handler_env \<Rightarrow> socket_addr \<Rightarrow> proxy_config" where
  "peer_proxy_config env addr =
     \<lparr>pc_upstream = the (hv_url_parse env (''http://'' @ show_socket addr)), pc_set_headers = [],
      pc_read_timeout = 60, pc_connect_timeout = 10, pc_buffering = True, pc_http2 = False,
      pc_allow_internal = True\<rparr>"

definition serve_group ::
    "'c handler_env \<Rightarrow> location_block option \<Rightarrow> string \<Rightarrow> parsed_request \<Rightarrow> string \<Rightarrow> ip_addr \<Rightarrow> 'c handler_state
     \<Rightarrow> static_response \<times> 'c handler_state" where
  "serve_group env location name rq body ip st =
     (case get_group (hc_upstreams st) name of
        None \<Rightarrow> (not_implemented ''upstream group not found'', st)
      | Some g \<Rightarrow>
     (case group_connect env g ip of
        (None, g) \<Rightarrow> (not_implemented ''502 upstream unavailable'', st\<lparr>hc_upstreams := (hc_upstreams st)(name \<mapsto> g)\<rparr>)
      | (Some (c, addr), g) \<Rightarrow>
          (proxy_request_stream (hv_exchange env) (peer_proxy_config env addr) (pr_method rq) (pr_path rq)
             (location_prefix location) (pr_headers rq) body c,
           st\<lparr>hc_upstreams := (hc_upstreams st)(name \<mapsto> release addr g)\<rparr>)))"

definition fastcgi_root :: "server_block \<Rightarrow> location_block option \<Rightarrow> string" where
  "fastcgi_root server location = str_or ''/var/www/html'' (loc_or location loc_root (srv_root server))"

definition script_path_of :: "string \<Rightarrow> fastcgi_config \<Rightarrow> string \<Rightarrow> string" where
  "script_path_of root_str fc path =
     (let script_path = trim_end_char (CHR ''/'') root_str @ ''/'' @ trim_start_char (CHR ''/'') path;
          index = str_or ''index.php'' (fc_index fc)
      in if ends_with path ''/'' \<or> path_extension script_path = None
         then trim_end_char (CHR ''/'') script_path @ ''/'' @ index else script_path)"

definition serve_fastcgi ::
    "'c handler_env \<Rightarrow> server_block \<Rightarrow> location_block option \<Rightarrow> fastcgi_config \<Rightarrow> parsed_request \<Rightarrow> string \<Rightarrow> static_response" where
  "serve_fastcgi env server location fc rq body =
     (let full_uri = (if pr_query rq = [] then pr_path rq else pr_path rq @ ''?'' @ pr_query rq)
      in fastcgi_request (hv_param_order env) (hv_fcgi env) PKG_VERSION fc (pr_method rq) full_uri
           (script_path_of (fastcgi_root server location) fc (pr_path rq)) (pr_headers rq) body)"

text \<open>The handler of the location: the response, or a result that is returned as it is. A proxied
  request is sent without its body.\<close>

definition run_handler ::
    "'c handler_env \<Rightarrow> server_block \<Rightarrow> location_block option \<Rightarrow> parsed_request \<Rightarrow> string \<Rightarrow> bool \<Rightarrow> socket_addr
     \<Rightarrow> 'c handler_state \<Rightarrow> ('c handler_result + static_response) \<times> 'c handler_state" where
  "run_handler env server location rq body ka peer st =
     (case map_option loc_handler location of
        Some (Return rd) \<Rightarrow> map_prod Inl id (logged env rq peer (handle_return rd ka) st)
      | Some Static \<Rightarrow> (Inr (serve_static_page env server location rq), st)
      | None \<Rightarrow> (Inr (serve_static_page env server location rq), st)
      | Some (Proxy pc) \<Rightarrow>
          if is_ws_upgrade rq then map_prod Inl id (tunnel_websocket env pc rq peer st)
          else
            (case proxy_request (hv_connect env) (hv_exchange env) pc (pr_method rq) (pr_path rq)
                (location_prefix location) (pr_headers rq) [] (hc_pool st) of
               (resp, pool) \<Rightarrow> (Inr resp, st\<lparr>hc_pool := pool\<rparr>))
      | Some (UpstreamGroup name) \<Rightarrow>
          map_prod Inr id (serve_group env location name rq body (sa_ip peer) st)
      | Some (FastCgi fc) \<Rightarrow> (Inr (serve_fastcgi env server location fc rq body), st))"

section \<open>The response\<close>

text \<open>Compression: the body, and the coding it got.\<close>

definition compress_body ::
    "'c handler_env \<Rightarrow> location_block option \<Rightarrow> parsed_request \<Rightarrow> static_response \<Rightarrow> string \<times> string option" where
  "compress_body env location rq resp =
     (let http = hv_http env;
          content_type = str_or ''application/octet-stream'' (get_header (sr_headers resp) ''content-type'');
          accept_enc = get_header (pr_headers rq) ''accept-encoding'';
          gzip_enabled = (case (case location of None \<Rightarrow> None | Some l \<Rightarrow> loc_gzip l) of Some b \<Rightarrow> b | None \<Rightarrow> http_gzip http);
          (body, gzipped) = maybe_compress (hv_gzip env) (sr_body resp) content_type accept_enc
             \<lparr>cc_enabled = gzip_enabled, cc_min_length = http_gzip_min_length http, cc_types = http_gzip_types http\<rparr>
      in if gzipped then (body, Some ''gzip'')
         else
           let (body, brotli_used) = maybe_brotli (hv_brotli env) body content_type accept_enc
                 \<lparr>cc_enabled = http_brotli http, cc_min_length = http_brotli_min_length http, cc_types = http_brotli_types http\<rparr>
           in (body, if brotli_used then Some ''br'' else None))"

text \<open>\<open>hdrs[pos] = ..\<close> at the first \<open>Content-Length\<close>.\<close>

fun set_content_length :: "nat \<Rightarrow> (string \<times> string) list \<Rightarrow> (string \<times> string) list" where
  "set_content_length n [] = []"
| "set_content_length n ((k, v) # hs) =
     (if eq_ignore_ascii_case k ''content-length'' then (''Content-Length'', show_nat n) # hs
      else (k, v) # set_content_length n hs)"

definition coding_headers :: "string option \<Rightarrow> nat \<Rightarrow> (string \<times> string) list \<Rightarrow> (string \<times> string) list" where
  "coding_headers coding n hs =
     (case coding of None \<Rightarrow> hs | Some c \<Rightarrow> set_content_length n (hs @ [(''Content-Encoding'', c)]))"

definition added_headers :: "server_block \<Rightarrow> location_block option \<Rightarrow> bool \<Rightarrow> (string \<times> string) list" where
  "added_headers server location is_tls =
     srv_add_headers server
     @ (case location of None \<Rightarrow> [] | Some l \<Rightarrow> loc_add_headers l)
     @ (case srv_hsts_max_age server of
          Some max_age \<Rightarrow>
            if is_tls then
              [(''Strict-Transport-Security'', ''max-age='' @ show_nat max_age
                 @ (if srv_hsts_include_subdomains server then ''; includeSubDomains'' else []))]
            else []
        | None \<Rightarrow> [])"

definition store_response ::
    "'c handler_env \<Rightarrow> parsed_request \<Rightarrow> nat \<Rightarrow> (string \<times> string) list \<Rightarrow> string \<Rightarrow> response_cache \<Rightarrow> response_cache" where
  "store_response env rq status hdrs bytes cache =
     (if is_cacheable (pr_method rq) status hdrs \<and> \<not> request_bypasses_cache (pr_headers rq)
      then cache_put (hv_cache_order env) (hv_now env) (cache_key (pr_host rq) (pr_method rq) (pr_path rq)) bytes status cache
      else cache)"

definition send_response ::
    "'c handler_env \<Rightarrow> server_block \<Rightarrow> location_block option \<Rightarrow> parsed_request \<Rightarrow> bool \<Rightarrow> bool \<Rightarrow> socket_addr
     \<Rightarrow> static_response \<Rightarrow> 'c handler_state \<Rightarrow> 'c handler_result \<times> 'c handler_state" where
  "send_response env server location rq ka is_tls peer resp st =
     (let status = sr_status resp;
          (body, coding) = compress_body env location rq resp;
          hdrs = coding_headers coding (length body) (sr_headers resp) @ added_headers server location is_tls;
          bytes = format_response status hdrs ka body;
          st = log_to (hv_http env) (log_entry_of rq (minor_version rq) peer status (length body)) st;
          st = st\<lparr>hc_cache := store_response env rq status hdrs bytes (hc_cache st)\<rparr>
      in case scan_record (hv_rnd32 env) (hv_now env, pr_path rq, status) (hc_scan st) (sa_ip peer) of
           (_, detector, reports) \<Rightarrow>
             (\<lparr>hr_bytes = bytes, hr_keep_alive = ka, hr_status = status, hr_tunnel = None\<rparr>,
              st\<lparr>hc_scan := detector, hc_reports := hc_reports st @ reports\<rparr>))"

section \<open>Dispatch\<close>

definition dispatch_location ::
    "'c handler_env \<Rightarrow> server_block \<Rightarrow> location_block option \<Rightarrow> parsed_request \<Rightarrow> string \<Rightarrow> bool \<Rightarrow> bool \<Rightarrow> socket_addr
     \<Rightarrow> 'c handler_state \<Rightarrow> 'c handler_result \<times> 'c handler_state" where
  "dispatch_location env server location rq body ka is_tls peer st =
     (case check_location env server location rq ka peer st of
        (Some r, st) \<Rightarrow> (r, st)
      | (None, st) \<Rightarrow>
     (case run_handler env server location rq body ka peer st of
        (Inl r, st) \<Rightarrow> (r, st)
      | (Inr resp, st) \<Rightarrow> send_response env server location rq ka is_tls peer resp st))"

text \<open>There is a server: without one the program has no listener and ends at once.\<close>

definition dispatch_server ::
    "'c handler_env \<Rightarrow> incoming \<Rightarrow> bool \<Rightarrow> socket_addr \<Rightarrow> 'c handler_state \<Rightarrow> 'c handler_result \<times> 'c handler_state" where
  "dispatch_server env inc is_tls peer st =
     (let rq = in_request inc; ka = in_keep_alive inc;
          server = the (select_server (http_servers (hv_http env)) (pr_host rq))
      in if srv_ssl_redirect server \<and> \<not> is_tls then
           logged env rq peer
             (redirect_result 301 (''https://'' @ (if pr_host rq = [] then ''localhost'' else pr_host rq) @ pr_path rq) ka) st
         else
           (case rewrite_request env (srv_rewrites server) ka rq of
              Inl r \<Rightarrow> logged env rq peer r st
            | Inr rq \<Rightarrow>
                let location = select_location (hv_regex env) server (pr_path rq)
                in case rewrite_request env (case location of None \<Rightarrow> [] | Some l \<Rightarrow> loc_rewrites l) ka rq of
                     Inl r \<Rightarrow> logged env rq peer r st
                   | Inr rq \<Rightarrow> dispatch_location env server location rq (in_body inc) ka is_tls peer st))"

definition dispatch_request ::
    "'c handler_env \<Rightarrow> incoming \<Rightarrow> nat \<Rightarrow> bool \<Rightarrow> socket_addr \<Rightarrow> 'c handler_state \<Rightarrow> 'c handler_result \<times> 'c handler_state" where
  "dispatch_request env inc raw_len is_tls peer st =
     (case serve_cached env inc raw_len st of
        (Some r, st) \<Rightarrow> (r, st)
      | (None, st) \<Rightarrow>
     (case serve_challenge (in_request inc) st of
        Some r \<Rightarrow> (r, st)
      | None \<Rightarrow>
     (case serve_user_api env inc peer st of
        (Some r, st) \<Rightarrow> (r, st)
      | (None, st) \<Rightarrow>
     (case serve_api env inc peer st of
        (Some r, st) \<Rightarrow> (r, st)
      | (None, st) \<Rightarrow> dispatch_server env inc is_tls peer st))))"

definition dispatch ::
    "'c handler_env \<Rightarrow> string \<Rightarrow> socket_addr \<Rightarrow> bool \<Rightarrow> 'c handler_state \<Rightarrow> 'c handler_result \<times> 'c handler_state" where
  "dispatch env raw peer is_tls st =
     (if is_blocked (hv_now env) (hc_scan st) (sa_ip peer) then (blocked_result, st)
      else case read_request env raw of
             Inl e \<Rightarrow> (bad_request (parse_error_text e) False, st)
           | Inr inc \<Rightarrow> dispatch_request env inc (length raw) is_tls peer st)"

definition handle ::
    "'c handler_env \<Rightarrow> string \<Rightarrow> socket_addr \<Rightarrow> bool \<Rightarrow> 'c handler_state \<Rightarrow> 'c handler_result \<times> 'c handler_state" where
  "handle env raw peer is_tls st =
     (let st = st\<lparr>hc_stats := (hc_stats st)\<lparr>st_active := fetch_add (st_active (hc_stats st)) 1\<rparr>\<rparr>;
          (result, st) = dispatch env raw peer is_tls st;
          s = (hc_stats st)\<lparr>st_active := (st_active (hc_stats st) + 2 ^ 64 - 1) mod 2 ^ 64\<rparr>
      in (result,
          st\<lparr>hc_stats := record_request (hr_status result) (length (hr_bytes result)) (length raw) (hv_micros env) s\<rparr>))"

end
