(* ===== verification/Conf_Http.thy ===== *)
theory Conf_Http
  imports Conf_Server Rust_Path
begin

text \<open>
  The \<open>http\<close> block of \<open>src/config/parser.rs\<close> (\<open>parse_http_block\<close>): the directives in the code's
  order, the nested \<open>upstream\<close> block with its own loop, and \<open>include\<close>, which scans the included
  files for server blocks.
\<close>

text \<open>The glob an \<open>include\<close> pattern stands for, relative to the directory of the file it is in.\<close>

definition include_glob :: "string \<Rightarrow> string \<Rightarrow> string" where
  "include_glob config_path pattern =
     (let base_dir = (case path_parent config_path of None \<Rightarrow> ''/'' | Some d \<Rightarrow> d)
      in if is_absolute pattern then pattern else path_join base_dir pattern)"

section \<open>Upstream groups\<close>

definition new_upstream_group :: "string \<Rightarrow> upstream_group_def" where
  "new_upstream_group name =
     \<lparr>ug_name = name, ug_peers = [], ug_policy = ''round_robin'', ug_health_interval = 0,
      ug_health_timeout = 5, ug_fail_timeout = 30, ug_max_fails = 3, ug_keepalive = 0\<rparr>"

definition peer_weight :: "string list \<Rightarrow> nat" where
  "peer_weight args =
     fold (\<lambda>a w. case strip_prefix a ''weight='' of Some v \<Rightarrow> parse_or 32 1 v | None \<Rightarrow> w) args 1"

definition health_arg :: "string \<Rightarrow> upstream_group_def \<Rightarrow> upstream_group_def" where
  "health_arg a g =
     (let g = (case strip_prefix a ''interval='' of
                 Some v \<Rightarrow> g\<lparr>ug_health_interval := parse_or 64 0 (trim_s v)\<rparr> | None \<Rightarrow> g)
      in case strip_prefix a ''timeout='' of
           Some v \<Rightarrow> g\<lparr>ug_health_timeout := parse_or 64 5 (trim_s v)\<rparr> | None \<Rightarrow> g)"

definition skip_upstream_unknown :: "token list \<Rightarrow> token list" where
  "skip_upstream_unknown ts = (case snd (collect_args ts) of Semicolon # r \<Rightarrow> r | r \<Rightarrow> r)"

definition upstream_directive ::
  "string \<Rightarrow> token list \<Rightarrow> upstream_group_def \<Rightarrow> conf_error + (upstream_group_def \<times> token list)" where
  "upstream_directive w ts g =
     (if w = ''server'' then
        and_then (expect_word ts) (\<lambda>(addr, r). and_then (args_semi r) (\<lambda>(args, r).
        Inr (g\<lparr>ug_peers := ug_peers g @ [(addr, peer_weight args)]\<rparr>, r)))
      else if w = ''least_conn'' then
        and_then (expect_semi ts) (\<lambda>r. Inr (g\<lparr>ug_policy := ''least_conn''\<rparr>, r))
      else if w = ''ip_hash'' then
        and_then (expect_semi ts) (\<lambda>r. Inr (g\<lparr>ug_policy := ''ip_hash''\<rparr>, r))
      else if w = ''random'' then
        and_then (expect_semi ts) (\<lambda>r. Inr (g\<lparr>ug_policy := ''random''\<rparr>, r))
      else if w = ''keepalive'' then
        and_then (one_word ts) (\<lambda>(v, r). Inr (g\<lparr>ug_keepalive := parse_or 64 0 v\<rparr>, r))
      else if w = ''fail_timeout'' then
        and_then (one_word ts) (\<lambda>(v, r). Inr (g\<lparr>ug_fail_timeout := parse_or 64 30 (trim_s v)\<rparr>, r))
      else if w = ''max_fails'' then
        and_then (one_word ts) (\<lambda>(v, r). Inr (g\<lparr>ug_max_fails := parse_or 32 3 v\<rparr>, r))
      else if w = ''health_check'' then
        and_then (args_semi ts) (\<lambda>(args, r). Inr (fold health_arg args g, r))
      else Inr (g, skip_upstream_unknown ts))"

lemma skip_upstream_unknown_length: "length (skip_upstream_unknown ts) \<le> length ts"
proof -
  have "length (skip_upstream_unknown ts) \<le> length (snd (collect_args ts))"
    unfolding skip_upstream_unknown_def by (auto split: list.splits token.splits)
  then show ?thesis using collect_args_length order_trans by blast
qed

lemma upstream_directive_consumes:
  "res_sat (upstream_directive w ts g) (\<lambda>(g', r). length r \<le> length ts)"
  unfolding upstream_directive_def
  by (intro sat_rules) (simp_all add: skip_upstream_unknown_length)

function upstream_loop :: "token list \<Rightarrow> upstream_group_def \<Rightarrow> conf_error + (upstream_group_def \<times> token list)" where
  "upstream_loop ts g =
     (case ts of
        [] \<Rightarrow> Inr (g, [])
      | CloseBrace # r \<Rightarrow> Inr (g, r)
      | Word w # r \<Rightarrow> and_then (upstream_directive w r g) (\<lambda>(g, r). upstream_loop r g)
      | _ # r \<Rightarrow> upstream_loop r g)"
  by pat_completeness auto
termination
  by (relation "measure (\<lambda>(ts, g). length ts)")
     (auto dest: res_satD [OF upstream_directive_consumes])

declare upstream_loop.simps [simp del]

text \<open>What the parser guarantees of a group: the policy is one the balancer knows.\<close>

definition policy_ok :: "upstream_group_def \<Rightarrow> bool" where
  "policy_ok g \<longleftrightarrow> ug_policy g \<in> {''round_robin'', ''least_conn'', ''ip_hash'', ''random''}"

lemma health_arg_policy: "ug_policy (fold health_arg args g) = ug_policy g"
  by (induction args arbitrary: g) (auto simp: health_arg_def Let_def split: option.splits)

lemma upstream_directive_ok:
  "policy_ok g \<Longrightarrow> res_sat (upstream_directive w ts g) (\<lambda>(g', r). policy_ok g')"
  unfolding upstream_directive_def
  by (intro sat_rules) (simp_all add: policy_ok_def health_arg_policy)

interpretation upstream_block: block_parser upstream_directive upstream_loop policy_ok
proof unfold_locales
  fix t :: token and ts s
  assume "t = Semicolon \<or> t = OpenBrace"
  then show "(\<exists>e. upstream_loop (t # ts) s = Inl e) \<or> upstream_loop (t # ts) s = upstream_loop ts s"
    by (auto simp: upstream_loop.simps [of "t # ts"])
qed (simp_all add: upstream_directive_consumes upstream_directive_ok upstream_loop.simps)

lemma sat_upstream_loop [sat_rules]:
  "policy_ok g \<Longrightarrow> (\<And>g' r. policy_ok g' \<Longrightarrow> length r \<le> length ts \<Longrightarrow> P (g', r))
   \<Longrightarrow> res_sat (upstream_loop ts g) P"
  by (rule res_sat_mono [OF upstream_block.loop_inv]) auto

section \<open>The http block\<close>

record http_state =
  hs_http :: http_block
  hs_server_count :: nat

definition on_http :: "(http_block \<Rightarrow> http_block) \<Rightarrow> http_state \<Rightarrow> http_state" where
  "on_http f st = st\<lparr>hs_http := f (hs_http st)\<rparr>"

definition push_server :: "server_block \<Rightarrow> http_state \<Rightarrow> http_state" where
  "push_server srv st =
     (on_http (\<lambda>h. h\<lparr>http_servers := http_servers h @ [srv]\<rparr>) st)
       \<lparr>hs_server_count := hs_server_count st + 1\<rparr>"

text \<open>The scan of one included file: every server block in it, whatever stands around it. Once the
  limit is reached the blocks are no longer parsed, and the scan goes on inside them.\<close>

function include_servers :: "conf_env \<Rightarrow> token list \<Rightarrow> http_state \<Rightarrow> conf_error + http_state" where
  "include_servers env ts st =
     (case ts of
        [] \<Rightarrow> Inr st
      | t # r \<Rightarrow>
          if t = Word ''server'' then
            (case r of
               OpenBrace # r' \<Rightarrow>
                 if hs_server_count st < MAX_SERVER_BLOCKS then
                   and_then (parse_server_block env r') (\<lambda>(srv, r'').
                   include_servers env r'' (push_server srv st))
                 else include_servers env r' st
             | _ \<Rightarrow> include_servers env r st)
          else include_servers env r st)"
  by pat_completeness auto
termination
  by (relation "measure (\<lambda>(env, ts, st). length ts)")
     (auto dest: parse_server_block_length)

declare include_servers.simps [simp del]

primrec include_files :: "conf_env \<Rightarrow> string list \<Rightarrow> http_state \<Rightarrow> conf_error + http_state" where
  "include_files env [] st = Inr st"
| "include_files env (e # es) st =
     and_then (ok_or (env_read env e) Unreadable_File) (\<lambda>src.
     and_then (include_servers env (tokenize src) st) (\<lambda>st. include_files env es st))"

definition size_arg :: "token list \<Rightarrow> conf_error + (nat \<times> token list)" where
  "size_arg ts =
     and_then (expect_word ts) (\<lambda>(v, r). and_then (ok_or (parse_size v) Bad_Size) (\<lambda>n.
     and_then (expect_semi r) (\<lambda>r. Inr (n, r))))"

text \<open>The two timeouts; \<open>keepalive_timeout\<close> allows a second argument, which it skips.\<close>

definition timeout_arg :: "(token list \<Rightarrow> token list) \<Rightarrow> token list \<Rightarrow> conf_error + (nat \<times> token list)" where
  "timeout_arg skip ts =
     and_then (expect_word ts) (\<lambda>(v, r). and_then (ok_or (parse_uint 64 (trim_s v)) Bad_Timeout) (\<lambda>n.
     and_then (expect_semi (skip r)) (\<lambda>r. Inr (n, r))))"

definition add_zone :: "conf_env \<Rightarrow> string list \<Rightarrow> http_block \<Rightarrow> http_block" where
  "add_zone env args h =
     (case (find (\<lambda>a. starts_with a ''zone='') args, find (\<lambda>a. starts_with a ''rate='') args) of
        (Some z, Some r) \<Rightarrow>
          (case parse_rate (env_rnd env) (trim_start_str ''rate='' r) of
             Some rps \<Rightarrow> h\<lparr>http_limit_req_zones := http_limit_req_zones h @
                [\<lparr>lz_name = hd (split_on (CHR '':'') (trim_start_str ''zone='' z)), lz_rate_rps = rps\<rparr>]\<rparr>
           | None \<Rightarrow> h)
      | _ \<Rightarrow> h)"

definition http_directive ::
  "conf_env \<Rightarrow> string \<Rightarrow> string \<Rightarrow> token list \<Rightarrow> http_state \<Rightarrow> conf_error + (http_state \<times> token list)" where
  "http_directive env path w ts st =
     (if w = ''gzip'' then
        and_then (one_word ts) (\<lambda>(v, r). Inr (on_http (\<lambda>h. h\<lparr>http_gzip := (v = ''on'')\<rparr>) st, r))
      else if w = ''gzip_types'' then
        and_then (args_semi ts) (\<lambda>(args, r). Inr (on_http (\<lambda>h. h\<lparr>http_gzip_types := args\<rparr>) st, r))
      else if w = ''gzip_min_length'' then
        and_then (size_arg ts) (\<lambda>(n, r). Inr (on_http (\<lambda>h. h\<lparr>http_gzip_min_length := n\<rparr>) st, r))
      else if w = ''access_log'' then
        and_then (parse_access_log ts) (\<lambda>(l, r). Inr (on_http (\<lambda>h. h\<lparr>http_access_log := l\<rparr>) st, r))
      else if w = ''client_max_body_size'' then
        and_then (body_size ts) (\<lambda>(n, r). Inr (on_http (\<lambda>h. h\<lparr>http_client_max_body_size := n\<rparr>) st, r))
      else if w = ''keepalive_timeout'' then
        and_then (timeout_arg skip_word ts) (\<lambda>(n, r).
        Inr (on_http (\<lambda>h. h\<lparr>http_keepalive_timeout := n\<rparr>) st, r))
      else if w = ''send_timeout'' then
        and_then (timeout_arg id ts) (\<lambda>(n, r). Inr (on_http (\<lambda>h. h\<lparr>http_send_timeout := n\<rparr>) st, r))
      else if w = ''api_key'' then
        and_then (one_word ts) (\<lambda>(v, r). Inr (on_http (\<lambda>h. h\<lparr>http_api_key := v\<rparr>) st, r))
      else if w = ''webui_admin_user'' then
        and_then (one_word ts) (\<lambda>(v, r). Inr (on_http (\<lambda>h. h\<lparr>http_webui_admin_user := v\<rparr>) st, r))
      else if w = ''webui_admin_password'' then
        and_then (one_word ts) (\<lambda>(v, r). Inr (on_http (\<lambda>h. h\<lparr>http_webui_admin_password := v\<rparr>) st, r))
      else if w = ''brotli'' then
        and_then (one_word ts) (\<lambda>(v, r). Inr (on_http (\<lambda>h. h\<lparr>http_brotli := (v = ''on'')\<rparr>) st, r))
      else if w = ''brotli_types'' then
        and_then (args_semi ts) (\<lambda>(args, r). Inr (on_http (\<lambda>h. h\<lparr>http_brotli_types := args\<rparr>) st, r))
      else if w = ''brotli_min_length'' then
        and_then (size_arg ts) (\<lambda>(n, r). Inr (on_http (\<lambda>h. h\<lparr>http_brotli_min_length := n\<rparr>) st, r))
      else if w = ''limit_req_zone'' then
        and_then (args_semi ts) (\<lambda>(args, r). Inr (on_http (add_zone env args) st, r))
      else if w = ''upstream'' then
        and_then (expect_word ts) (\<lambda>(name, r). and_then (expect_open r) (\<lambda>r.
        and_then (upstream_loop r (new_upstream_group name)) (\<lambda>(g, r).
        Inr (on_http (\<lambda>h. h\<lparr>http_upstream_groups := http_upstream_groups h @ [g]\<rparr>) st, r))))
      else if w = ''server'' then
        and_then (expect_open ts) (\<lambda>r.
        if MAX_SERVER_BLOCKS \<le> hs_server_count st then Inl Too_Many_Servers
        else and_then (parse_server_block env r) (\<lambda>(srv, r). Inr (push_server srv st, r)))
      else if w = ''include'' then
        and_then (one_word ts) (\<lambda>(pattern, r).
        and_then (include_files env (env_glob env (include_glob path pattern)) st) (\<lambda>st. Inr (st, r)))
      else Inr (st, skip_unknown ts))"

lemma sat_size_arg [sat_rules]:
  "(\<And>n r. length r < length ts \<Longrightarrow> P (n, r)) \<Longrightarrow> res_sat (size_arg ts) P"
  unfolding size_arg_def by (intro sat_rules) auto

lemma sat_timeout_arg [sat_rules]:
  "(\<And>r. length (skip r) \<le> length r) \<Longrightarrow> (\<And>n r. length r < length ts \<Longrightarrow> P (n, r))
   \<Longrightarrow> res_sat (timeout_arg skip ts) P"
  unfolding timeout_arg_def by (intro sat_rules) (meson le_less_trans less_le_trans less_imp_le)

section \<open>The invariant of the http block\<close>

definition http_ok :: "http_block \<Rightarrow> bool" where
  "http_ok h \<longleftrightarrow> list_all server_ok (http_servers h)
     \<and> http_client_max_body_size h \<le> ABSOLUTE_MAX_BODY_BYTES
     \<and> list_all policy_ok (http_upstream_groups h)"

definition http_state_ok :: "http_state \<Rightarrow> bool" where
  "http_state_ok st \<longleftrightarrow> http_ok (hs_http st)
     \<and> hs_server_count st = length (http_servers (hs_http st)) \<and> hs_server_count st \<le> MAX_SERVER_BLOCKS"

lemma push_server_ok:
  "http_state_ok st \<Longrightarrow> server_ok srv \<Longrightarrow> hs_server_count st < MAX_SERVER_BLOCKS
   \<Longrightarrow> http_state_ok (push_server srv st)"
  by (simp add: push_server_def on_http_def http_state_ok_def http_ok_def)

lemma include_servers_ok:
  "http_state_ok st \<Longrightarrow> res_sat (include_servers env ts st) http_state_ok"
proof (induction "length ts" arbitrary: ts st rule: less_induct)
  case less
  show ?case
  proof (cases ts)
    case Nil
    then show ?thesis using less.prems by (simp add: include_servers.simps res_sat_def)
  next
    case (Cons t r)
    have IH: "res_sat (include_servers env q s) http_state_ok" if "length q \<le> length r" "http_state_ok s" for q s
      using less.hyps [of q s] that Cons by simp
    show ?thesis
      unfolding Cons include_servers.simps [of env "t # r"] using less.prems
      by (auto split: list.splits token.splits intro!: sat_rules IH push_server_ok)
  qed
qed

lemma sat_include_files:
  "http_state_ok st \<Longrightarrow> (\<And>st'. http_state_ok st' \<Longrightarrow> P st') \<Longrightarrow> res_sat (include_files env es st) P"
proof (induction es arbitrary: st)
  case Nil
  then show ?case by (simp add: res_sat_def)
next
  case (Cons e es)
  have "res_sat (include_servers env (tokenize src) st) (\<lambda>st. res_sat (include_files env es st) P)" for src
    by (rule res_sat_mono [OF include_servers_ok [OF Cons.prems(1)] Cons.IH [OF _ Cons.prems(2)]])
  then show ?case by (simp add: res_sat_and_then sat_ok_or)
qed

lemma new_upstream_group_ok: "policy_ok (new_upstream_group name)"
  by (simp add: new_upstream_group_def policy_ok_def)

text \<open>A change to the fields the invariant does not read keeps it.\<close>

lemma on_http_ok:
  assumes "http_state_ok st"
    and "\<And>h. http_servers (f h) = http_servers h" "\<And>h. http_upstream_groups (f h) = http_upstream_groups h"
    and "\<And>h. http_client_max_body_size (f h) = http_client_max_body_size h"
  shows "http_state_ok (on_http f st)"
  using assms by (simp add: http_state_ok_def http_ok_def on_http_def)

lemma add_zone_fields:
  "http_servers (add_zone env args h) = http_servers h"
  "http_upstream_groups (add_zone env args h) = http_upstream_groups h"
  "http_client_max_body_size (add_zone env args h) = http_client_max_body_size h"
  by (simp_all add: add_zone_def split: option.splits)

lemma http_directive_consumes:
  "res_sat (http_directive env path w ts st) (\<lambda>(st', r). length r \<le> length ts)"
  unfolding http_directive_def
  by (intro sat_rules new_upstream_group_ok)
     (simp_all add: skip_unknown_length skip_word_length res_sat_def)

function http_loop ::
  "conf_env \<Rightarrow> string \<Rightarrow> token list \<Rightarrow> http_state \<Rightarrow> conf_error + (http_state \<times> token list)" where
  "http_loop env path ts st =
     (case ts of
        [] \<Rightarrow> Inr (st, [])
      | CloseBrace # r \<Rightarrow> Inr (st, r)
      | Word w # r \<Rightarrow> and_then (http_directive env path w r st) (\<lambda>(st, r). http_loop env path r st)
      | _ \<Rightarrow> Inl Unexpected_Http_Token)"
  by pat_completeness auto
termination
  by (relation "measure (\<lambda>(env, path, ts, st). length ts)")
     (auto dest: res_satD [OF http_directive_consumes])

declare http_loop.simps [simp del]

definition parse_http_block ::
  "conf_env \<Rightarrow> string \<Rightarrow> token list \<Rightarrow> conf_error + (http_block \<times> token list)" where
  "parse_http_block env path ts =
     and_then (http_loop env path ts \<lparr>hs_http = default_http_block, hs_server_count = 0\<rparr>) (\<lambda>(st, r).
     Inr (hs_http st, r))"

lemma http_directive_ok:
  assumes "http_state_ok st"
  shows "res_sat (http_directive env path w ts st) (\<lambda>(st', r). http_state_ok st')"
  unfolding http_directive_def
  apply (intro sat_rules new_upstream_group_ok sat_include_files [OF assms])
  apply (use assms in \<open>simp_all add: on_http_ok add_zone_fields skip_word_length push_server_ok\<close>)
  apply (simp_all add: http_state_ok_def http_ok_def on_http_def)
  done

interpretation http_block: block_parser "http_directive env path" "http_loop env path" http_state_ok
  for env path
proof unfold_locales
  fix t :: token and ts s
  assume "t = Semicolon \<or> t = OpenBrace"
  then show "(\<exists>e. http_loop env path (t # ts) s = Inl e) \<or> http_loop env path (t # ts) s = http_loop env path ts s"
    by (auto simp: http_loop.simps [of env path "t # ts"])
qed (simp_all add: http_directive_consumes http_directive_ok http_loop.simps)

lemma default_http_ok: "http_state_ok \<lparr>hs_http = default_http_block, hs_server_count = 0\<rparr>"
  by (simp add: http_state_ok_def http_ok_def default_http_block_def default_body_below_ceiling)

lemma sat_parse_http_block [sat_rules]:
  "(\<And>h r. http_ok h \<Longrightarrow> length (http_servers h) \<le> MAX_SERVER_BLOCKS \<Longrightarrow> length r \<le> length ts \<Longrightarrow> P (h, r))
   \<Longrightarrow> res_sat (parse_http_block env path ts) P"
  unfolding parse_http_block_def
  by (intro sat_rules res_sat_mono [OF http_block.loop_inv [OF default_http_ok]])
     (auto simp: http_state_ok_def intro!: sat_rules)

section \<open>Unknown directives\<close>

text \<open>An unknown directive with its arguments and a block with matching braces, or a semicolon,
  leaves no trace in the configuration.\<close>

definition http_keywords :: "string list" where
  "http_keywords =
     [''gzip'', ''gzip_types'', ''gzip_min_length'', ''access_log'', ''client_max_body_size'',
      ''keepalive_timeout'', ''send_timeout'', ''api_key'', ''webui_admin_user'',
      ''webui_admin_password'', ''brotli'', ''brotli_types'', ''brotli_min_length'',
      ''limit_req_zone'', ''upstream'', ''server'', ''include'']"

lemma skip_unknown_block:
  "balanced body \<Longrightarrow> skip_unknown (map Word args @ OpenBrace # body @ CloseBrace # r) = r"
  by (simp add: skip_unknown_def collect_args_words skip_block_balanced)

lemma skip_unknown_semi: "skip_unknown (map Word args @ Semicolon # r) = r"
  by (simp add: skip_unknown_def collect_args_words)

lemma http_unknown:
  "w \<notin> set http_keywords \<Longrightarrow> http_directive env path w ts st = Inr (st, skip_unknown ts)"
  by (simp add: http_directive_def http_keywords_def)

end
