(* ===== verification/Conf_Root.thy ===== *)
theory Conf_Root
  imports Conf_Http
begin

text \<open>
  The top level of \<open>src/config/parser.rs\<close>: \<open>parse_root\<close> with its \<open>events\<close> block, \<open>include\<close> with
  its depth limit, and the entry points \<open>load_from_str\<close> and \<open>load\<close>. The recursion through
  \<open>include\<close> goes down one level per file and the code refuses it at depth \<open>MAX_INCLUDE_DEPTH\<close>;
  \<open>parse_root_at k\<close> is the parser with \<open>k\<close> levels left.
\<close>

definition default_config :: "conf_env \<Rightarrow> config" where
  "default_config env =
     \<lparr>cfg_worker_processes = Auto, cfg_worker_connections = 1024, cfg_http = default_http_block,
      cfg_firewall_manage = True, cfg_firewall_backend = None, cfg_firewall_tag = ''runnginx'',
      cfg_icmp_protection = True, cfg_numa_pin = False, cfg_scan_detection = True,
      cfg_scan_window_secs = 60, cfg_scan_req_threshold = 100,
      cfg_scan_error_rate = env_rnd32 env (60 / 100), cfg_scan_block_secs = 3600,
      cfg_scan_abuseipdb_key = None, cfg_scan_abuseipdb_report = False, cfg_scan_whitelist = []\<rparr>"

section \<open>The events block\<close>

definition connections_arg :: "token list \<Rightarrow> conf_error + (nat \<times> token list)" where
  "connections_arg ts =
     and_then (expect_word ts) (\<lambda>(v, r). and_then (ok_or (parse_uint 64 v) Bad_Worker_Connections) (\<lambda>n.
     and_then (expect_semi r) (\<lambda>r. Inr (n, r))))"

definition events_item :: "string \<Rightarrow> token list \<Rightarrow> config \<Rightarrow> conf_error + (config \<times> token list)" where
  "events_item w ts cfg =
     (if w = ''worker_connections'' then
        and_then (connections_arg ts) (\<lambda>(n, r). Inr (cfg\<lparr>cfg_worker_connections := n\<rparr>, r))
      else Inr (cfg, case snd (collect_args ts) of Semicolon # r \<Rightarrow> r | r \<Rightarrow> r))"

lemma sat_connections_arg [sat_rules]:
  "(\<And>n r. length r < length ts \<Longrightarrow> P (n, r)) \<Longrightarrow> res_sat (connections_arg ts) P"
  unfolding connections_arg_def by (intro sat_rules) auto

lemma semi_opt_length: "length (case ts of Semicolon # r \<Rightarrow> r | r \<Rightarrow> r) \<le> length ts"
  by (auto split: list.splits token.splits)

lemma events_item_spec:
  "res_sat (events_item w ts cfg) (\<lambda>(cfg', r). cfg_http cfg' = cfg_http cfg \<and> length r \<le> length ts)"
  unfolding events_item_def
  by (intro sat_rules) (simp_all add: order_trans [OF semi_opt_length collect_args_length])

function events_loop :: "token list \<Rightarrow> config \<Rightarrow> conf_error + (config \<times> token list)" where
  "events_loop ts cfg =
     (case ts of
        Word w # r \<Rightarrow> and_then (events_item w r cfg) (\<lambda>(cfg, r).
          case r of CloseBrace # r' \<Rightarrow> Inr (cfg, r') | _ \<Rightarrow> events_loop r cfg)
      | _ \<Rightarrow> Inr (cfg, ts))"
  by pat_completeness auto
termination
  by (relation "measure (\<lambda>(ts, cfg). length ts)")
     (auto dest: res_satD [OF events_item_spec])

declare events_loop.simps [simp del]

lemma sat_events_loop [sat_rules]:
  "(\<And>cfg' r. cfg_http cfg' = cfg_http cfg \<Longrightarrow> length r \<le> length ts \<Longrightarrow> P (cfg', r))
   \<Longrightarrow> res_sat (events_loop ts cfg) P"
proof (induction "length ts" arbitrary: ts cfg rule: less_induct)
  case less
  show ?case
  proof (cases "\<exists>w r. ts = Word w # r")
    case True
    then obtain w r where ts: "ts = Word w # r" by blast
    have "res_sat (case r' of CloseBrace # r'' \<Rightarrow> Inr (cfg', r'') | _ \<Rightarrow> events_loop r' cfg') P"
      if h: "cfg_http cfg' = cfg_http cfg" "length r' \<le> length r" for cfg' r'
    proof -
      have "res_sat (events_loop r' cfg') P" using less.hyps [of r' cfg'] less.prems h ts by auto
      moreover have "P (cfg', r'')" if "r' = CloseBrace # r''" for r''
        using less.prems h ts that by simp
      ultimately show ?thesis by (auto split: list.splits token.splits intro: res_sat_Inr)
    qed
    then show ?thesis
      unfolding ts events_loop.simps [of "_ # _"] list.case token.case
      by (intro res_sat_and_then res_sat_mono [OF events_item_spec]) auto
  next
    case False
    then have "events_loop ts cfg = Inr (cfg, ts)"
      by (subst events_loop.simps) (auto split: list.splits token.splits)
    then show ?thesis using less.prems by (simp add: res_sat_def)
  qed
qed

section \<open>The root directives\<close>

text \<open>\<open>inc pattern cfg\<close> is what \<open>include\<close> does at the depth of the file being parsed.\<close>

type_synonym includer = "string \<Rightarrow> config \<Rightarrow> conf_error + config"

definition root_directive ::
  "conf_env \<Rightarrow> includer \<Rightarrow> string \<Rightarrow> string \<Rightarrow> token list \<Rightarrow> config \<Rightarrow> conf_error + (config \<times> token list)" where
  "root_directive env inc path w ts cfg =
     (if w = ''firewall_manage'' \<or> w = ''firewall'' then
        and_then (one_word ts) (\<lambda>(v, r).
        Inr (cfg\<lparr>cfg_firewall_manage := (v \<notin> set [''off'', ''false'', ''no'', ''0''])\<rparr>, r))
      else if w = ''firewall_backend'' then
        and_then (one_word ts) (\<lambda>(v, r).
        Inr (cfg\<lparr>cfg_firewall_backend := (if v = ''auto'' then None else Some v)\<rparr>, r))
      else if w = ''firewall_tag'' then
        and_then (one_word ts) (\<lambda>(v, r). Inr (cfg\<lparr>cfg_firewall_tag := v\<rparr>, r))
      else if w = ''worker_processes'' then
        and_then (expect_word ts) (\<lambda>(v, r). and_then (parse_worker_count v) (\<lambda>n.
        and_then (expect_semi r) (\<lambda>r. Inr (cfg\<lparr>cfg_worker_processes := n\<rparr>, r))))
      else if w = ''worker_connections'' then
        and_then (connections_arg ts) (\<lambda>(n, r). Inr (cfg\<lparr>cfg_worker_connections := n\<rparr>, r))
      else if w = ''events'' then
        and_then (expect_open ts) (\<lambda>r. events_loop r cfg)
      else if w = ''http'' then
        and_then (expect_open ts) (\<lambda>r. and_then (parse_http_block env path r) (\<lambda>(h, r).
        Inr (cfg\<lparr>cfg_http := h\<rparr>, r)))
      else if w = ''include'' then
        and_then (one_word ts) (\<lambda>(pattern, r). and_then (inc pattern cfg) (\<lambda>cfg. Inr (cfg, r)))
      else if w = ''numa_pin'' \<or> w = ''numa-pin'' then
        and_then (one_word ts) (\<lambda>(v, r).
        Inr (cfg\<lparr>cfg_numa_pin := (trim_matches_char DQUOTE v \<noteq> ''no'' \<and> trim_matches_char DQUOTE v \<noteq> ''off'')\<rparr>, r))
      else if w = ''icmp_protection'' \<or> w = ''icmp-protection'' then
        and_then (one_word ts) (\<lambda>(v, r). Inr (cfg\<lparr>cfg_icmp_protection := not_off v\<rparr>, r))
      else if w = ''scan_detection'' \<or> w = ''scan-detection'' then
        and_then (one_word ts) (\<lambda>(v, r). Inr (cfg\<lparr>cfg_scan_detection := not_off v\<rparr>, r))
      else if w = ''scan_window'' \<or> w = ''scan_detection_window'' then
        and_then (one_word ts) (\<lambda>(v, r). Inr (cfg\<lparr>cfg_scan_window_secs := parse_or 64 60 v\<rparr>, r))
      else if w = ''scan_threshold'' \<or> w = ''scan_detection_threshold'' then
        and_then (one_word ts) (\<lambda>(v, r). Inr (cfg\<lparr>cfg_scan_req_threshold := parse_or 64 100 v\<rparr>, r))
      else if w = ''scan_error_rate'' \<or> w = ''scan_detection_error_rate'' then
        and_then (one_word ts) (\<lambda>(v, r).
        Inr (cfg\<lparr>cfg_scan_error_rate := (case parse_flt (env_rnd32 env) v of
              Some x \<Rightarrow> x | None \<Rightarrow> env_rnd32 env (60 / 100))\<rparr>, r))
      else if w = ''scan_block'' \<or> w = ''scan_detection_block'' then
        and_then (one_word ts) (\<lambda>(v, r). Inr (cfg\<lparr>cfg_scan_block_secs := parse_or 64 3600 v\<rparr>, r))
      else if w = ''abuseipdb_key'' \<or> w = ''scan_detection_abuseipdb_key'' then
        and_then (one_word ts) (\<lambda>(v, r).
        Inr (cfg\<lparr>cfg_scan_abuseipdb_key := Some (trim_matches_char DQUOTE v)\<rparr>, r))
      else if w = ''abuseipdb_report'' \<or> w = ''scan_detection_abuseipdb_report'' then
        and_then (one_word ts) (\<lambda>(v, r). Inr (cfg\<lparr>cfg_scan_abuseipdb_report := not_off v\<rparr>, r))
      else Inr (cfg, skip_unknown ts))"

lemma sat_parse_worker_count [sat_rules]: "(\<And>n. P n) \<Longrightarrow> res_sat (parse_worker_count s) P"
  by (simp add: res_sat_def)

lemma root_directive_consumes:
  "res_sat (root_directive env inc path w ts cfg) (\<lambda>(cfg', r). length r \<le> length ts)"
  unfolding root_directive_def
  by (intro sat_rules) (simp_all add: skip_unknown_length, simp add: res_sat_def)

function root_loop ::
  "conf_env \<Rightarrow> includer \<Rightarrow> string \<Rightarrow> token list \<Rightarrow> config \<Rightarrow> conf_error + config" where
  "root_loop env inc path ts cfg =
     (case ts of
        Word w # r \<Rightarrow> and_then (root_directive env inc path w r cfg) (\<lambda>(cfg, r). root_loop env inc path r cfg)
      | _ \<Rightarrow> Inr cfg)"
  by pat_completeness auto
termination
  by (relation "measure (\<lambda>(env, inc, path, ts, cfg). length ts)")
     (auto dest: res_satD [OF root_directive_consumes])

declare root_loop.simps [simp del]

section \<open>Includes\<close>

text \<open>Of an included configuration only the servers are kept.\<close>

definition merge_servers :: "config \<Rightarrow> config \<Rightarrow> config" where
  "merge_servers cfg sub =
     cfg\<lparr>cfg_http := (cfg_http cfg)\<lparr>http_servers := http_servers (cfg_http cfg) @ http_servers (cfg_http sub)\<rparr>\<rparr>"

primrec root_include ::
  "conf_env \<Rightarrow> (string \<Rightarrow> token list \<Rightarrow> conf_error + config) \<Rightarrow> string list \<Rightarrow> config \<Rightarrow> conf_error + config" where
  "root_include env parse [] cfg = Inr cfg"
| "root_include env parse (e # es) cfg =
     and_then (ok_or (env_read env e) Unreadable_File) (\<lambda>src.
     and_then (parse e (tokenize src)) (\<lambda>sub.
     root_include env parse es (merge_servers cfg sub)))"

primrec parse_root_at :: "nat \<Rightarrow> conf_env \<Rightarrow> string \<Rightarrow> token list \<Rightarrow> conf_error + config" where
  "parse_root_at 0 env path ts =
     root_loop env (\<lambda>pattern cfg. Inl Include_Depth) path ts (default_config env)"
| "parse_root_at (Suc k) env path ts =
     root_loop env (\<lambda>pattern cfg.
         root_include env (parse_root_at k env) (env_glob env (include_glob path pattern)) cfg)
       path ts (default_config env)"

definition parse_root :: "conf_env \<Rightarrow> string \<Rightarrow> nat \<Rightarrow> token list \<Rightarrow> conf_error + config" where
  "parse_root env path depth ts = parse_root_at (MAX_INCLUDE_DEPTH - depth) env path ts"

definition load_from_str :: "conf_env \<Rightarrow> string \<Rightarrow> conf_error + config" where
  "load_from_str env src = parse_root env ''<string>'' 0 (tokenize src)"

definition load :: "conf_env \<Rightarrow> string \<Rightarrow> conf_error + config" where
  "load env path =
     and_then (ok_or (env_read env path) Unreadable_File) (\<lambda>src. parse_root env path 0 (tokenize src))"

text \<open>The parser at a depth is the parser of the code: an include opens its files at the next depth
  and is refused at the limit.\<close>

lemma parse_root_unfold:
  "parse_root env path depth ts =
     root_loop env (\<lambda>pattern cfg.
        if MAX_INCLUDE_DEPTH \<le> depth then Inl Include_Depth
        else root_include env (\<lambda>p. parse_root env p (depth + 1)) (env_glob env (include_glob path pattern)) cfg)
       path ts (default_config env)"
proof (cases "MAX_INCLUDE_DEPTH \<le> depth")
  case False
  then obtain k where k: "MAX_INCLUDE_DEPTH - depth = Suc k" "MAX_INCLUDE_DEPTH - (depth + 1) = k"
    by (metis Suc_diff_Suc Suc_eq_plus1 not_le)
  have "parse_root env p (depth + 1) = parse_root_at k env p" for p
    by (rule ext) (simp only: parse_root_def k)
  then have "(\<lambda>p. parse_root env p (depth + 1)) = parse_root_at k env" by (rule ext)
  with False show ?thesis by (simp only: parse_root_def k parse_root_at.simps if_False)
qed (simp add: parse_root_def)

section \<open>Every configuration that loads\<close>

lemma root_directive_ok:
  assumes "http_ok (cfg_http cfg)"
    and inc: "\<And>p c. http_ok (cfg_http c) \<Longrightarrow> res_sat (inc p c) (\<lambda>c. http_ok (cfg_http c))"
  shows "res_sat (root_directive env inc path w ts cfg) (\<lambda>(cfg', r). http_ok (cfg_http cfg'))"
  unfolding root_directive_def
  apply (intro sat_rules)
  apply (use assms(1) in simp_all)
  apply (rule res_sat_mono [OF inc])
  apply (use assms(1) in \<open>simp_all add: res_sat_def\<close>)
  done

lemma root_loop_ok:
  assumes inc: "\<And>p c. http_ok (cfg_http c) \<Longrightarrow> res_sat (inc p c) (\<lambda>c. http_ok (cfg_http c))"
  shows "http_ok (cfg_http cfg) \<Longrightarrow> res_sat (root_loop env inc path ts cfg) (\<lambda>c. http_ok (cfg_http c))"
proof (induction "length ts" arbitrary: ts cfg rule: less_induct)
  case less
  show ?case
  proof (cases "\<exists>w r. ts = Word w # r")
    case True
    then obtain w r where ts: "ts = Word w # r" by blast
    have "res_sat (root_directive env inc path w r cfg) (\<lambda>(c, q). http_ok (cfg_http c) \<and> length q \<le> length r)"
      using root_directive_consumes [of env inc path w r cfg] root_directive_ok [OF less.prems inc, where env = env and path = path and w = w and ts = r]
      by (auto simp: res_sat_def)
    then show ?thesis
      unfolding ts root_loop.simps [of env inc path "_ # _"] list.case token.case
      using less.hyps ts by (intro res_sat_and_then) (auto elim!: res_sat_mono)
  next
    case False
    then have "root_loop env inc path ts cfg = Inr cfg"
      by (subst root_loop.simps) (auto split: list.splits token.splits)
    then show ?thesis using less.prems by (simp add: res_sat_def)
  qed
qed

lemma default_config_ok: "http_ok (cfg_http (default_config env))"
  using default_http_ok by (simp add: default_config_def http_state_ok_def)

lemma root_include_ok:
  assumes parse: "\<And>p ts. res_sat (parse p ts) (\<lambda>c. http_ok (cfg_http c))"
  shows "http_ok (cfg_http cfg) \<Longrightarrow> res_sat (root_include env parse es cfg) (\<lambda>c. http_ok (cfg_http c))"
proof (induction es arbitrary: cfg)
  case (Cons e es)
  have "http_ok (cfg_http (merge_servers cfg sub))" if "http_ok (cfg_http sub)" for sub
    using that Cons.prems by (simp add: merge_servers_def http_ok_def)
  then show ?case
    using Cons.IH by (auto intro!: sat_rules res_sat_mono [OF parse])
qed (simp add: res_sat_def)

lemma parse_root_at_ok: "res_sat (parse_root_at k env path ts) (\<lambda>c. http_ok (cfg_http c))"
proof (induction k arbitrary: path ts)
  case 0
  show ?case
    by (simp add: root_loop_ok default_config_ok res_sat_Inl)
next
  case (Suc k)
  show ?case
    by (simp add: root_loop_ok default_config_ok root_include_ok Suc.IH)
qed

lemma sat_load: "res_sat (load env path) (\<lambda>c. http_ok (cfg_http c))"
  unfolding load_def parse_root_def by (intro sat_rules parse_root_at_ok)

section \<open>Include cycles\<close>

lemma root_loop_include:
  "root_loop env inc path (Word ''include'' # Word pattern # Semicolon # r) cfg
   = and_then (inc pattern cfg) (\<lambda>cfg. root_loop env inc path r cfg)"
  by (simp add: root_loop.simps [of env inc path "Word _ # _"] root_directive_def one_word_def
      expect_word_def expect_semi_def) (cases "inc pattern cfg"; simp)

lemma include_cycle_error:
  assumes cyc: "\<And>p. p \<in> S \<Longrightarrow> \<exists>src pattern r q qs. env_read env p = Some src
      \<and> tokenize src = Word ''include'' # Word pattern # Semicolon # r
      \<and> env_glob env (include_glob p pattern) = q # qs \<and> q \<in> S"
  shows "p \<in> S \<Longrightarrow> env_read env p = Some src \<Longrightarrow> parse_root_at k env p (tokenize src) = Inl Include_Depth"
proof (induction k arbitrary: p src)
  case 0
  then show ?case using cyc [OF 0(1)] by (auto simp: root_loop_include)
next
  case (Suc k)
  obtain pattern r q qs where t: "tokenize src = Word ''include'' # Word pattern # Semicolon # r"
    and g: "env_glob env (include_glob p pattern) = q # qs" and q: "q \<in> S"
    using cyc [OF Suc.prems(1)] Suc.prems(2) by auto
  obtain src' where "env_read env q = Some src'" using cyc [OF q] by auto
  then show ?case using Suc.IH [OF q] t g by (simp add: root_loop_include ok_or_def)
qed

text \<open>An events block without a directive stops the parser: whatever follows it is not read.\<close>

lemma root_loop_events_empty:
  "root_loop env inc path (Word ''events'' # OpenBrace # CloseBrace # r) cfg = Inr cfg"
  by (simp add: root_loop.simps [of env inc path "Word _ # _"] root_directive_def expect_open_def
      events_loop.simps [of "CloseBrace # r"] root_loop.simps [of env inc path "CloseBrace # r"])

end
