(* ===== verification/Firewall.thy ===== *)
theory Firewall
  imports Rust_Bytes Rust_Num Host_Env
begin

text \<open>
  The firewall manager, \<open>src/firewall/backend.rs\<close>: which firewall is there, the rules opened at the
  start and closed at the end. It runs commands on the host of \<open>Host_Env\<close>. A lock that a panic
  poisoned is entered anyway, so that the list of rules is plain state. The log is left out.
\<close>

section \<open>Backends\<close>

datatype backend = Ufw | Nftables | Iptables | No_Backend

definition cmd_exists :: "host_env \<Rightarrow> string \<Rightarrow> bool host" where
  "cmd_exists env name =
     host_then (host_try (host_run env ''which'' [name]))
       (\<lambda>r. host_ok (case r of Inl _ \<Rightarrow> False | Inr (success, _) \<Rightarrow> success))"

definition ufw_active :: "host_env \<Rightarrow> bool host" where
  "ufw_active env =
     host_then (host_try (host_run env ''ufw'' [''status'']))
       (\<lambda>r. host_ok (case r of Inl _ \<Rightarrow> False
          | Inr (_, out, _) \<Rightarrow> str_contains (from_utf8_lossy out) ''Status: active''))"

definition detect :: "host_env \<Rightarrow> backend host" where
  "detect env =
     host_then (cmd_exists env ''ufw'') (\<lambda>has_ufw.
     host_then (if has_ufw then ufw_active env else host_ok False) (\<lambda>active.
     if active then host_ok Ufw
     else
       host_then (cmd_exists env ''nft'') (\<lambda>has_nft.
       if has_nft then host_ok Nftables
       else
         host_then (cmd_exists env ''iptables'') (\<lambda>has_iptables.
         host_ok (if has_iptables then Iptables else No_Backend)))))"

fun backend_as_str :: "backend \<Rightarrow> string" where
  "backend_as_str Ufw = ''ufw''"
| "backend_as_str Nftables = ''nftables''"
| "backend_as_str Iptables = ''iptables''"
| "backend_as_str No_Backend = ''none''"

section \<open>The manager\<close>

record fw_rule =
  fr_port :: nat
  fr_proto :: string
  fr_nft_handle :: "nat option"

record firewall =
  fw_backend :: backend
  fw_tag :: string
  fw_dry_run :: bool
  fw_opened :: "fw_rule list"

text \<open>\<open>dry_run\<close> is the environment variable \<open>RUNNGINX_FIREWALL_DRY_RUN\<close>.\<close>

definition new_firewall :: "host_env \<Rightarrow> string option \<Rightarrow> bool \<Rightarrow> string option \<Rightarrow> string \<Rightarrow> firewall host" where
  "new_firewall env dry_run manage backend_override tag =
     host_then
       (if \<not> manage then host_ok No_Backend
        else if backend_override = Some ''ufw'' then host_ok Ufw
        else if backend_override = Some ''nftables'' then host_ok Nftables
        else if backend_override = Some ''iptables'' then host_ok Iptables
        else if backend_override = Some ''none'' \<or> backend_override = Some ''no'' then host_ok No_Backend
        else detect env)
       (\<lambda>b. host_ok \<lparr>fw_backend = b, fw_tag = tag, fw_dry_run = (dry_run = Some ''1''), fw_opened = []\<rparr>)"

definition fw_run :: "host_env \<Rightarrow> string \<Rightarrow> string list \<Rightarrow> string host" where
  "fw_run env cmd args =
     host_then (host_map_err (\<lambda>e. cmd @ '': '' @ e) (host_run env cmd args)) (\<lambda>(success, out, err).
       if success then host_ok (from_utf8_lossy out) else host_err (str_trim (from_utf8_lossy err)))"

fun find_map :: "('a \<Rightarrow> 'b option) \<Rightarrow> 'a list \<Rightarrow> 'b option" where
  "find_map f [] = None"
| "find_map f (x # xs) = (case f x of Some y \<Rightarrow> Some y | None \<Rightarrow> find_map f xs)"

definition nft_handle_of :: "string \<Rightarrow> nat option" where
  "nft_handle_of out =
     find_map (\<lambda>l. case strip_prefix l ''# handle '' of None \<Rightarrow> None | Some s \<Rightarrow> parse_uint 64 (str_trim s)) (str_lines out)"

definition iptables_args :: "string \<Rightarrow> string \<Rightarrow> nat \<Rightarrow> string \<Rightarrow> string list" where
  "iptables_args action proto port tag =
     [action, ''INPUT'', ''-p'', proto, ''--dport'', show_nat port, ''-m'', ''comment'', ''--comment'', tag, ''-j'', ''ACCEPT'']"

definition open_rule :: "host_env \<Rightarrow> firewall \<Rightarrow> nat \<times> string \<Rightarrow> nat option host" where
  "open_rule env fw = (\<lambda>(port, proto).
     case fw_backend fw of
       Ufw \<Rightarrow>
         if fw_dry_run fw then host_ok None
         else host_then (fw_run env ''ufw'' [''allow'', show_nat port @ ''/'' @ proto, ''comment'', fw_tag fw]) (\<lambda>_. host_ok None)
     | Nftables \<Rightarrow>
         if fw_dry_run fw then host_ok None
         else host_then (fw_run env ''nft''
                [''add'', ''rule'', ''inet'', ''filter'', ''input'', proto @ '' dport '' @ show_nat port,
                 ''accept'', ''comment'', fw_tag fw]) (\<lambda>out. host_ok (nft_handle_of out))
     | Iptables \<Rightarrow>
         if fw_dry_run fw then host_ok None
         else host_then (fw_run env ''iptables'' (iptables_args ''-A'' proto port (fw_tag fw))) (\<lambda>_. host_ok None)
     | No_Backend \<Rightarrow> host_ok None)"

definition close_rule :: "host_env \<Rightarrow> firewall \<Rightarrow> fw_rule \<Rightarrow> unit host" where
  "close_rule env fw rule =
     (case fw_backend fw of
        Ufw \<Rightarrow>
          if fw_dry_run fw then host_ok ()
          else host_then (fw_run env ''ufw'' [''delete'', ''allow'', show_nat (fr_port rule) @ ''/'' @ fr_proto rule]) (\<lambda>_. host_ok ())
      | Nftables \<Rightarrow>
          (case fr_nft_handle rule of
             Some h \<Rightarrow>
               if fw_dry_run fw then host_ok ()
               else host_then (fw_run env ''nft''
                      [''delete'', ''rule'', ''inet'', ''filter'', ''input'', ''handle'', show_nat h]) (\<lambda>_. host_ok ())
           | None \<Rightarrow> host_ok ())
      | Iptables \<Rightarrow>
          if fw_dry_run fw then host_ok ()
          else host_then (fw_run env ''iptables'' (iptables_args ''-D'' (fr_proto rule) (fr_port rule) (fw_tag fw))) (\<lambda>_. host_ok ())
      | No_Backend \<Rightarrow> host_ok ())"

text \<open>A port whose rule cannot be opened is logged and left out.\<close>

fun open_each :: "host_env \<Rightarrow> firewall \<Rightarrow> (nat \<times> string) list \<Rightarrow> firewall host" where
  "open_each env fw [] = host_ok fw"
| "open_each env fw (p # ps) =
     host_then (host_try (open_rule env fw p)) (\<lambda>r.
       open_each env
         (case r of
            Inl _ \<Rightarrow> fw
          | Inr handle \<Rightarrow> fw\<lparr>fw_opened := fw_opened fw @ [\<lparr>fr_port = fst p, fr_proto = snd p, fr_nft_handle = handle\<rparr>]\<rparr>)
         ps)"

definition open_ports :: "host_env \<Rightarrow> firewall \<Rightarrow> (nat \<times> string) list \<Rightarrow> firewall host" where
  "open_ports env fw ports = (if fw_backend fw = No_Backend then host_ok fw else open_each env fw ports)"

definition close_all :: "host_env \<Rightarrow> firewall \<Rightarrow> firewall host" where
  "close_all env fw =
     (if fw_backend fw = No_Backend then host_ok fw
      else host_then (host_each (\<lambda>r. host_ignore (close_rule env fw r)) (fw_opened fw))
             (\<lambda>_. host_ok (fw\<lparr>fw_opened := []\<rparr>)))"

definition fw_status :: "firewall \<Rightarrow> string \<times> (nat \<times> string) list" where
  "fw_status fw = (backend_as_str (fw_backend fw), map (\<lambda>r. (fr_port r, fr_proto r)) (fw_opened fw))"

section \<open>The commands of a backend\<close>

text \<open>What opening and closing run, as a specification apart from the code.\<close>

fun add_command :: "backend \<Rightarrow> string \<Rightarrow> nat \<times> string \<Rightarrow> string \<times> string list" where
  "add_command Ufw tag (port, proto) = (''ufw'', [''allow'', show_nat port @ ''/'' @ proto, ''comment'', tag])"
| "add_command Nftables tag (port, proto) =
     (''nft'', [''add'', ''rule'', ''inet'', ''filter'', ''input'', proto @ '' dport '' @ show_nat port, ''accept'', ''comment'', tag])"
| "add_command Iptables tag (port, proto) = (''iptables'', iptables_args ''-A'' proto port tag)"
| "add_command No_Backend tag p = ([], [])"

fun delete_command :: "backend \<Rightarrow> string \<Rightarrow> nat \<times> string \<Rightarrow> string \<times> string list" where
  "delete_command Ufw tag (port, proto) = (''ufw'', [''delete'', ''allow'', show_nat port @ ''/'' @ proto])"
| "delete_command Iptables tag (port, proto) = (''iptables'', iptables_args ''-D'' proto port tag)"
| "delete_command b tag p = ([], [])"

definition run_effect :: "string \<times> string list \<Rightarrow> effect" where
  "run_effect c = Run (fst c) (snd c)"

definition command_succeeds :: "host_env \<Rightarrow> trace \<Rightarrow> string \<times> string list \<Rightarrow> bool" where
  "command_succeeds env tr c = (case he_run env tr (fst c) (snd c) of Inl _ \<Rightarrow> False | Inr (success, _) \<Rightarrow> success)"

text \<open>The ports whose opening succeeds, each tried after the ones before it.\<close>

fun opened_ports :: "host_env \<Rightarrow> backend \<Rightarrow> string \<Rightarrow> trace \<Rightarrow> (nat \<times> string) list \<Rightarrow> (nat \<times> string) list" where
  "opened_ports env b tag tr [] = []"
| "opened_ports env b tag tr (p # ps) =
     (if command_succeeds env tr (add_command b tag p) then [p] else [])
     @ opened_ports env b tag (tr @ [run_effect (add_command b tag p)]) ps"

lemma fw_run_spec:
  "snd (fw_run env cmd args tr) = tr @ [Run cmd args]"
  "(\<exists>out. fst (fw_run env cmd args tr) = Inr out) \<longleftrightarrow> command_succeeds env tr (cmd, args)"
  by (auto simp: fw_run_def host_then_def host_map_err_def host_run_def command_succeeds_def host_ok_def host_err_def
      split: sum.splits prod.splits if_splits)

lemma fw_run_cases:
  "fw_run env cmd args tr
     = ((if command_succeeds env tr (cmd, args) then Inr (projr (fst (fw_run env cmd args tr)))
         else Inl (projl (fst (fw_run env cmd args tr)))), tr @ [Run cmd args])"
  using fw_run_spec [of env cmd args tr]
  by (cases "fw_run env cmd args tr"; cases "fst (fw_run env cmd args tr)") auto

definition plain_backend :: "firewall \<Rightarrow> bool" where
  "plain_backend fw \<longleftrightarrow> \<not> fw_dry_run fw \<and> (fw_backend fw = Ufw \<or> fw_backend fw = Iptables)"

lemma open_rule_spec:
  assumes "plain_backend fw"
  shows "snd (open_rule env fw p tr) = tr @ [run_effect (add_command (fw_backend fw) (fw_tag fw) p)]"
    and "fst (open_rule env fw p tr) = Inr None \<longleftrightarrow> command_succeeds env tr (add_command (fw_backend fw) (fw_tag fw) p)"
    and "fst (open_rule env fw p tr) = Inr h \<Longrightarrow> h = None"
  using assms fw_run_spec(2) [of env "fst (add_command (fw_backend fw) (fw_tag fw) p)" "snd (add_command (fw_backend fw) (fw_tag fw) p)" tr]
  by (cases p; auto simp: plain_backend_def open_rule_def host_then_def host_ok_def fw_run_spec(1) run_effect_def
      split: sum.splits prod.splits; metis fw_run_spec(1) snd_conv)+

lemma close_rule_spec:
  assumes "plain_backend fw"
  shows "snd (close_rule env fw r tr) = tr @ [run_effect (delete_command (fw_backend fw) (fw_tag fw) (fr_port r, fr_proto r))]"
  using assms
  by (auto simp: plain_backend_def close_rule_def host_then_def host_ok_def run_effect_def
      split: sum.splits prod.splits; metis fw_run_spec(1) snd_conv)

lemma close_each_spec:
  assumes "plain_backend fw"
  shows "host_each (\<lambda>r. host_ignore (close_rule env fw r)) rs tr
    = (Inr (), tr @ map (\<lambda>r. run_effect (delete_command (fw_backend fw) (fw_tag fw) (fr_port r, fr_proto r))) rs)"
proof (induction rs arbitrary: tr)
  case (Cons r rs)
  have "host_ignore (close_rule env fw r) tr
      = (Inr (), tr @ [run_effect (delete_command (fw_backend fw) (fw_tag fw) (fr_port r, fr_proto r))])"
    using close_rule_spec [OF assms, of env r tr]
    by (cases "close_rule env fw r tr") (simp add: host_ignore_def host_then_def host_try_def host_ok_def)
  then show ?case using Cons by (simp add: host_then_def)
qed (simp add: host_ok_def)

lemma open_each_spec:
  assumes "plain_backend fw"
  shows "open_each env fw ps tr
    = (Inr (fw\<lparr>fw_opened := fw_opened fw @ map (\<lambda>p. \<lparr>fr_port = fst p, fr_proto = snd p, fr_nft_handle = None\<rparr>)
              (opened_ports env (fw_backend fw) (fw_tag fw) tr ps)\<rparr>),
       tr @ map (\<lambda>p. run_effect (add_command (fw_backend fw) (fw_tag fw) p)) ps)"
  using assms
proof (induction ps arbitrary: fw tr)
  case (Cons p ps)
  let ?fw = "fw\<lparr>fw_opened := fw_opened fw @ [\<lparr>fr_port = fst p, fr_proto = snd p, fr_nft_handle = None\<rparr>]\<rparr>"
  have "plain_backend ?fw" using Cons.prems by (simp add: plain_backend_def)
  note IH = Cons.IH [OF Cons.prems] Cons.IH [OF this]
  show ?case
  proof (cases "fst (open_rule env fw p tr)")
    case (Inl e)
    then have "\<not> command_succeeds env tr (add_command (fw_backend fw) (fw_tag fw) p)"
      using open_rule_spec(2) [OF Cons.prems, of env p tr] by simp
    then show ?thesis
      using Inl open_rule_spec(1) [OF Cons.prems, of env p tr] IH(1)
      by (simp add: host_then_def host_try_def split_beta)
  next
    case (Inr h)
    then have h: "h = None" by (rule open_rule_spec(3) [OF Cons.prems])
    then have "command_succeeds env tr (add_command (fw_backend fw) (fw_tag fw) p)"
      using open_rule_spec(2) [OF Cons.prems, of env p tr] Inr by simp
    then show ?thesis
      using Inr h open_rule_spec(1) [OF Cons.prems, of env p tr] IH(2)
      by (simp add: host_then_def host_try_def split_beta)
  qed
qed (simp add: host_ok_def)

section \<open>Properties\<close>

text \<open>With ufw or iptables, whatever the commands answer, opening a list of ports on a new manager
  runs the command that adds each port's rule, once and in order, and remembers exactly the ports whose
  command succeeded; closing then runs, for exactly these ports and in order, the command that deletes
  what was added, and remembers none.\<close>

theorem firewall_closes_what_it_opened:
  assumes "\<not> fw_dry_run fw" "fw_backend fw = Ufw \<or> fw_backend fw = Iptables" "fw_opened fw = []"
  shows "\<exists>fw'. open_ports env fw ports tr
        = (Inr fw', tr @ map (\<lambda>p. run_effect (add_command (fw_backend fw) (fw_tag fw) p)) ports)
    \<and> snd (fw_status fw') = opened_ports env (fw_backend fw) (fw_tag fw) tr ports
    \<and> close_all env fw' tr'
        = (Inr fw, tr' @ map (\<lambda>p. run_effect (delete_command (fw_backend fw) (fw_tag fw) p))
             (opened_ports env (fw_backend fw) (fw_tag fw) tr ports))"
proof -
  have b: "plain_backend fw" "fw_backend fw \<noteq> No_Backend" using assms by (auto simp: plain_backend_def)
  let ?fw = "fw\<lparr>fw_opened := map (\<lambda>p. \<lparr>fr_port = fst p, fr_proto = snd p, fr_nft_handle = None\<rparr>)
      (opened_ports env (fw_backend fw) (fw_tag fw) tr ports)\<rparr>"
  have b': "plain_backend ?fw" using b by (simp add: plain_backend_def)
  have "fw\<lparr>fw_opened := []\<rparr> = fw" using assms(3) by simp
  then have "close_all env ?fw tr' = (Inr fw, tr' @ map (\<lambda>p. run_effect (delete_command (fw_backend fw) (fw_tag fw) p))
             (opened_ports env (fw_backend fw) (fw_tag fw) tr ports))"
    using b(2) close_each_spec [OF b', of env "fw_opened ?fw" tr']
    by (simp add: close_all_def host_then_def host_ok_def comp_def)
  then show ?thesis
    using open_each_spec [OF b(1), of env ports tr] b(2) assms(3)
    by (intro exI [of _ ?fw]) (simp add: open_ports_def fw_status_def comp_def)
qed

definition demo_fw_env :: host_env where
  "demo_fw_env = \<lparr>he_exists = (\<lambda>tr p. False), he_read = (\<lambda>tr p. None), he_list_dir = (\<lambda>tr p. None),
     he_do = (\<lambda>tr e. None), he_run = (\<lambda>tr c args. Inr (length tr = 0, [], []))\<rparr>"

theorem firewall_closes_what_it_opened_witness:
  "\<exists>fw'. snd (fw_status fw') = [(80, ''tcp'')]
     \<and> snd (close_all demo_fw_env fw' []) = [Run ''ufw'' [''delete'', ''allow'', ''80/tcp'']]"
proof -
  let ?fw = "\<lparr>fw_backend = Ufw, fw_tag = ''t'', fw_dry_run = False, fw_opened = []\<rparr>"
  have o: "opened_ports demo_fw_env Ufw ''t'' [] [(80, ''tcp''), (443, ''tcp'')] = [(80, ''tcp'')]"
    by (simp add: demo_fw_env_def command_succeeds_def)
  have s: "show_nat 80 = ''80''" by code_simp
  obtain fw' where "snd (fw_status fw') = [(80, ''tcp'')]"
    "close_all demo_fw_env fw' [] = (Inr ?fw, map (\<lambda>p. run_effect (delete_command Ufw ''t'' p)) [(80, ''tcp'')])"
    using firewall_closes_what_it_opened [of ?fw demo_fw_env "[(80, ''tcp''), (443, ''tcp'')]" "[]" "[]"] o
    by (auto simp del: opened_ports.simps delete_command.simps add_command.simps)
  then show ?thesis using s by (intro exI [of _ fw']) (simp add: run_effect_def)
qed

text \<open>A manager in dry-run mode, or without a backend, runs nothing.\<close>

lemma firewall_quiet:
  assumes "fw_dry_run fw \<or> fw_backend fw = No_Backend"
  shows "only (\<lambda>e. False) (open_rule env fw p)" "only (\<lambda>e. False) (close_rule env fw r)"
  using assms unfolding open_rule_def close_rule_def
  by (auto simp: only_ok split: backend.split option.split prod.split)

text \<open>With nftables, a rule whose command prints no handle stays in the firewall: closing it runs
  nothing. The command prints one only when it is asked to echo, which the code does not ask.\<close>

lemma nft_rule_left:
  assumes "fw_backend fw = Nftables" "nft_handle_of out = None"
  shows "close_rule env fw \<lparr>fr_port = port, fr_proto = proto, fr_nft_handle = nft_handle_of out\<rparr> tr = (Inr (), tr)"
  using assms by (simp add: close_rule_def host_ok_def)

lemma nft_no_output: "nft_handle_of [] = None"
  by (simp add: nft_handle_of_def str_lines_def)

end
