(* ===== verification/Startup.thy ===== *)
theory Startup
  imports Handler Conf_Root Firewall
begin

text \<open>
  How \<open>src/main.rs\<close> puts the program together from a loaded configuration: the worker count, the
  ports, the shared state of the handlers and the listeners. Logging, the runtime and the signal
  handlers are left out; a reload by signal only loads the file again and drops the result.
\<close>

text \<open>\<open>physical_core_ids().len()\<close> is the number of cores the system reports.\<close>

definition worker_threads :: "nat \<Rightarrow> config option \<Rightarrow> nat" where
  "worker_threads cores pre_cfg =
     (case pre_cfg of
        None \<Rightarrow> max cores 1
      | Some c \<Rightarrow> (case cfg_worker_processes c of Fixed n \<Rightarrow> n | Auto \<Rightarrow> max cores 1))"

definition listen_ports :: "http_block \<Rightarrow> nat set" where
  "listen_ports http =
     set (concat (map (\<lambda>s. map (\<lambda>l. unat (sa_port (ld_addr l))) (srv_listen s)) (http_servers http)))"

definition register_zones :: "http_block \<Rightarrow> zone_registry" where
  "register_zones http = fold (\<lambda>z. register_zone (lz_name z) (lz_rate_rps z)) (http_limit_req_zones http) new_registry"

text \<open>A peer whose address does not parse is left out.\<close>

definition group_peers :: "upstream_group_def \<Rightarrow> peer_config list" where
  "group_peers g =
     List.map_filter (\<lambda>(addr_str, weight).
       map_option (\<lambda>addr. \<lparr>pcfg_addr = addr, pcfg_weight = weight\<rparr>) (parse_socket_addr addr_str)) (ug_peers g)"

definition group_config :: "upstream_group_def \<Rightarrow> upstream_group_config" where
  "group_config g =
     \<lparr>ugc_name = ug_name g, ugc_peers = group_peers g, ugc_policy = parse_lb_policy (ug_policy g),
      ugc_fail_timeout_secs = ug_fail_timeout g, ugc_max_fails = ug_max_fails g\<rparr>"

definition register_groups :: "http_block \<Rightarrow> upstream_registry" where
  "register_groups http = fold (\<lambda>g. register_group (new_group (group_config g))) (http_upstream_groups http) Map.empty"

definition scan_config_of :: "config \<Rightarrow> scan_config" where
  "scan_config_of cfg =
     \<lparr>sn_enabled = cfg_scan_detection cfg, sn_window_secs = cfg_scan_window_secs cfg,
      sn_req_threshold = cfg_scan_req_threshold cfg, sn_error_rate_threshold = cfg_scan_error_rate cfg,
      sn_block_secs = cfg_scan_block_secs cfg, sn_abuseipdb_key = cfg_scan_abuseipdb_key cfg,
      sn_abuseipdb_report = cfg_scan_abuseipdb_report cfg, sn_whitelist = cfg_scan_whitelist cfg\<rparr>"

text \<open>The shared state before the first request; \<open>users_file\<close> is what \<open>users.toml\<close> holds.\<close>

definition start_state :: "mu_env \<Rightarrow> string option \<Rightarrow> config \<Rightarrow> 'c handler_state" where
  "start_state users users_toml cfg =
     \<lparr>hc_scan = new_detector (scan_config_of cfg), hc_stats = new_stats,
      hc_api = \<lparr>ap_sessions = Map.empty, ap_rate = new_rate_limiter API_RATE_LIMIT_RPS, ap_trace = []\<rparr>,
      hc_zones = register_zones (cfg_http cfg), hc_challenges = Map.empty,
      hc_upstreams = register_groups (cfg_http cfg), hc_cache = new_cache 0 65536,
      hc_users = load_registry users users_toml, hc_pool = Map.empty, hc_log = [], hc_reports = []\<rparr>"

text \<open>A listener takes the TLS settings of its server, for every address of the server.\<close>

definition listeners :: "http_block \<Rightarrow> (socket_addr \<times> tls_config option) list" where
  "listeners http = concat (map (\<lambda>s. map (\<lambda>l. (ld_addr l, srv_tls s)) (srv_listen s)) (http_servers http))"

text \<open>The firewall opens the ports of \<open>listen_ports\<close>, in the order in which the set gives them.\<close>

definition start_firewall :: "host_env \<Rightarrow> string option \<Rightarrow> config \<Rightarrow> nat list \<Rightarrow> firewall host" where
  "start_firewall env dry_run cfg ports =
     host_then (new_firewall env dry_run (cfg_firewall_manage cfg) (cfg_firewall_backend cfg) (cfg_firewall_tag cfg))
       (\<lambda>fw. open_ports env fw (map (\<lambda>p. (p, ''tcp'')) ports))"

end
