(* ===== verification/Api_Props.thy ===== *)
theory Api_Props
  imports Api
begin

text \<open>
  The properties of the management API: what a request without a session or key can do, how long a
  session lives, what the backup operations touch, and the consistency of the exported histogram.
\<close>

section \<open>Sessions\<close>

text \<open>A login or a logout, and the sessions after it; the specification looks only at the last operation
  on a token and never purges.\<close>

datatype session_op = Do_Login api_env string "(string \<times> string) list" | Do_Logout "(string \<times> string) list"

fun session_step :: "session_op \<Rightarrow> api_state \<Rightarrow> api_state" where
  "session_step (Do_Login env body headers) st = snd (handle_login_post env body headers st)"
| "session_step (Do_Logout headers) st = snd (handle_logout headers st)"

definition credentials_ok :: "api_env \<Rightarrow> string \<Rightarrow> bool" where
  "credentials_ok env body =
     (case js_parse (si_json (ae_site env)) body of
        None \<Rightarrow> False
      | Some v \<Rightarrow> as_str (json_get v ''username'') = Some (http_webui_admin_user (ae_http env))
                  \<and> as_str (json_get v ''password'') = Some (http_webui_admin_password (ae_http env)))"

fun session_spec :: "session_op list \<Rightarrow> string \<Rightarrow> nat option" where
  "session_spec [] t = None"
| "session_spec (op # earlier) t =
     (case op of
        Do_Login env body headers \<Rightarrow>
          if credentials_ok env body \<and> t = hex_bytes (rand_bytes_32 (ae_entropy env))
          then Some (ae_now env + SESSION_TTL) else session_spec earlier t
      | Do_Logout headers \<Rightarrow>
          if get_session_token headers = Some t then None else session_spec earlier t)"

text \<open>Web UI credentials that are set: an absent field reads as the empty text.\<close>

definition credentials_set :: "api_env \<Rightarrow> bool" where
  "credentials_set env \<longleftrightarrow> http_webui_admin_user (ae_http env) \<noteq> [] \<and> http_webui_admin_password (ae_http env) \<noteq> []"

fun op_time :: "session_op \<Rightarrow> nat" where
  "op_time (Do_Login env body headers) = ae_now env"
| "op_time (Do_Logout headers) = 0"

fun op_set :: "session_op \<Rightarrow> bool" where
  "op_set (Do_Login env body headers) = credentials_set env"
| "op_set (Do_Logout headers) = True"

lemma login_step:
  assumes "credentials_set env"
  shows "ap_sessions (snd (handle_login_post env body headers st)) =
    (if credentials_ok env body then new_session (ae_now env) (hex_bytes (rand_bytes_32 (ae_entropy env))) (ap_sessions st)
     else ap_sessions st)"
  using assms
  by (auto simp: handle_login_post_def credentials_ok_def credentials_set_def verify_login_credentials_def
      str_field_def Let_def split: option.splits)

lemma logout_step:
  "ap_sessions (snd (handle_logout headers st)) t = (if get_session_token headers = Some t then None else ap_sessions st t)"
  by (auto simp: handle_logout_def split: option.split)

text \<open>The operations are given latest first.\<close>

lemma session_run_spec:
  assumes "list_all op_set ops" "list_all (\<lambda>op. op_time op \<le> now) ops"
  shows "session_valid now (ap_sessions (foldr session_step ops (st\<lparr>ap_sessions := Map.empty\<rparr>))) t
    \<longleftrightarrow> (case session_spec ops t of None \<Rightarrow> False | Some expires \<Rightarrow> now < expires)"
  using assms
proof (induction ops)
  case Nil
  then show ?case by (simp add: session_valid_def)
next
  case (Cons op ops)
  then show ?case
    by (cases op) (auto simp: login_step logout_step session_valid_def new_session_def split: option.splits if_splits)
qed

section \<open>Backups\<close>

definition in_backups :: "api_env \<Rightarrow> string \<Rightarrow> bool" where
  "in_backups env p \<longleftrightarrow>
     path_below p (backup_dir env) \<and> length (path_components (backup_dir env)) < length (path_components p)"

text \<open>What a backup operation may do: make, fill and remove directories of the backups, copy the
  configuration or the users file to one or from one, ask for a reload.\<close>

definition backup_effect :: "api_env \<Rightarrow> effect \<Rightarrow> bool" where
  "backup_effect env e =
     (let kept = [ae_config_path env, users_file env]
      in case e of
        Create_Dir_All p \<Rightarrow> in_backups env p
      | Copy_File src dst \<Rightarrow> in_backups env src \<and> dst \<in> set kept \<or> src \<in> set kept \<and> in_backups env dst
      | Remove_Dir_All p \<Rightarrow> in_backups env p
      | Send_Reload \<Rightarrow> True
      | _ \<Rightarrow> False)"

lemma in_backups_join:
  assumes "plain_name n" "n \<noteq> ''..''"
  shows "in_backups env (path_join (backup_dir env) n)"
    and "in_backups env p \<Longrightarrow> in_backups env (path_join p n)"
  using assms by (simp_all add: in_backups_def path_below_join path_components_join)

lemma backup_id_name:
  assumes "\<not> bad_backup_id i"
  shows "plain_name i" "i \<noteq> ''..''"
  using assms by (auto simp: bad_backup_id_def plain_name_def starts_with_iff)

lemma backup_name_plain:
  "plain_name (backup_name ts (backup_label env body))" "backup_name ts (backup_label env body) \<noteq> ''..''"
proof -
  have l: "CHR ''/'' \<notin> set (backup_label env body)"
    by (auto simp: backup_label_def list_all_iff is_ascii_alphanumeric_def is_ascii_digit_def ascii_code_def
        split: option.split dest!: bspec [of _ _ "CHR ''/''"])
  have n: "CHR ''/'' \<notin> set (show_nat ts)"
    using show_nat_hd [of "CHR ''/''" ts] by (auto simp: is_ascii_digit_def ascii_code_def)
  from l n show "plain_name (backup_name ts (backup_label env body))" "backup_name ts (backup_label env body) \<noteq> ''..''"
    by (simp_all add: plain_name_def backup_name_def)
qed

lemmas backup_paths = in_backups_join backup_name_plain

lemma api_backup_only: "only (backup_effect env) (api_backup env body)"
  unfolding api_backup_def exists_then_def Let_def
  by (intro only_rules)
     (simp_all add: backup_effect_def backup_paths plain_name_def [of "''runnginx.conf''"] plain_name_def [of "''users.toml''"])

lemma api_restore_only: "only (backup_effect env) (api_restore env body)"
  unfolding api_restore_def exists_then_def Let_def
  by (intro only_rules)
     (simp_all add: backup_effect_def in_backups_join backup_id_name plain_name_def [of "''runnginx.conf''"]
        plain_name_def [of "''users.toml''"])

lemma api_delete_backup_only: "only (backup_effect env) (api_delete_backup env i)"
  unfolding api_delete_backup_def
  by (intro only_rules) (simp add: backup_effect_def in_backups_join backup_id_name)

lemma finish_trace: "snd (finish m tr) = snd (m tr)"
  by (simp add: finish_def split_beta split: sum.split)

section \<open>Metrics\<close>

lemma bucket_lines_last:
  "cs \<noteq> [] \<Longrightarrow> snd (last (bucket_lines i cumulative cs)) = (cumulative + (\<Sum>x\<leftarrow>cs. x)) mod 2 ^ 64"
proof (induction cs arbitrary: i cumulative)
  case (Cons c cs)
  show ?case
  proof (cases cs)
    case (Cons d ds)
    then have "bucket_lines (Suc i) ((cumulative + c) mod 2 ^ 64) cs \<noteq> []" by (simp add: Let_def)
    then have "snd (last (bucket_lines i cumulative (c # cs)))
        = snd (last (bucket_lines (Suc i) ((cumulative + c) mod 2 ^ 64) cs))"
      unfolding bucket_lines.simps(2) Let_def by (simp del: bucket_lines.simps)
    also have "\<dots> = ((cumulative + c) mod 2 ^ 64 + (\<Sum>x\<leftarrow>cs. x)) mod 2 ^ 64" using Cons by (intro Cons.IH) simp
    also have "\<dots> = (cumulative + c + (\<Sum>x\<leftarrow>cs. x)) mod 2 ^ 64" by (rule mod_add_left_eq)
    finally show ?thesis by (simp add: add.assoc)
  qed simp
qed simp

lemma last_bucket_total:
  assumes "stats_ok s"
  shows "snd (last (bucket_lines 0 0 (st_latency_buckets s))) = st_requests_total s"
proof -
  have "st_latency_buckets s \<noteq> []" using assms by (auto simp: stats_ok_def)
  then show ?thesis using bucket_lines_last [of "st_latency_buckets s" 0 0] assms by (simp add: stats_ok_def)
qed

definition record_all :: "(nat \<times> nat \<times> nat \<times> nat) list \<Rightarrow> stats \<Rightarrow> stats" where
  "record_all rs s = fold (\<lambda>(status, out, inn, us). record_request status out inn us) rs s"

lemma record_all_ok: "stats_ok s \<Longrightarrow> stats_ok (record_all rs s)"
  by (induction rs arbitrary: s) (auto simp: record_request_ok record_all_def)

section \<open>Requests without credentials\<close>

lemma unauthorized_api:
  assumes "\<not> admin_request env headers st"
  shows "(if starts_with path ''/api/''
          then handle_api env path query req_method headers body peer_ip st = (Some unauthorized, st)
          else ap_trace (snd (handle_api env path query req_method headers body peer_ip st)) = ap_trace st)"
proof (cases "starts_with path ''/api/''")
  case True
  have "path \<noteq> p" if "\<not> starts_with p ''/api/''" for p using that True by blast
  from this [of "''/health''"] this [of "''/metrics''"] this [of "''/login''"] this [of "''/logout''"] this [of "''/ui''"]
    this [of "''/ui/''"] show ?thesis
    using assms True by (simp add: handle_api_def starts_with_def)
next
  case False
  have "ap_trace (snd (handle_login_post env body headers s)) = ap_trace s"
    "ap_trace (snd (handle_logout headers s)) = ap_trace s" for s
    by (simp_all add: handle_login_post_def handle_logout_def Let_def split: option.split)
  then show ?thesis
    using assms False by (simp add: handle_api_def split_beta split: prod.split bool.split)
qed

section \<open>Properties\<close>

text \<open>C8: without a valid session and without the API key, a request under \<open>/api/\<close> is answered 401 and
  changes nothing at all, and whatever the path nothing is done on the host: no file is touched, no
  command started, no reload asked.\<close>

theorem api_guarded:
  assumes "\<not> admin_request env headers st"
  shows "(if starts_with path ''/api/''
          then handle_api env path query req_method headers body peer_ip st = (Some unauthorized, st)
          else ap_trace (snd (handle_api env path query req_method headers body peer_ip st)) = ap_trace st)"
  by (rule unauthorized_api [OF assms])

definition demo_json :: json_lib where
  "demo_json = \<lparr>js_parse = (\<lambda>s. Some (JObj [(''id'', JStr ''backup_1'')])), js_print = (\<lambda>v. ''{}'')\<rparr>"

definition demo_host :: host_env where
  "demo_host = \<lparr>he_exists = (\<lambda>tr p. True), he_read = (\<lambda>tr p. None), he_list_dir = (\<lambda>tr p. None),
     he_do = (\<lambda>tr e. None), he_run = (\<lambda>tr p args. Inr (True, [], []))\<rparr>"

definition demo_api :: api_env where
  "demo_api =
     \<lparr>ae_site = \<lparr>si_host = demo_host, si_json = demo_json, si_now = (\<lambda>tr. 0), si_random = (\<lambda>tr i n. replicate n (byte 7)),
        si_is_dir = (\<lambda>tr p. True)\<rparr>,
      ae_http = default_http_block, ae_config_path = ''/etc/runnginx/nginx.conf'', ae_now = 0, ae_secs = 0,
      ae_entropy = None, ae_mtime = (\<lambda>tr p. 0), ae_uptime = 0, ae_stats = new_stats, ae_ring = [], ae_webui = [],
      ae_login = [], ae_simd = ''Sse2'', ae_fmt_sum = (\<lambda>p n. ''0'')\<rparr>"

definition demo_api_state :: api_state where
  "demo_api_state = \<lparr>ap_sessions = Map.empty, ap_rate = new_rate_limiter 30, ap_trace = []\<rparr>"

theorem api_guarded_witness:
  "handle_api demo_api ''/api/restore'' [] ''POST'' [(''Cookie'', ''session=00'')] ''{}'' (V4 1) demo_api_state
   = (Some unauthorized, demo_api_state)"
proof -
  have "\<not> admin_request demo_api [(''Cookie'', ''session=00'')] demo_api_state"
    by (simp add: admin_request_def has_valid_session_def session_valid_def demo_api_state_def is_authorized_def
        demo_api_def default_http_block_def split: option.split)
  from api_guarded [OF this, of "''/api/restore''" "[]" "''POST''" "''{}''" "V4 1"] show ?thesis
    by (simp add: starts_with_def)
qed

text \<open>C22: with web UI credentials set, a token is a valid session exactly when the last login that
  issued it, or logout that named it, was a login with the right credentials less than eight hours ago:
  the purge at each login never loses a session that is alive, and no other request creates one.\<close>

theorem session_lifetime:
  assumes "list_all op_set ops" and "list_all (\<lambda>op. op_time op \<le> now) ops"
  shows "session_valid now (ap_sessions (foldr session_step ops (st\<lparr>ap_sessions := Map.empty\<rparr>))) t
    \<longleftrightarrow> (case session_spec ops t of None \<Rightarrow> False | Some expires \<Rightarrow> now < expires)"
  by (rule session_run_spec [OF assms])

theorem session_lifetime_witness:
  "session_valid (10 ^ 9) (ap_sessions (foldr session_step [Do_Logout [(''Cookie'', ''session=00'')], Do_Login demo_api ''{}'' []]
      (demo_api_state\<lparr>ap_sessions := Map.empty\<rparr>))) ''ab''
   \<longleftrightarrow> (case session_spec [Do_Logout [(''Cookie'', ''session=00'')], Do_Login demo_api ''{}'' []] ''ab'' of
         None \<Rightarrow> False | Some expires \<Rightarrow> 10 ^ 9 < expires)"
  by (rule session_lifetime) (simp_all add: credentials_set_def demo_api_def default_http_block_def)

text \<open>C24: whatever the body and the identifier a client sends, the backup operations create, fill and
  remove only directories below the backup directory, never that directory itself, and copy only the
  configuration file and the users file, to or from there.\<close>

theorem backups_confined:
  "list_all (backup_effect env)
     (snd (finish (api_backup env body) []) @ snd (finish (api_restore env body) []) @ snd (finish (api_delete_backup env i) []))"
  using only_trace [OF api_backup_only, where tr = "[]"] only_trace [OF api_restore_only, where tr = "[]"]
    only_trace [OF api_delete_backup_only, where tr = "[]"]
  by (simp add: finish_trace)

text \<open>After any requests the last bucket of the exported latency histogram counts exactly the total
  number of requests, which is what its \<open>+Inf\<close> line and its count say.\<close>

theorem metrics_histogram_total:
  "snd (last (bucket_lines 0 0 (st_latency_buckets (record_all rs new_stats)))) = st_requests_total (record_all rs new_stats)"
  by (rule last_bucket_total [OF record_all_ok]) (simp add: stats_ok_def new_stats_def sum_list_replicate)

section \<open>What the responses say\<close>

text \<open>Login and logout declare one byte less than their body has.\<close>

lemma login_length_wrong:
  "\<exists>head. login_response is_https token = head @ ''Content-Length: 10'' @ CRLF @ ''Connection: close'' @ CRLF @ CRLF @ ok_true"
  "length ok_true = 11"
proof -
  have "login_response is_https token =
      (''HTTP/1.1 200 OK'' @ CRLF @ ''Content-Type: application/json'' @ CRLF
       @ ''Set-Cookie: session='' @ token @ ''; Path=/; HttpOnly; SameSite=Strict; Max-Age=28800''
       @ (if is_https then ''; Secure'' else []) @ CRLF)
      @ ''Content-Length: 10'' @ CRLF @ ''Connection: close'' @ CRLF @ CRLF @ ok_true"
    unfolding login_response_def by (simp only: append_assoc)
  then show "\<exists>head. login_response is_https token
      = head @ ''Content-Length: 10'' @ CRLF @ ''Connection: close'' @ CRLF @ CRLF @ ok_true" by blast
  show "length ok_true = 11" by (simp add: ok_true_def json_pair_def jq_def)
qed

end
