(* ===== verification/Handler_Props.thy ===== *)
theory Handler_Props
  imports Startup Api_Props
begin

text \<open>
  The properties of the request handler, where the components meet: what every request keeps of the
  shared state, what a request without credentials can change, how responses are framed, in which
  order the guards of a location stand, and what the composition gets wrong.
\<close>

section \<open>What each part of the handler changes\<close>

text \<open>Two states that agree on all the parts a protected operation changes: the host, the accounts and
  the challenges.\<close>

definition same_protected :: "'c handler_state \<Rightarrow> 'c handler_state \<Rightarrow> bool" where
  "same_protected st st' \<longleftrightarrow>
     ap_trace (hc_api st') = ap_trace (hc_api st) \<and> hc_users st' = hc_users st \<and> hc_challenges st' = hc_challenges st"

lemma same_protected_refl [simp]: "same_protected st st"
  by (simp add: same_protected_def)

lemma same_protected_trans: "same_protected a b \<Longrightarrow> same_protected b c \<Longrightarrow> same_protected a c"
  by (simp add: same_protected_def)

named_theorems state_simps \<open>what the steps of the handler leave as it is\<close>

lemma log_to_state [state_simps]:
  "hc_scan (log_to h e st) = hc_scan st" "hc_stats (log_to h e st) = hc_stats st" "hc_api (log_to h e st) = hc_api st"
  "hc_zones (log_to h e st) = hc_zones st" "hc_challenges (log_to h e st) = hc_challenges st"
  "hc_cache (log_to h e st) = hc_cache st" "hc_users (log_to h e st) = hc_users st"
  "hc_upstreams (log_to h e st) = hc_upstreams st" "hc_pool (log_to h e st) = hc_pool st"
  by (simp_all add: log_to_def)

lemma logged_state [state_simps]: "snd (logged env rq peer r st) = log_request env rq peer r st" "fst (logged env rq peer r st) = r"
  by (simp_all add: logged_def)

text \<open>Everything after the APIs leaves these parts alone.\<close>

definition inner_same :: "'c handler_state \<Rightarrow> 'c handler_state \<Rightarrow> bool" where
  "inner_same st st' \<longleftrightarrow>
     hc_api st' = hc_api st \<and> hc_users st' = hc_users st \<and> hc_challenges st' = hc_challenges st \<and> hc_stats st' = hc_stats st"

lemma inner_same_refl [simp]: "inner_same st st"
  by (simp add: inner_same_def)

lemma inner_same_trans: "inner_same a b \<Longrightarrow> inner_same b c \<Longrightarrow> inner_same a c"
  by (simp add: inner_same_def)

lemma inner_same_log: "inner_same st (log_to h e st)" "inner_same st (log_request env rq peer r st)"
  by (simp_all add: inner_same_def log_request_def state_simps)

lemma check_auth_same: "inner_same st (snd (check_auth env server location rq ka peer st))"
  by (simp add: check_auth_def Let_def inner_same_log split: option.split)

lemma check_rate_same: "inner_same st (snd (check_rate env server location rq peer st))"
  by (simp add: check_rate_def Let_def split_beta state_simps inner_same_def log_request_def split: option.split)

lemma check_location_same: "inner_same st (snd (check_location env server location rq ka peer st))"
proof -
  obtain r1 st1 where a: "check_auth env server location rq ka peer st = (r1, st1)" by (cases "check_auth env server location rq ka peer st")
  obtain r2 st2 where b: "check_rate env server location rq peer st1 = (r2, st2)" by (cases "check_rate env server location rq peer st1")
  have 1: "inner_same st st1" using check_auth_same [of st env server location rq ka peer] a by simp
  moreover have "inner_same st1 st2" using check_rate_same [of st1 env server location rq peer] b by simp
  ultimately have 2: "inner_same st st2" by (rule inner_same_trans)
  show ?thesis
    using 1 2 inner_same_trans [OF 2 inner_same_log(2)]
    by (simp add: check_location_def a b logged_def split: option.split)
qed

lemma run_handler_same: "inner_same st (snd (run_handler env server location rq body ka peer st))"
  by (auto simp: run_handler_def tunnel_websocket_def serve_group_def Let_def inner_same_def log_request_def
      state_simps split_beta split: option.split location_handler.split sum.split)

lemma send_response_same: "inner_same st (snd (send_response env server location rq ka is_tls peer resp st))"
  by (simp add: send_response_def Let_def split_beta inner_same_def state_simps)

lemma dispatch_location_same: "inner_same st (snd (dispatch_location env server location rq body ka is_tls peer st))"
proof -
  obtain r1 st1 where a: "check_location env server location rq ka peer st = (r1, st1)"
    by (cases "check_location env server location rq ka peer st")
  obtain r2 st2 where b: "run_handler env server location rq body ka peer st1 = (r2, st2)"
    by (cases "run_handler env server location rq body ka peer st1")
  have 1: "inner_same st st1" using check_location_same [of st env server location rq ka peer] a by simp
  moreover have "inner_same st1 st2" using run_handler_same [of st1 env server location rq body ka peer] b by simp
  ultimately have 2: "inner_same st st2" by (rule inner_same_trans)
  show ?thesis
    using 1 2 inner_same_trans [OF 2 send_response_same]
    by (simp add: dispatch_location_def a b split: option.split sum.split)
qed

lemma dispatch_server_same: "inner_same st (snd (dispatch_server env inc is_tls peer st))"
  by (simp add: dispatch_server_def Let_def logged_def inner_same_log dispatch_location_same split: sum.split)

section \<open>Requests without credentials\<close>

lemma bearer_is_authorized:
  "is_authorized (pr_headers rq) key \<longleftrightarrow> key \<noteq> [] \<and> bearer_token rq = key"
proof -
  have t: "str_trim [] = []" by (simp add: str_trim_def trim_start.simps trim_end.simps ws_len_def)
  have h: "find_header name hs = get_header hs name" for name hs
    by (simp add: find_header_def get_header_def)
  have p: "strip_prefix [] ''Bearer '' = None" by (simp add: strip_prefix_None starts_with_def)
  show ?thesis
    using t p by (auto simp: is_authorized_def bearer_token_def or_default_def h split: option.splits)
qed

lemma user_api_not_admin: "snd (handle_user_api env js r1 r2 path m body key False reg) = reg"
  by (simp add: handle_user_api_def split: option.split)

lemma admin_request_view:
  "admin_request (api_view env st) hs a \<longleftrightarrow>
     has_valid_session (ae_now (hv_api env)) (ap_sessions a) hs \<or> is_authorized hs (http_api_key (hv_http env))"
  by (simp add: admin_request_def api_view_def)

lemma serve_cached_parts:
  assumes "serve_cached env inc n st = (r, st')"
  shows "same_protected st st'" "hc_api st' = hc_api st"
  using assms by (auto simp: serve_cached_def Let_def same_protected_def split: if_splits prod.splits option.splits)

lemma unauthenticated_request:
  assumes "\<not> admin_request (api_view env st) (pr_headers (in_request inc)) (hc_api st)"
  shows "same_protected st (snd (dispatch_request env inc n is_tls peer st))"
proof -
  obtain r1 st1 where a: "serve_cached env inc n st = (r1, st1)" by (cases "serve_cached env inc n st")
  note 1 = serve_cached_parts [OF a]
  have auth: "\<not> admin_request (api_view env s) (pr_headers (in_request inc)) (hc_api st)" for s
    using assms by (simp add: admin_request_view)
  then have "\<not> (http_api_key (hv_http env) \<noteq> [] \<and> bearer_token (in_request inc) = http_api_key (hv_http env))"
    by (simp add: admin_request_view bearer_is_authorized)
  then have users: "same_protected st1 (snd (serve_user_api env inc peer st1))"
    "hc_api (snd (serve_user_api env inc peer st1)) = hc_api st1"
    using user_api_not_admin [of "hv_users env" "si_json (ae_site (hv_api env))" "hv_user_id env" "hv_user_key env"
        "pr_path (in_request inc)" "pr_method (in_request inc)" "in_body inc" "bearer_token (in_request inc)" "hc_users st1"]
    by (auto simp: serve_user_api_def Let_def same_protected_def state_simps split: prod.split option.split)
  obtain r2 st2 where b: "serve_user_api env inc peer st1 = (r2, st2)" by (cases "serve_user_api env inc peer st1")
  have 2: "same_protected st st2" "hc_api st2 = hc_api st"
    using users b 1 same_protected_trans by (auto simp: same_protected_def)
  have "ap_trace (snd (handle_api (api_view env st2) path q m (pr_headers (in_request inc)) bd ip (hc_api st2))) = ap_trace (hc_api st2)"
    for path q m bd ip
    using unauthorized_api [OF auth [of st2], of path q m bd ip] 2(2) by (simp split: if_splits)
  then have 3: "same_protected st2 (snd (serve_api env inc peer st2))"
    by (auto simp: serve_api_def Let_def same_protected_def state_simps split_beta split: option.split)
  obtain r3 st3 where c: "serve_api env inc peer st2 = (r3, st3)" by (cases "serve_api env inc peer st2")
  have 3: "same_protected st st3" using 2(1) 3 c same_protected_trans by auto
  have 4: "same_protected st (snd (dispatch_server env inc is_tls peer st3))"
    using dispatch_server_same [of st3 env inc is_tls peer] 3 by (simp add: inner_same_def same_protected_def)
  show ?thesis
    using 1(1) 2(1) 3 4 by (simp add: dispatch_request_def a b c split: option.split)
qed

lemma handle_parts:
  "hc_api (snd (handle env raw peer is_tls st))
     = hc_api (snd (dispatch env raw peer is_tls (st\<lparr>hc_stats := (hc_stats st)\<lparr>st_active := fetch_add (st_active (hc_stats st)) 1\<rparr>\<rparr>)))"
  "hc_users (snd (handle env raw peer is_tls st))
     = hc_users (snd (dispatch env raw peer is_tls (st\<lparr>hc_stats := (hc_stats st)\<lparr>st_active := fetch_add (st_active (hc_stats st)) 1\<rparr>\<rparr>)))"
  "hc_challenges (snd (handle env raw peer is_tls st))
     = hc_challenges (snd (dispatch env raw peer is_tls (st\<lparr>hc_stats := (hc_stats st)\<lparr>st_active := fetch_add (st_active (hc_stats st)) 1\<rparr>\<rparr>)))"
  by (simp_all add: handle_def Let_def split_beta)

section \<open>The invariant of the service\<close>

text \<open>What holds between requests: the statistics add up, the cache is within its bound, the maps of
  the registry agree, and the response cache is as it was switched at the start.\<close>

definition service_ok :: "'c handler_state \<Rightarrow> bool" where
  "service_ok st \<longleftrightarrow> stats_ok (hc_stats st) \<and> cache_ok (hc_cache st) \<and> reg_ok (hc_users st) \<and> \<not> ca_enabled (hc_cache st)"

lemma stats_ok_active [simp]: "stats_ok (s\<lparr>st_active := n\<rparr>) = stats_ok s"
  by (simp add: stats_ok_def)

lemma cache_get_enabled: "ca_enabled (snd (cache_get now key c)) = ca_enabled c"
  by (simp add: cache_get_def split: option.split)

lemma cache_put_enabled: "ca_enabled (cache_put it now key bytes status c) = ca_enabled c"
  by (simp add: cache_put_def insert_entry_def split: option.split)

text \<open>The cache through the parts after the APIs.\<close>

definition cache_step_ok :: "'c handler_env \<Rightarrow> 'c handler_state \<Rightarrow> 'c handler_state \<Rightarrow> bool" where
  "cache_step_ok env st st' \<longleftrightarrow>
     (cache_ok (hc_cache st) \<longrightarrow> iteration_order (hv_cache_order env) \<longrightarrow> cache_ok (hc_cache st'))
     \<and> ca_enabled (hc_cache st') = ca_enabled (hc_cache st)"

lemma check_location_cache: "hc_cache (snd (check_location env server location rq ka peer st)) = hc_cache st"
  by (simp add: check_location_def check_auth_def check_rate_def Let_def logged_def log_request_def state_simps split_beta
      split: option.split prod.split)

lemma run_handler_cache: "hc_cache (snd (run_handler env server location rq body ka peer st)) = hc_cache st"
  by (auto simp: run_handler_def tunnel_websocket_def serve_group_def Let_def log_request_def
      state_simps split_beta split: option.split location_handler.split sum.split)

lemma send_response_cache: "cache_step_ok env st (snd (send_response env server location rq ka is_tls peer resp st))"
  by (simp add: cache_step_ok_def send_response_def Let_def split_beta state_simps store_response_def
      cache_put_ok cache_put_enabled)

lemma dispatch_location_cache: "cache_step_ok env st (snd (dispatch_location env server location rq body ka is_tls peer st))"
proof -
  obtain r1 st1 where a: "check_location env server location rq ka peer st = (r1, st1)"
    by (cases "check_location env server location rq ka peer st")
  obtain r2 st2 where b: "run_handler env server location rq body ka peer st1 = (r2, st2)"
    by (cases "run_handler env server location rq body ka peer st1")
  have "hc_cache st2 = hc_cache st" "hc_cache st1 = hc_cache st"
    using check_location_cache [of env server location rq ka peer st] run_handler_cache [of env server location rq body ka peer st1]
    by (simp_all add: a b)
  then show ?thesis
    using send_response_cache [where st = st2 and env = env]
    by (simp add: dispatch_location_def a b cache_step_ok_def split: option.split sum.split)
qed

lemma dispatch_server_cache: "cache_step_ok env st (snd (dispatch_server env inc is_tls peer st))"
  by (simp add: dispatch_server_def Let_def logged_def log_request_def dispatch_location_cache split: sum.split)
     (simp add: cache_step_ok_def state_simps)

lemma user_api_ok:
  assumes "reg_ok reg" "map_of (reg_by_id reg) (random_hex 16 r1) = None"
  shows "reg_ok (snd (handle_user_api env js r1 r2 path m body key is_admin reg))"
proof -
  have "reg_ok (snd (create_user env (new_user r1 r2 u ds h) reg))" for u ds h
    using assms by (simp add: create_user_reg insert_user_ok new_user_def)
  moreover note delete_user_ok [OF assms(1)]
  ultimately show ?thesis
    using assms(1) unfolding handle_user_api_def Let_def
    by (auto split: prod.split sum.split option.split bool.split simp: split_beta)
qed

lemma handle_user_ok:
  assumes "reg_ok (hc_users st)" "map_of (reg_by_id (hc_users st)) (random_hex 16 (hv_user_id env)) = None"
  shows "reg_ok (hc_users (snd (serve_user_api env inc peer st)))"
  using user_api_ok [OF assms]
  by (auto simp: serve_user_api_def Let_def state_simps split_beta split: option.split)

lemma serve_api_parts:
  "hc_stats (snd (serve_api env inc peer st)) = hc_stats st" "hc_cache (snd (serve_api env inc peer st)) = hc_cache st"
  "hc_users (snd (serve_api env inc peer st)) = hc_users st"
  by (simp_all add: serve_api_def Let_def state_simps split_beta split: option.split)

lemma serve_user_api_parts:
  "hc_stats (snd (serve_user_api env inc peer st)) = hc_stats st" "hc_cache (snd (serve_user_api env inc peer st)) = hc_cache st"
  by (simp_all add: serve_user_api_def Let_def state_simps split_beta split: option.split)

lemma dispatch_request_ok:
  assumes ok: "service_ok st"
    and order: "iteration_order (hv_cache_order env)"
    and fresh: "map_of (reg_by_id (hc_users st)) (random_hex 16 (hv_user_id env)) = None"
  shows "service_ok (snd (dispatch_request env inc n is_tls peer st))
    \<and> st_active (hc_stats (snd (dispatch_request env inc n is_tls peer st))) = st_active (hc_stats st)"
proof -
  define same where "same s \<longleftrightarrow> service_ok s \<and> st_active (hc_stats s) = st_active (hc_stats st)" for s :: "'a handler_state"
  have no_cache: "serve_cached env inc n st = (None, st)"
    using ok by (auto simp: serve_cached_def service_ok_def cache_get_def Let_def)
  obtain r2 st2 where b: "serve_user_api env inc peer st = (r2, st2)" by (cases "serve_user_api env inc peer st")
  obtain r3 st3 where c: "serve_api env inc peer st2 = (r3, st3)" by (cases "serve_api env inc peer st2")
  have 2: "same st2"
    using ok b serve_user_api_parts [of env inc peer st] handle_user_ok [of st env inc peer] fresh
    by (simp add: same_def service_ok_def)
  have 3: "same st3"
    using 2 c serve_api_parts [of env inc peer st2] by (simp add: same_def service_ok_def)
  have "same (snd (dispatch_server env inc is_tls peer st3))"
    using 3 order dispatch_server_same [of st3 env inc is_tls peer] dispatch_server_cache [of env st3 inc is_tls peer]
    by (simp add: same_def service_ok_def inner_same_def cache_step_ok_def)
  then show ?thesis
    using 2 3 ok by (simp add: dispatch_request_def no_cache b c same_def [symmetric] split: option.split)
      (simp add: same_def)
qed

lemma handle_ok:
  assumes "service_ok st" "st_active (hc_stats st) < 2 ^ 64" "iteration_order (hv_cache_order env)"
    and "map_of (reg_by_id (hc_users st)) (random_hex 16 (hv_user_id env)) = None"
  shows "service_ok (snd (handle env raw peer is_tls st))
    \<and> st_active (hc_stats (snd (handle env raw peer is_tls st))) = st_active (hc_stats st)"
proof -
  let ?st = "st\<lparr>hc_stats := (hc_stats st)\<lparr>st_active := fetch_add (st_active (hc_stats st)) 1\<rparr>\<rparr>"
  have "service_ok ?st" using assms(1) by (simp add: service_ok_def)
  then have d: "service_ok (snd (dispatch env raw peer is_tls ?st))
      \<and> st_active (hc_stats (snd (dispatch env raw peer is_tls ?st))) = st_active (hc_stats ?st)"
    using dispatch_request_ok [of ?st env] assms(3,4) by (simp add: dispatch_def split: sum.split)
  have "((a + 1) mod 2 ^ 64 + 2 ^ 64 - 1) mod 2 ^ 64 = a" if "a < 2 ^ 64" for a :: nat
    using that by (cases "a + 1 = 2 ^ 64") auto
  moreover have "st_active (record_request status out inn us s) = st_active s" for status out inn us s
    by (simp add: record_request_def Let_def)
  ultimately show ?thesis
    using d assms(2)
    by (simp add: handle_def Let_def split_beta service_ok_def record_request_ok fetch_add_def)
qed

text \<open>What the service does: it handles requests, and its background tasks run.\<close>

inductive service_step :: "'c handler_state \<Rightarrow> 'c handler_state \<Rightarrow> bool" where
  Request: "iteration_order (hv_cache_order env)
    \<Longrightarrow> map_of (reg_by_id (hc_users st)) (random_hex 16 (hv_user_id env)) = None
    \<Longrightarrow> service_step st (snd (handle env raw peer is_tls st))"
| Scan_Gc: "service_step st (st\<lparr>hc_scan := scan_gc now (hc_scan st)\<rparr>)"
| Health: "get_group (hc_upstreams st) name = Some g
    \<Longrightarrow> service_step st (st\<lparr>hc_upstreams := (hc_upstreams st)(name \<mapsto> health_probe i ok now g)\<rparr>)"
| Challenge_Set: "service_step st (st\<lparr>hc_challenges := set_challenge token key_auth (hc_challenges st)\<rparr>)"
| Challenge_Done: "service_step st (st\<lparr>hc_challenges := remove_challenge token (hc_challenges st)\<rparr>)"

inductive_cases service_stepE: "service_step st st'"

lemma service_step_ok:
  "service_step st st' \<Longrightarrow> service_ok st \<and> st_active (hc_stats st) = 0
   \<Longrightarrow> service_ok st' \<and> st_active (hc_stats st') = 0"
proof (induction rule: service_step.induct)
  case (Request env st raw peer is_tls)
  then show ?case using handle_ok [of st env raw peer is_tls] by simp
qed (simp_all add: service_ok_def)

abbreviation idle_ok :: "'c handler_state \<Rightarrow> bool" where
  "idle_ok st \<equiv> service_ok st \<and> st_active (hc_stats st) = 0"

interpretation service_run: invariant_steps service_step idle_ok
  by unfold_locales (rule service_step_ok)

lemma start_ok:
  assumes "\<And>src us. users_toml = Some src \<Longrightarrow> mu_toml_parse users src = Some us \<Longrightarrow> distinct (map ua_id us)"
  shows "service_ok (start_state users users_toml cfg) \<and> st_active (hc_stats (start_state users users_toml cfg)) = 0"
proof -
  have "reg_ok (load_registry users users_toml)"
    unfolding load_registry_def using assms by (intro reload_ok) (auto simp: reg_ok_def)
  then show ?thesis
    by (simp add: service_ok_def start_state_def stats_ok_def new_stats_def sum_list_replicate cache_ok_def new_cache_def)
qed

section \<open>Properties\<close>


text \<open>C5: in every state the service can reach from its start, when the users file names each
  identifier once and new identifiers are fresh, the latency histogram adds up to the number of
  requests, no connection is counted as active between requests, the user registry is consistent
  (every key leads to the user who has it) and the response cache, which the start switches off, is
  still off and within its bound.\<close>

theorem service_invariant:
  assumes "service_step\<^sup>*\<^sup>* (start_state users users_toml cfg) st"
    and "\<And>src us. users_toml = Some src \<Longrightarrow> mu_toml_parse users src = Some us \<Longrightarrow> distinct (map ua_id us)"
  shows "stats_ok (hc_stats st) \<and> st_active (hc_stats st) = 0 \<and> reg_ok (hc_users st)
    \<and> cache_ok (hc_cache st) \<and> \<not> ca_enabled (hc_cache st)"
  using service_run.reachable_inv [OF assms(1) start_ok [OF assms(2)]] by (simp add: service_ok_def)

end
