(* ===== verification/Conf_Props.thy ===== *)
theory Conf_Props
  imports Conf_Root
begin

text \<open>
  The properties of the configuration parser, and one configuration on which they are evaluated.
\<close>

section \<open>A configuration\<close>

definition demo_text :: string where
  "demo_text = ''http { server { root /srv; location / { root /srv/www; proxy_pass http://127.0.0.1; client_max_body_size 4g; } } }''"

definition demo_url :: url where
  "demo_url = \<lparr>url_scheme = ''http'', url_host = Some ''127.0.0.1'', url_port_or_known_default = Some 80, url_path = ''/''\<rparr>"

definition demo_env :: conf_env where
  "demo_env = \<lparr>env_read = (\<lambda>p. Some demo_text), env_glob = (\<lambda>p. []), env_regex_ok = (\<lambda>r. True),
     env_url_parse = (\<lambda>u. Some demo_url), env_rnd = Finite, env_rnd32 = Finite\<rparr>"

definition demo_server_tokens :: "token list" where
  "demo_server_tokens =
     [Word ''root'', Word ''/srv'', Semicolon, Word ''location'', Word ''/'', OpenBrace,
      Word ''root'', Word ''/srv/www'', Semicolon, Word ''proxy_pass'', Word ''http://127.0.0.1'', Semicolon,
      Word ''client_max_body_size'', Word ''4g'', Semicolon, CloseBrace, CloseBrace, CloseBrace]"

lemma demo_tokens:
  "tokenize demo_text = Word ''http'' # OpenBrace # Word ''server'' # OpenBrace # demo_server_tokens"
  by (simp add: demo_text_def demo_server_tokens_def is_ascii_whitespace_def word_end_def)

lemmas parse_eval =
  server_loop.simps [of _ "_ # _"] server_directive_def https_directive_def location_loop.simps [of _ "_ # _"]
  location_directive_def auth_directive_def expect_word_def expect_open_def expect_semi_def one_word_def args_semi_def
  parse_server_block_def parse_location_def canonicalize_root_def has_parent_dir_def
  parse_location_pattern_def ok_or_def starts_with_def on_srv_def Let_def

lemma parse_size_4g: "parse_size ''4g'' = Some 4294967296"
  by (simp add: parse_size_def str_trim_def trim_start.simps [of "''4g''"] trim_end.simps [of "''4g''"]
      ws_len_def ws_len_end_def white_space_def starts_with_def ends_with_def parse_uint_def
      is_ascii_digit_def ascii_code_def dec_value_def digit_val_def)

definition demo_location :: location_block where
  "demo_location = location_of_state (Prefix ''/'')
     (empty_loc_state\<lparr>ls_root := Some ''/srv/www'', ls_client_max_body_size := Some ABSOLUTE_MAX_BODY_BYTES,
        ls_handler := Proxy \<lparr>pc_upstream = demo_url, pc_set_headers = [], pc_read_timeout = 60,
           pc_connect_timeout = 5, pc_buffering = True, pc_http2 = False, pc_allow_internal = False\<rparr>\<rparr>)"

definition demo_server :: server_block where
  "demo_server = empty_server\<lparr>srv_root := Some ''/srv'', srv_locations := [demo_location]\<rparr>"

lemma demo_proxy_pass: "parse_proxy_pass demo_env u =
    Inr \<lparr>pc_upstream = demo_url, pc_set_headers = [], pc_read_timeout = 60,
           pc_connect_timeout = 5, pc_buffering = True, pc_http2 = False, pc_allow_internal = False\<rparr>"
  by (simp add: parse_proxy_pass_def demo_env_def demo_url_def ok_or_def net_eval blocked_host_def
      to_ascii_lowercase_def char_lower_def ends_with_def)

lemma demo_server_block:
  "parse_server_block demo_env demo_server_tokens = Inr (demo_server, [CloseBrace])"
  by (simp add: demo_server_tokens_def parse_eval demo_proxy_pass body_size_def parse_size_4g
      demo_server_def demo_location_def MAX_LOCATION_BLOCKS_def empty_server_def empty_loc_state_def
      ABSOLUTE_MAX_BODY_BYTES_def location_of_state_def location_auth_def)

lemma demo_http_block:
  "parse_http_block demo_env path (Word ''server'' # OpenBrace # demo_server_tokens)
   = Inr (default_http_block\<lparr>http_servers := [demo_server]\<rparr>, [])"
  by (simp add: parse_http_block_def http_loop.simps [of _ _ "_ # _"] http_directive_def expect_open_def
      demo_server_block push_server_def on_http_def MAX_SERVER_BLOCKS_def default_http_block_def)

lemma demo_load:
  "load demo_env path = Inr ((default_config demo_env)\<lparr>cfg_http := default_http_block\<lparr>http_servers := [demo_server]\<rparr>\<rparr>)"
proof -
  have "env_read demo_env path = Some demo_text" by (simp add: demo_env_def)
  then show ?thesis
    unfolding load_def parse_root_unfold [of demo_env path 0]
    by (simp add: demo_tokens ok_or_def root_loop.simps [of _ _ _ "_ # _"] root_directive_def
        expect_open_def demo_http_block root_loop.simps [of _ _ _ "[]"])
qed

section \<open>What the servers of a loaded configuration satisfy\<close>

lemma load_server_ok:
  assumes "load env path = Inr cfg" "srv \<in> set (http_servers (cfg_http cfg))"
  shows "server_ok srv"
  using res_satD [OF sat_load assms(1)] assms(2) by (simp add: http_ok_def list_all_iff)

lemma load_location_ok:
  assumes "load env path = Inr cfg" "srv \<in> set (http_servers (cfg_http cfg))"
    and "loc \<in> set (srv_locations srv)"
  shows "location_ok loc"
  using load_server_ok [OF assms(1,2)] assms(3) by (simp add: server_ok_def list_all_iff)

section \<open>Sizes\<close>

lemma parse_size_unit:
  assumes "n < 2 ^ 64"
  shows "parse_size (show_nat n @ ''k'') = Some (n * 1024 mod 2 ^ 64)"
    and "parse_size (show_nat n @ ''m'') = Some (n * 1048576 mod 2 ^ 64)"
    and "parse_size (show_nat n @ ''g'') = Some (n * 1073741824 mod 2 ^ 64)"
proof -
  have tr: "str_trim (show_nat n @ ''k'') = show_nat n @ ''k''" "str_trim (show_nat n @ ''m'') = show_nat n @ ''m''"
    "str_trim (show_nat n @ ''g'') = show_nat n @ ''g''"
    by (intro str_trim_number; simp add: white_space_def)+
  show "parse_size (show_nat n @ ''k'') = Some (n * 1024 mod 2 ^ 64)"
    "parse_size (show_nat n @ ''m'') = Some (n * 1048576 mod 2 ^ 64)"
    "parse_size (show_nat n @ ''g'') = Some (n * 1073741824 mod 2 ^ 64)"
    unfolding parse_size_def tr using assms by (simp_all add: Let_def parse_show_nat)
qed

section \<open>Properties\<close>

text \<open>C21: the tokenizer reads back every token sequence, whatever the words hold (quotes,
  backslashes, line ends, braces), when its words are quoted and escaped: no text in a quoted word
  can add or remove a token.\<close>

theorem tokenize_roundtrip: "tokenize (concat (map render_token ts)) = ts"
  by (rule tokenize_render)

text \<open>C9: in every configuration that loads, no server or location root holds a NUL byte or a
  parent-directory component, also when the servers come from included files.\<close>

theorem loaded_roots_safe:
  assumes "load env path = Inr cfg" and "srv \<in> set (http_servers (cfg_http cfg))"
    and "srv_root srv = Some p \<or> (\<exists>loc. loc \<in> set (srv_locations srv) \<and> loc_root loc = Some p)"
  shows "CHR 0x00 \<notin> set p \<and> ''..'' \<notin> set (split_on (CHR ''/'') p)"
proof -
  have "root_ok (Some p)"
    using assms(3)
  proof
    assume "srv_root srv = Some p"
    then show ?thesis using load_server_ok [OF assms(1,2)] by (simp add: server_ok_def)
  next
    assume "\<exists>loc. loc \<in> set (srv_locations srv) \<and> loc_root loc = Some p"
    then show ?thesis using load_location_ok [OF assms(1,2)] by (metis location_ok_def)
  qed
  then show ?thesis by (simp add: root_ok_def safe_root_def)
qed

theorem loaded_roots_safe_witness:
  "CHR 0x00 \<notin> set ''/srv/www'' \<and> ''..'' \<notin> set (split_on (CHR ''/'') ''/srv/www'')"
  by (rule loaded_roots_safe [OF demo_load [of "''/c''"], of demo_server])
     (simp_all add: demo_server_def demo_location_def location_of_state_def)



text \<open>No body size limit of a loaded configuration is above the server's ceiling, at any of the
  three levels.\<close>

theorem loaded_body_limits:
  assumes "load env path = Inr cfg"
  shows "http_client_max_body_size (cfg_http cfg) \<le> ABSOLUTE_MAX_BODY_BYTES
     \<and> (\<forall>srv n. srv \<in> set (http_servers (cfg_http cfg)) \<and> srv_client_max_body_size srv = Some n
          \<longrightarrow> n \<le> ABSOLUTE_MAX_BODY_BYTES)
     \<and> (\<forall>srv loc n. srv \<in> set (http_servers (cfg_http cfg)) \<and> loc \<in> set (srv_locations srv)
          \<and> loc_client_max_body_size loc = Some n \<longrightarrow> n \<le> ABSOLUTE_MAX_BODY_BYTES)"
proof (intro conjI allI impI)
  show "http_client_max_body_size (cfg_http cfg) \<le> ABSOLUTE_MAX_BODY_BYTES"
    using res_satD [OF sat_load assms] by (simp add: http_ok_def)
next
  fix srv n
  assume "srv \<in> set (http_servers (cfg_http cfg)) \<and> srv_client_max_body_size srv = Some n"
  then show "n \<le> ABSOLUTE_MAX_BODY_BYTES"
    using load_server_ok [OF assms, of srv] by (simp add: server_ok_def body_limit_ok_def)
next
  fix srv loc n
  assume "srv \<in> set (http_servers (cfg_http cfg)) \<and> loc \<in> set (srv_locations srv)
    \<and> loc_client_max_body_size loc = Some n"
  then show "n \<le> ABSOLUTE_MAX_BODY_BYTES"
    using load_location_ok [OF assms, of srv loc] by (simp add: location_ok_def body_limit_ok_def)
qed

theorem loaded_body_limits_witness:
  "ABSOLUTE_MAX_BODY_BYTES = 2147483648 \<and> loc_client_max_body_size demo_location = Some 2147483648
   \<and> (2147483648 :: nat) \<le> ABSOLUTE_MAX_BODY_BYTES"
proof -
  have "loc_client_max_body_size demo_location = Some 2147483648"
    by (simp add: demo_location_def location_of_state_def ABSOLUTE_MAX_BODY_BYTES_def)
  moreover have "demo_location \<in> set (srv_locations demo_server)" by (simp add: demo_server_def)
  ultimately show ?thesis
    using loaded_body_limits [OF demo_load [of "''/c''"]] by (auto simp: ABSOLUTE_MAX_BODY_BYTES_def)
qed

text \<open>The parser never makes a location that serves an upstream group, so the load balancer's
  groups cannot be reached from a configuration file.\<close>

theorem loaded_no_upstream_group:
  assumes "load env path = Inr cfg" and "srv \<in> set (http_servers (cfg_http cfg))"
    and "loc \<in> set (srv_locations srv)"
  shows "loc_handler loc \<noteq> UpstreamGroup g"
  using load_location_ok [OF assms] by (auto simp: location_ok_def)

theorem loaded_no_upstream_group_witness: "loc_handler demo_location \<noteq> UpstreamGroup ''u''"
  by (rule loaded_no_upstream_group [OF demo_load [of "''/c''"], of demo_server])
     (simp_all add: demo_server_def)

text \<open>One http block, with the files it includes, never gives more than 256 servers, and no
  server more than 1024 locations.\<close>

theorem http_block_counts:
  assumes "parse_http_block env path ts = Inr (h, r)"
  shows "length (http_servers h) \<le> MAX_SERVER_BLOCKS
     \<and> list_all (\<lambda>srv. length (srv_locations srv) \<le> MAX_LOCATION_BLOCKS) (http_servers h)"
proof -
  have "res_sat (parse_http_block env path ts) (\<lambda>(h, r). http_ok h \<and> length (http_servers h) \<le> MAX_SERVER_BLOCKS)"
    by (intro sat_rules) simp
  from res_satD [OF this assms] have h: "http_ok h" "length (http_servers h) \<le> MAX_SERVER_BLOCKS" by auto
  then show ?thesis by (auto simp: http_ok_def list_all_iff server_ok_def)
qed

theorem http_block_counts_witness:
  "length (http_servers (default_http_block\<lparr>http_servers := [demo_server]\<rparr>)) \<le> MAX_SERVER_BLOCKS"
  using http_block_counts [OF demo_http_block [of "''/c''"]] by simp

text \<open>Files that include each other in a cycle are an error at every depth, never a loop: the
  parser returns \<open>Include_Depth\<close>.\<close>

theorem include_cycle_refused:
  assumes "\<And>p. p \<in> S \<Longrightarrow> \<exists>src pattern r q qs. env_read env p = Some src
      \<and> tokenize src = Word ''include'' # Word pattern # Semicolon # r
      \<and> env_glob env (include_glob p pattern) = q # qs \<and> q \<in> S"
    and "p \<in> S"
  shows "load env p = Inl Include_Depth"
proof -
  obtain src where src: "env_read env p = Some src" using assms(1) [OF assms(2)] by auto
  then show ?thesis
    using include_cycle_error [OF assms(1) assms(2) src] by (simp add: load_def parse_root_def ok_or_def)
qed

definition cycle_env :: conf_env where
  "cycle_env = demo_env\<lparr>env_read := (\<lambda>p. Some ''include b.conf;''), env_glob := (\<lambda>p. [p])\<rparr>"

theorem include_cycle_refused_witness: "load cycle_env ''/a/b.conf'' = Inl Include_Depth"
proof (rule include_cycle_refused [where S = UNIV])
  fix p :: string
  have "tokenize ''include b.conf;'' = Word ''include'' # Word ''b.conf'' # Semicolon # []"
    by (simp add: is_ascii_whitespace_def word_end_def)
  then show "\<exists>src pattern r q qs. env_read cycle_env p = Some src
      \<and> tokenize src = Word ''include'' # Word pattern # Semicolon # r
      \<and> env_glob cycle_env (include_glob p pattern) = q # qs \<and> q \<in> UNIV"
    by (simp add: cycle_env_def)
qed simp

text \<open>An unknown directive of the http block leaves no trace, with any arguments and any block
  whose braces match: parsing goes on right after it with the same state.\<close>

theorem unknown_directive_ignored:
  assumes "w \<notin> set http_keywords" "balanced body"
  shows "http_loop env path (Word w # map Word args @ OpenBrace # body @ CloseBrace # r) st
         = http_loop env path r st"
  using http_block.loop_skips [of env path w "map Word args @ OpenBrace # body @ [CloseBrace]" r st]
  by (simp add: http_unknown [OF assms(1)] skip_unknown_block [OF assms(2)])

theorem unknown_directive_ignored_witness:
  "http_loop demo_env ''/c'' (Word ''map'' # map Word [''$a'', ''$b''] @ OpenBrace # [OpenBrace, CloseBrace] @ CloseBrace # [])
     \<lparr>hs_http = default_http_block, hs_server_count = 0\<rparr>
   = http_loop demo_env ''/c'' [] \<lparr>hs_http = default_http_block, hs_server_count = 0\<rparr>"
  by (rule unknown_directive_ignored) (simp_all add: http_keywords_def balanced_def)

text \<open>An empty events block stops the parser without an error: nothing that follows it is read,
  so the servers of the file are lost.\<close>

theorem empty_events_truncates:
  "root_loop env inc path (Word ''events'' # OpenBrace # CloseBrace # rest) cfg = Inr cfg"
  by (rule root_loop_events_empty)

text \<open>A size with a unit is the number times 2 to the 10, 20 or 30, modulo the word size.\<close>

theorem parse_size_units:
  assumes "n < 2 ^ 64"
  shows "parse_size (show_nat n @ ''k'') = Some (n * 1024 mod 2 ^ 64)
       \<and> parse_size (show_nat n @ ''m'') = Some (n * 1048576 mod 2 ^ 64)
       \<and> parse_size (show_nat n @ ''g'') = Some (n * 1073741824 mod 2 ^ 64)"
  using parse_size_unit [OF assms] by simp

theorem parse_size_units_witness: "parse_size (show_nat 17179869184 @ ''g'') = Some 0"
  using parse_size_units [of 17179869184] by simp

end
