(* ===== verification/Site_Props.thy ===== *)
theory Site_Props
  imports Sites Conf_Props Router
begin

text \<open>
  The properties of site provisioning: which files and commands a request can reach, and how the
  configuration parser and the router of the program read the configuration it writes.
\<close>

section \<open>Domains\<close>

lemma valid_domain_chars:
  assumes "is_valid_domain d" "c \<in> set d"
  shows "is_ascii_alphanumeric c \<or> c = CHR ''-'' \<or> c = CHR ''.''"
  using assms by (simp add: is_valid_domain_def list_all_iff)

lemma valid_domain_not:
  assumes "is_valid_domain d"
    and "\<not> is_ascii_alphanumeric c" "c \<noteq> CHR ''-''" "c \<noteq> CHR ''.''"
  shows "c \<notin> set d"
  using valid_domain_chars [OF assms(1), of c] assms(2-) by blast

lemma valid_domain_name:
  assumes "is_valid_domain d"
  shows "plain_name d" "plain_name (d @ ''.conf'')" "d \<noteq> ''..''" "d @ ''.conf'' \<noteq> ''..''" "hd d \<noteq> CHR ''.''"
proof -
  have d: "d \<noteq> []" "\<not> starts_with d ''.''" using assms by (simp_all add: is_valid_domain_def)
  show hd: "hd d \<noteq> CHR ''.''" using d by (cases d) (simp_all add: starts_with_def)
  have "CHR ''/'' \<notin> set d"
    by (rule valid_domain_not [OF assms]) (simp_all add: is_ascii_alphanumeric_def is_ascii_digit_def ascii_code_def)
  then show "plain_name d" "plain_name (d @ ''.conf'')" "d \<noteq> ''..''" "d @ ''.conf'' \<noteq> ''..''"
    using d hd by (auto simp: plain_name_def)
qed

lemma site_webroot_parent:
  assumes "is_valid_domain d"
  shows "path_parent (site_webroot d) = Some (path_join ''/var/www'' d)" "site_webroot d = ''/var/www/'' @ d @ ''/public''"
proof -
  have d: "d \<noteq> []" "d \<noteq> ''.''" "CHR ''/'' \<notin> set d" "\<not> is_absolute d" "last d \<noteq> CHR ''/''"
    using valid_domain_name(1) [OF assms] last_in_set [of d]
    by (auto simp: plain_name_def is_absolute_def starts_with_iff simp del: last_in_set)
  show w: "site_webroot d = ''/var/www/'' @ d @ ''/public''"
    using d by (simp add: site_webroot_def path_join_def is_absolute_def starts_with_def)
  have tw: "takeWhile (\<lambda>c. c \<noteq> CHR ''/'') (rev d @ CHR ''/'' # s) = rev d"
    "dropWhile (\<lambda>c. c \<noteq> CHR ''/'') (rev d @ CHR ''/'' # s) = CHR ''/'' # s" for s
    using d(3) by (subst takeWhile_append2 dropWhile_append2; auto)+
  have 1: "trim_tail (''var/www/'' @ d @ ''/public'') = ''var/www/'' @ d @ ''/public''"
    by (subst trim_tail.simps) (simp add: last_piece_def)
  have 2: "drop_last_piece (''var/www/'' @ d @ ''/public'') = ''var/www/'' @ d"
    by (simp add: drop_last_piece_def)
  have 3: "trim_tail (''var/www/'' @ d) = ''var/www/'' @ d"
    using d(1,2) tw(1) [of "rev ''var/www''"] by (subst trim_tail.simps) (simp add: last_piece_def)
  have "path_join ''/var/www'' d = ''/var/www/'' @ d" using d(4) by (simp add: path_join_def)
  then show "path_parent (site_webroot d) = Some (path_join ''/var/www'' d)"
    using 1 2 3 by (simp add: path_parent_def w is_absolute_def starts_with_def)
qed

section \<open>The files and commands of a site\<close>

text \<open>What creating or deleting the site of a domain may do: its own directories, its own
  configuration file, and commands of a fixed list, those that change files on the web root.\<close>

definition site_dirs :: "string \<Rightarrow> string \<Rightarrow> string list" where
  "site_dirs config_dir domain =
     [path_join (path_join config_dir ''sites'') domain, path_join (path_join config_dir ''ssl'') domain,
      path_join ''/var/www'' domain]"

definition in_site_dirs :: "string \<Rightarrow> string \<Rightarrow> string \<Rightarrow> bool" where
  "in_site_dirs config_dir domain p \<longleftrightarrow> list_ex (path_below p) (site_dirs config_dir domain)"

definition site_conf :: "string \<Rightarrow> string \<Rightarrow> string" where
  "site_conf config_dir domain = path_join (path_join config_dir ''sites-enabled'') (domain @ ''.conf'')"

definition site_effect :: "string \<Rightarrow> string \<Rightarrow> effect \<Rightarrow> bool" where
  "site_effect config_dir domain e =
     (case e of
        Create_Dir_All p \<Rightarrow> p = path_join config_dir ''sites-enabled'' \<or> in_site_dirs config_dir domain p
      | Write_File p _ \<Rightarrow> p = site_conf config_dir domain \<or> in_site_dirs config_dir domain p
      | Remove_File p \<Rightarrow> p = site_conf config_dir domain
      | Remove_Dir_All p \<Rightarrow> in_site_dirs config_dir domain p
      | Run prog args \<Rightarrow>
          prog \<in> set [''wget'', ''tar'', ''mysql'', ''certbot'']
          \<or> prog \<in> set [''chown'', ''chmod'', ''cp''] \<and> path_below (last args) (path_join ''/var/www'' domain)
      | Copy_File _ _ \<Rightarrow> False
      | Send_Reload \<Rightarrow> False)"

lemma in_site_dirs_join:
  assumes "in_site_dirs config_dir d p" "plain_name n" "n \<noteq> ''..''"
  shows "in_site_dirs config_dir d (path_join p n)"
  using assms unfolding in_site_dirs_def by (auto simp: list_ex_iff intro!: path_below_join)

lemma in_site_dirs_base:
  "in_site_dirs config_dir d (path_join (path_join config_dir ''sites'') d)"
  "in_site_dirs config_dir d (path_join (path_join config_dir ''ssl'') d)"
  "in_site_dirs config_dir d (path_join ''/var/www'' d)"
  by (simp_all add: in_site_dirs_def site_dirs_def)

lemma below_webroot:
  "path_below (site_webroot d) (path_join ''/var/www'' d)"
  "plain_name n \<Longrightarrow> n \<noteq> ''..'' \<Longrightarrow> path_below (path_join (site_webroot d) n) (path_join ''/var/www'' d)"
  unfolding site_webroot_def by (intro path_below_join path_below_refl; simp add: plain_name_def)+

lemma in_site_dirs_webroot: "in_site_dirs config_dir d (site_webroot d)"
  unfolding site_webroot_def by (intro in_site_dirs_join in_site_dirs_base) (simp_all add: plain_name_def)

lemmas site_paths = in_site_dirs_webroot in_site_dirs_base below_webroot in_site_dirs_join

lemma only_exists [only_rules]: "(\<And>b. only P (f b)) \<Longrightarrow> only P (exists_then env p f)"
  unfolding exists_then_def by (intro only_rules)

lemma only_let [only_rules]: "only P (f x) \<Longrightarrow> only P (let y = x in f y)"
  by simp

lemma create_dirs_only: "(\<And>dir. dir \<in> set dirs \<Longrightarrow> P (Create_Dir_All dir)) \<Longrightarrow> only P (create_dirs env dirs)"
  by (induction dirs) (auto intro!: only_rules)

lemma setup_wordpress_only:
  assumes "is_valid_domain (sr_domain req)"
  shows "only (site_effect cdir (sr_domain req)) (setup_wordpress env req (site_webroot (sr_domain req)))"
proof -
  let ?e = "site_effect cdir (sr_domain req)" and ?w = "site_webroot (sr_domain req)"
  have ex: "in_site_dirs cdir (sr_domain req) (path_join (the (path_parent ?w)) ''wp_extract_tmp'')"
    by (simp add: site_webroot_parent(1) [OF assms] in_site_dirs_join in_site_dirs_base plain_name_def)
  have "only ?e (download_wordpress env)"
    unfolding download_wordpress_def by (intro only_rules) (simp_all add: site_effect_def)
  moreover have "only ?e (extract_wordpress env ?w)"
    unfolding extract_wordpress_def by (intro only_rules) (simp_all add: site_effect_def ex site_paths)
  moreover have "only ?e (setup_database env req ?w n u p)" for n u p
    unfolding setup_database_def by (intro only_rules) (simp_all add: site_effect_def site_paths plain_name_def)
  moreover have "only ?e (set_permissions env ?w)"
    unfolding set_permissions_def by (intro only_rules) (simp_all add: site_effect_def site_paths plain_name_def)
  ultimately show ?thesis unfolding setup_wordpress_def by (intro only_rules) simp_all
qed

lemma site_setup_only:
  assumes "is_valid_domain (sr_domain req)"
  shows "only (site_effect cdir (sr_domain req)) (site_setup env req (site_webroot (sr_domain req)))"
proof (cases "sr_site_type req")
  case Site_Static
  then show ?thesis unfolding site_setup_def setup_static_def
    by (simp, intro only_rules) (simp add: site_effect_def site_paths plain_name_def)
next
  case Site_Php
  then show ?thesis unfolding site_setup_def setup_php_def
    by (simp, intro only_rules) (simp add: site_effect_def site_paths plain_name_def)
next
  case Site_Wordpress
  then show ?thesis by (simp add: site_setup_def setup_wordpress_only assms)
next
  case Site_Proxy
  then show ?thesis by (simp add: site_setup_def only_ok)
qed

lemma append_tls_only: "only (site_effect cdir d) (append_tls_block env (site_conf cdir d) domain cert key)"
  unfolding append_tls_block_def by (intro only_rules) (simp add: site_effect_def)

lemma custom_cert_only:
  "only (site_effect cdir (sr_domain req))
     (configure_custom_cert env req (site_conf cdir (sr_domain req)) cdir)"
  unfolding configure_custom_cert_def write_if_def
  by (intro only_rules append_tls_only) (simp_all add: site_effect_def site_paths plain_name_def)

lemma configure_ssl_only:
  "only (site_effect cdir (sr_domain req)) (configure_ssl env req (site_conf cdir (sr_domain req)) cdir)"
proof -
  have "only (site_effect cdir (sr_domain req))
      (configure_letsencrypt env req (site_conf cdir (sr_domain req)))"
    unfolding configure_letsencrypt_def by (intro only_rules append_tls_only) (simp add: site_effect_def)
  then show ?thesis
    using custom_cert_only [of cdir req env]
    by (cases "sr_ssl_mode req") (simp_all add: configure_ssl_def configure_cloudflare_def only_ok)
qed

lemma provision_site_only:
  assumes "is_valid_domain (sr_domain req)"
  shows "only (site_effect cdir (sr_domain req)) (provision_site env req cdir)"
  unfolding provision_site_def Let_def site_conf_def [symmetric]
  by (intro only_rules create_dirs_only site_setup_only assms configure_ssl_only)
     (auto simp: site_effect_def site_paths plain_name_def)

lemma delete_site_only:
  assumes "is_valid_domain d"
  shows "only (site_effect (config_dir_of path) d) (delete_site env d path delete_files)"
  unfolding delete_site_def Let_def site_conf_def [symmetric]
  by (intro only_rules) (simp_all add: site_effect_def site_paths)

section \<open>The configuration the program reads back\<close>

text \<open>The characters of a word the site request supplies.\<close>

definition word_text :: "string \<Rightarrow> bool" where
  "word_text w \<longleftrightarrow> list_all (\<lambda>c. \<not> word_end c) w"

lemma word_text_scan:
  assumes "word_text w"
  shows "takeWhile (\<lambda>c. \<not> word_end c) (w @ s) = w @ takeWhile (\<lambda>c. \<not> word_end c) s"
    "dropWhile (\<lambda>c. \<not> word_end c) (w @ s) = dropWhile (\<lambda>c. \<not> word_end c) s"
  using assms by (simp_all add: word_text_def list_all_iff takeWhile_append2 dropWhile_append2)

lemma valid_domain_text:
  assumes "is_valid_domain d"
  shows "word_text d" "plain_word d"
proof -
  have c: "\<not> word_end c" "c \<noteq> DQUOTE" "c \<noteq> SQUOTE" if "c \<in> set d" for c
    using valid_domain_chars [OF assms that]
    by (auto simp: word_end_def is_ascii_whitespace_def is_ascii_alphanumeric_def is_ascii_digit_def ascii_code_def)
  then show "word_text d" by (simp add: word_text_def list_all_iff)
  moreover have "d \<noteq> []" using assms by (simp add: is_valid_domain_def)
  ultimately show "plain_word d" using c(2,3) hd_in_set [of d] by (auto simp: plain_word_def word_text_def)
qed

text \<open>Evaluated on character literals only, so that the scan over a symbolic word stays whole.\<close>

lemmas word_end_char = word_end_def [of "Char b0 b1 b2 b3 b4 b5 b6 b7"] for b0 b1 b2 b3 b4 b5 b6 b7

lemmas lex_simps = word_text_scan is_ascii_whitespace_def word_end_char NL_def LF_def

text \<open>The tokens of the pieces of the configuration, and of all of it.\<close>

definition name_tokens :: "site_request \<Rightarrow> token list" where
  "name_tokens req =
     [Word ''server'', OpenBrace, Word ''listen'', Word ''80'', Semicolon,
      Word ''server_name'', Word (sr_domain req), Semicolon]"

definition directive :: "string list \<Rightarrow> token list" where
  "directive ws = map Word ws @ [Semicolon]"

definition location_tokens :: "string list \<Rightarrow> string list list \<Rightarrow> token list" where
  "location_tokens args ds = map Word (''location'' # args) @ OpenBrace # concat (map directive ds) @ [CloseBrace]"

definition real_ip_tokens :: "site_request \<Rightarrow> token list" where
  "real_ip_tokens req = (if sr_cloudflare req then directive [''real_ip_header'', ''CF-Connecting-IP''] else [])"

definition php_tokens :: "string \<Rightarrow> token list" where
  "php_tokens php_socket =
     location_tokens [''~'', BACKSLASH # ''.php$'']
       [[''fastcgi_pass'', ''unix:'' @ php_socket], [''fastcgi_index'', ''index.php'']]"

definition try_tokens :: "string \<Rightarrow> token list" where
  "try_tokens last_entry = location_tokens [''/''] [[''try_files'', ''$uri'', ''$uri/'', last_entry]]"

definition proxy_tokens :: "string \<Rightarrow> token list" where
  "proxy_tokens url =
     location_tokens [''/'']
       [[''proxy_pass'', url],
        [''proxy_set_header'', ''Host'', ''$host''], [''proxy_set_header'', ''X-Real-IP'', ''$remote_addr''],
        [''proxy_set_header'', ''X-Forwarded-For'', ''$proxy_add_x_forwarded_for''],
        [''proxy_set_header'', ''X-Forwarded-Proto'', ''$scheme'']]"

fun site_tokens :: "site_type \<Rightarrow> site_request \<Rightarrow> string \<Rightarrow> string \<Rightarrow> token list" where
  "site_tokens Site_Static req webroot php_socket =
     directive [''root'', webroot] @ directive [''index'', ''index.html'', ''index.htm''] @ real_ip_tokens req
     @ try_tokens ''=404''"
| "site_tokens Site_Php req webroot php_socket =
     directive [''root'', webroot] @ directive [''index'', ''index.php'', ''index.html''] @ real_ip_tokens req
     @ try_tokens ''=404'' @ php_tokens php_socket"
| "site_tokens Site_Wordpress req webroot php_socket =
     directive [''root'', webroot] @ directive [''index'', ''index.php''] @ real_ip_tokens req
     @ try_tokens ''/index.php?$args'' @ php_tokens php_socket
     @ location_tokens [''~*'', BACKSLASH # ''.(js|css|png|jpg|jpeg|gif|ico|svg|woff2?)$''] [[''expires'', ''max'']]"
| "site_tokens Site_Proxy req webroot php_socket =
     real_ip_tokens req @ proxy_tokens (or_default ''http://127.0.0.1:8080'' (sr_upstream_url req))"

definition config_tokens :: "site_request \<Rightarrow> string \<Rightarrow> string \<Rightarrow> token list" where
  "config_tokens req webroot php_socket =
     name_tokens req @ site_tokens (sr_site_type req) req webroot php_socket @ [CloseBrace]
     @ (if sr_ssl_mode req \<noteq> Ssl_None
        then name_tokens req @ directive [''return'', ''301'', ''https://'' @ sr_domain req @ ''$request_uri''] @ [CloseBrace]
        else [])"

lemmas token_simps = directive_def location_tokens_def real_ip_tokens_def php_tokens_def try_tokens_def name_tokens_def

lemma server_open_tokens:
  assumes "is_valid_domain (sr_domain req)"
  shows "tokenize (server_open req @ s) = name_tokens req @ tokenize s"
  using tokenize_plain [OF valid_domain_text(2) [OF assms], of "'';'' @ NL @ s"]
  by (simp add: server_open_def lex_simps token_simps)

lemma root_and_index_tokens:
  assumes "is_valid_domain d"
  shows "tokenize (root_and_index (site_webroot d) ''index.html index.htm'' @ s)
      = directive [''root'', site_webroot d] @ directive [''index'', ''index.html'', ''index.htm''] @ tokenize s"
    "tokenize (root_and_index (site_webroot d) ''index.php index.html'' @ s)
      = directive [''root'', site_webroot d] @ directive [''index'', ''index.php'', ''index.html''] @ tokenize s"
    "tokenize (root_and_index (site_webroot d) ''index.php'' @ s)
      = directive [''root'', site_webroot d] @ directive [''index'', ''index.php''] @ tokenize s"
  using valid_domain_text(1) [OF assms]
  by (simp_all add: root_and_index_def site_webroot_parent(2) [OF assms] lex_simps token_simps)

lemma real_ip_line_tokens: "tokenize (real_ip_line req @ s) = real_ip_tokens req @ tokenize s"
  by (simp add: real_ip_line_def lex_simps token_simps)

lemma php_block_tokens:
  assumes "word_text socket"
  shows "tokenize (php_block socket @ s) = php_tokens socket @ tokenize s"
  using assms by (simp add: php_block_def lex_simps token_simps)

lemma try_block_tokens:
  "tokenize (try_files_block ''=404'' @ s) = try_tokens ''=404'' @ tokenize s"
  "tokenize (try_files_block ''/index.php?$args'' @ s) = try_tokens ''/index.php?$args'' @ tokenize s"
  by (simp_all add: try_files_block_def lex_simps token_simps)

lemma proxy_block_tokens:
  assumes "word_text url" "url \<noteq> []" "hd url \<noteq> DQUOTE" "hd url \<noteq> SQUOTE"
  shows "tokenize (proxy_block url @ s) = proxy_tokens url @ tokenize s"
  using tokenize_plain [of url "'';'' @ t" for t] assms
  by (simp add: plain_word_def word_text_def proxy_block_def proxy_tokens_def lex_simps token_simps)

lemma static_block_tokens:
  "tokenize (static_block (BACKSLASH # ''.(js|css|png|jpg|jpeg|gif|ico|svg|woff2?)$'') @ s)
   = location_tokens [''~*'', BACKSLASH # ''.(js|css|png|jpg|jpeg|gif|ico|svg|woff2?)$''] [[''expires'', ''max'']]
     @ tokenize s"
  by (simp add: static_block_def lex_simps token_simps)

lemma close_tokens: "tokenize (CHR ''}'' # NL @ s) = CloseBrace # tokenize s"
  by (simp add: lex_simps)

lemma http_site_tokens:
  assumes "is_valid_domain (sr_domain req)" "word_text socket"
    and "case sr_upstream_url req of None \<Rightarrow> True | Some url \<Rightarrow> site_upstream_ok url \<and> word_text url"
  shows "tokenize (http_site_block t req (site_webroot (sr_domain req)) socket @ s)
    = name_tokens req @ site_tokens t req (site_webroot (sr_domain req)) socket @ CloseBrace # tokenize s"
proof -
  let ?u = "or_default ''http://127.0.0.1:8080'' (sr_upstream_url req)"
  have u: "word_text ?u" "?u \<noteq> []" "hd ?u \<noteq> DQUOTE" "hd ?u \<noteq> SQUOTE"
    using assms(3)
    by (auto simp: or_default_def site_upstream_ok_def starts_with_iff word_text_def word_end_def
        is_ascii_whitespace_def split: option.splits)
  note pieces = server_open_tokens [OF assms(1)] root_and_index_tokens [OF assms(1)] real_ip_line_tokens
    php_block_tokens [OF assms(2)] try_block_tokens static_block_tokens proxy_block_tokens [OF u]
    close_tokens
  show ?thesis by (cases t) (simp_all add: pieces del: tokenize.simps)
qed

lemma return_tokens:
  assumes "is_valid_domain d"
  shows "tokenize (''    return 301 https://'' @ d @ ''$request_uri;'' @ NL @ ''}'' @ NL)
    = directive [''return'', ''301'', ''https://'' @ d @ ''$request_uri''] @ [CloseBrace]"
  using valid_domain_text(1) [OF assms] by (simp add: lex_simps token_simps)

text \<open>What an accepted request leaves open: a tab or a form feed in the upstream address, which the
  validation lets through, and the name of the PHP socket found on the host.\<close>

definition clean_request :: "site_request \<Rightarrow> string \<Rightarrow> bool" where
  "clean_request req php_socket \<longleftrightarrow>
     site_request_error req = None \<and> word_text php_socket \<and> word_text (or_default [] (sr_upstream_url req))"

lemma clean_requestD:
  assumes "clean_request req php_socket"
  shows "is_valid_domain (sr_domain req)" "word_text php_socket"
    "case sr_upstream_url req of None \<Rightarrow> True | Some url \<Rightarrow> site_upstream_ok url \<and> word_text url"
  using assms by (auto simp: clean_request_def site_request_error_def or_default_def split: if_splits option.splits)

lemma generate_config_tokens:
  assumes "clean_request req php_socket"
  shows "tokenize (generate_config req (site_webroot (sr_domain req)) php_socket)
    = config_tokens req (site_webroot (sr_domain req)) php_socket"
proof -
  note d = clean_requestD [OF assms]
  have nl: "tokenize (NL @ s) = tokenize s" for s by (simp add: lex_simps)
  have nil: "tokenize (http_site_block t req (site_webroot (sr_domain req)) php_socket)
    = name_tokens req @ site_tokens t req (site_webroot (sr_domain req)) php_socket @ [CloseBrace]" for t
    using http_site_tokens [OF d, of t "[]"] by simp
  show ?thesis
    using return_tokens [OF d(1)]
    by (simp add: generate_config_def config_tokens_def Let_def nil http_site_tokens [OF d] nl
        server_open_tokens [OF d(1)] del: tokenize.simps(2))
qed

text \<open>The servers a static site stands for.\<close>

definition listen_80 :: listen_directive where
  "listen_80 = \<lparr>ld_addr = any_v4 80, ld_tls = False, ld_http2 = False, ld_default_server = False\<rparr>"

definition static_site_location :: location_block where
  "static_site_location = location_of_state (Prefix ''/'')
     (empty_loc_state\<lparr>ls_try_files := Some [TF_Path ''$uri'', TF_Path ''$uri/'', TF_StatusCode 404]\<rparr>)"

definition static_site_server :: "string \<Rightarrow> server_block" where
  "static_site_server d =
     empty_server\<lparr>srv_listen := [listen_80], srv_server_names := [Exact_Name d], srv_root := Some (site_webroot d),
        srv_locations := [static_site_location]\<rparr>"

definition redirect_server :: "string \<Rightarrow> server_block" where
  "redirect_server d =
     empty_server\<lparr>srv_listen := [listen_80], srv_server_names := [Exact_Name d],
        srv_return_directive := Some \<lparr>rd_status = 301, rd_body = Url_Body (''https://'' @ d @ ''$request_uri'')\<rparr>\<rparr>"

definition static_site_servers :: "site_request \<Rightarrow> server_block list" where
  "static_site_servers req =
     static_site_server (sr_domain req)
     # (if sr_ssl_mode req \<noteq> Ssl_None then [redirect_server (sr_domain req)] else [])"

lemma webroot_canonical:
  assumes "is_valid_domain d"
  shows "canonicalize_root (site_webroot d) = Inr (site_webroot d)"
proof -
  have "CHR 0x00 \<notin> set d"
    by (rule valid_domain_not [OF assms]) (simp_all add: is_ascii_alphanumeric_def is_ascii_digit_def ascii_code_def)
  moreover have "split_on (CHR ''/'') (site_webroot d) = [[], ''var'', ''www'', d, ''public'']"
    using split_on_append [of "CHR ''/''" d "''public''"] valid_domain_name(1) [OF assms]
    by (simp add: site_webroot_parent(2) [OF assms] plain_name_def)
  ultimately show ?thesis
    using valid_domain_name(3) [OF assms]
    by (simp add: canonicalize_root_def has_parent_dir_def) (simp add: site_webroot_parent(2) [OF assms])
qed

lemma domain_server_name:
  assumes "is_valid_domain d"
  shows "parse_server_name d = Exact_Name d"
proof -
  have "CHR ''*'' \<notin> set d" "CHR ''_'' \<notin> set d"
    by (rule valid_domain_not [OF assms]; simp add: is_ascii_alphanumeric_def is_ascii_digit_def ascii_code_def)+
  then show ?thesis
    using valid_domain_name(5) [OF assms] valid_domain_name(1) [OF assms]
    by (auto simp: parse_server_name_def starts_with_iff plain_name_def)
qed

lemma port_80: "parse_listen_addr ''80'' = Inr (any_v4 80)"
  by (simp add: parse_listen_addr_def parse_socket_addr_def net_eval read_socket_addr_v6_def
      parse_uint_def dec_value_def digit_val_def is_ascii_digit_def ascii_code_def)

lemma listen_80_parses: "parse_listen (Word ''80'' # Semicolon # ts) = Inr (listen_80, ts)"
  by (simp add: parse_listen_def expect_semi_def listen_arg_def port_80 listen_80_def)

lemma uint_codes: "parse_uint 16 ''404'' = Some 404" "parse_uint 16 ''301'' = Some 301"
  by (simp_all add: parse_uint_def dec_value_def digit_val_def is_ascii_digit_def ascii_code_def)

lemma try_location_parses:
  "parse_location env (Word ''/'' # OpenBrace # Word ''try_files'' # Word ''$uri'' # Word ''$uri/'' # Word ''=404''
     # Semicolon # CloseBrace # ts) = Inr (static_site_location, ts)"
  by (simp add: parse_eval parse_try_files_def parse_try_files_entry_def strip_prefix_def uint_codes
      static_site_location_def)

lemma static_server_parses:
  assumes "is_valid_domain d"
  shows "parse_server_block env ([Word ''listen'', Word ''80'', Semicolon, Word ''server_name'', Word d, Semicolon]
     @ directive [''root'', site_webroot d] @ directive [''index'', ''index.html'', ''index.htm'']
     @ real_ip_tokens req @ try_tokens ''=404'' @ CloseBrace # ts)
   = Inr (static_site_server d, ts)"
  using webroot_canonical [OF assms]
  by (simp add: token_simps server_loop.simps [of _ "_ # _"] server_directive_def https_directive_def one_word_def args_semi_def
      expect_word_def expect_semi_def parse_server_block_def Let_def on_srv_def skip_unknown_def
      listen_80_parses domain_server_name [OF assms] try_location_parses static_site_server_def
      empty_server_def MAX_LOCATION_BLOCKS_def)

lemma redirect_server_parses:
  assumes "is_valid_domain d"
  shows "parse_server_block env ([Word ''listen'', Word ''80'', Semicolon, Word ''server_name'', Word d, Semicolon]
     @ directive [''return'', ''301'', ''https://'' @ d @ ''$request_uri''] @ CloseBrace # ts)
   = Inr (redirect_server d, ts)"
  by (simp add: token_simps server_loop.simps [of _ "_ # _"] server_directive_def https_directive_def args_semi_def
      expect_word_def expect_semi_def parse_server_block_def Let_def on_srv_def parse_return_def peek_word_def ok_or_def
      listen_80_parses domain_server_name [OF assms] uint_codes redirect_server_def empty_server_def)

lemma include_server:
  assumes "hs_server_count st < MAX_SERVER_BLOCKS" "parse_server_block env body = Inr (srv, rest)"
  shows "include_servers env (Word ''server'' # OpenBrace # body) st = include_servers env rest (push_server srv st)"
  by (subst include_servers.simps) (simp add: assms)

definition demo_site_request :: site_request where
  "demo_site_request =
     \<lparr>sr_domain = ''a.be'', sr_site_type = Site_Static, sr_php_version = None, sr_upstream_url = None,
      sr_db_host = None, sr_db_port = None, sr_db_root_user = None, sr_db_root_pass = None, sr_db_name = None,
      sr_db_user = None, sr_db_pass = None, sr_ssl_mode = Ssl_Custom, sr_ssl_email = None, sr_ssl_cert = None,
      sr_ssl_key = None, sr_cloudflare = True\<rparr>"

lemma demo_site_clean: "clean_request demo_site_request ''/s''"
  by (simp add: clean_request_def site_request_error_def demo_site_request_def is_valid_domain_def word_text_def
      word_end_def is_ascii_whitespace_def or_default_def is_ascii_alphanumeric_def is_ascii_digit_def
      ascii_code_def starts_with_def ends_with_def)

section \<open>Properties\<close>


text \<open>For every accepted request (whose upstream address holds no tab or form feed, and with a
  plain PHP socket name), the tokenizer reads the configuration written as exactly the directives
  meant: no part of the request adds, ends or opens a directive or a block.\<close>

theorem site_config_exact:
  assumes "clean_request req php_socket"
  shows "tokenize (generate_config req (site_webroot (sr_domain req)) php_socket)
    = config_tokens req (site_webroot (sr_domain req)) php_socket"
  by (rule generate_config_tokens [OF assms])

theorem site_config_exact_witness:
  "tokenize (generate_config demo_site_request (site_webroot (sr_domain demo_site_request)) ''/s'')
   = config_tokens demo_site_request (site_webroot (sr_domain demo_site_request)) ''/s''"
  by (rule site_config_exact [OF demo_site_clean])

text \<open>C23: the file of a static site, included in an http block with room left, adds the server of the
  site, with its name, its web root and its one location, and for a site with a certificate the
  redirecting server after it; the router then always takes the first of the two, so the redirect is
  never served.\<close>

theorem static_site_loads:
  assumes "clean_request req php_socket" "sr_site_type req = Site_Static"
    and "hs_server_count st + 2 \<le> MAX_SERVER_BLOCKS"
  shows "include_servers env (tokenize (generate_config req (site_webroot (sr_domain req)) php_socket)) st
      = Inr (fold push_server (static_site_servers req) st)
    \<and> select_server (static_site_servers req) host = Some (static_site_server (sr_domain req))"
proof -
  note d = clean_requestD(1) [OF assms(1)]
  have count: "hs_server_count (push_server srv st) = hs_server_count st + 1" for srv
    by (simp add: push_server_def)
  have st: "include_servers env (name_tokens req @ site_tokens Site_Static req (site_webroot (sr_domain req)) php_socket @ CloseBrace # ts) st
      = include_servers env ts (push_server (static_site_server (sr_domain req)) st)" for ts
    using include_server [OF _ static_server_parses [OF d, of env req ts]] assms(3) by (simp add: name_tokens_def)
  have red: "include_servers env (name_tokens req @ directive [''return'', ''301'', ''https://'' @ sr_domain req @ ''$request_uri'']
        @ [CloseBrace]) (push_server srv st) = Inr (push_server (redirect_server (sr_domain req)) (push_server srv st))" for srv
    using include_server [OF _ redirect_server_parses [OF d, of env "[]"]] assms(3) count
    by (simp add: name_tokens_def include_servers.simps [of env "[]"])
  have loads: "include_servers env (tokenize (generate_config req (site_webroot (sr_domain req)) php_socket)) st
      = Inr (fold push_server (static_site_servers req) st)"
    unfolding generate_config_tokens [OF assms(1)] config_tokens_def
    using st red assms(2) by (simp add: static_site_servers_def include_servers.simps [of env "[]"])
  have "select_server (static_site_servers req) host = Some (static_site_server (sr_domain req))"
    by (simp add: select_server_def first_with_def static_site_servers_def static_site_server_def
        redirect_server_def nth_opt_def Let_def)
  with loads show ?thesis by simp
qed

theorem static_site_loads_witness:
  "include_servers demo_env (tokenize (generate_config demo_site_request (site_webroot (sr_domain demo_site_request)) ''/s''))
      \<lparr>hs_http = default_http_block, hs_server_count = 254\<rparr>
    = Inr (fold push_server (static_site_servers demo_site_request) \<lparr>hs_http = default_http_block, hs_server_count = 254\<rparr>)
   \<and> select_server (static_site_servers demo_site_request) ''A.be:80'' = Some (static_site_server (sr_domain demo_site_request))"
  by (rule static_site_loads [OF demo_site_clean]) (simp_all add: demo_site_request_def MAX_SERVER_BLOCKS_def)

section \<open>What the validation misses\<close>

text \<open>The password reaches the SQL text as it came: a quote in it ends the literal, and the escaped
  copy the code makes is not used.\<close>

lemma mysql_password_unescaped:
  "\<exists>pre post. \<forall>p. mysql_statements db_name db_user p = pre @ (''IDENTIFIED BY '' @ SQ @ p @ SQ) @ post"
proof -
  have "mysql_statements db_name db_user p =
      (''CREATE DATABASE IF NOT EXISTS `'' @ db_name @ ''`; '' @ ''CREATE USER IF NOT EXISTS '' @ SQ @ db_user @ SQ @ ''@'' @ SQ
        @ ''localhost'' @ SQ @ '' '') @ (''IDENTIFIED BY '' @ SQ @ p @ SQ)
      @ (''; '' @ ''GRANT ALL PRIVILEGES ON `'' @ db_name @ ''`.* TO '' @ SQ @ db_user @ SQ @ ''@'' @ SQ
        @ ''localhost'' @ SQ @ ''; '' @ ''FLUSH PRIVILEGES;'')" for p
    by (simp only: mysql_statements_def append_assoc append_Cons append_Nil)
  then show ?thesis by blast
qed

text \<open>A tab passes the check of the upstream address, and the location it is written to is then refused.\<close>

lemma upstream_tab_accepted:
  "site_upstream_ok (''http://a'' @ [CHR 0x09] @ ''b'')
   \<and> parse_location env (tokenize (drop (length ''location'') (proxy_block (''http://a'' @ [CHR 0x09] @ ''b'')))) = Inl Expected_Semi"
  by (simp add: site_upstream_ok_def starts_with_def LF_def CR_def proxy_block_def lex_simps parse_eval)

end
