(* ===== verification/Service_Props.thy ===== *)
theory Service_Props
  imports Handler_Props Site_Props
begin

text \<open>
  What a client gets from the handler: the framing of a response, the guards before a protected
  location, the whole path of a request to static files, and the places where the composition of
  the components goes wrong.
\<close>

section \<open>Framing\<close>

definition response_lines :: "nat \<Rightarrow> (string \<times> string) list \<Rightarrow> bool \<Rightarrow> string list" where
  "response_lines status headers ka =
     (''HTTP/1.1 '' @ show_nat status @ '' '' @ status_reason status)
     # (''Server: RunNginx/'' @ PKG_VERSION) # map header_line headers
     @ [if ka then ''Connection: keep-alive'' else ''Connection: close'']"

lemma format_response_lines:
  "format_response status headers ka body = join_crlf (response_lines status headers ka) @ CRLF @ CRLF @ body"
proof -
  have snoc: "concat (map (\<lambda>kv. header_line kv @ CRLF) hs) @ c = join_crlf (map header_line hs @ [c])" for hs c
  proof (induction hs)
    case Nil
    then show ?case by simp
  next
    case (Cons h hs)
    have "join_crlf (header_line h # map header_line hs @ [c]) = header_line h @ CRLF @ join_crlf (map header_line hs @ [c])"
      by (cases hs) simp_all
    then show ?case using Cons by simp
  qed
  show ?thesis
    using snoc [of headers "if ka then ''Connection: keep-alive'' else ''Connection: close''"]
    by (cases headers) (simp_all add: format_response_def response_lines_def)
qed

lemma status_reason_clean: "clean (status_reason c)" "status_reason c \<noteq> []"
proof -
  have "list_all (\<lambda>(k, v). clean v \<and> v \<noteq> []) status_table"
    by (simp add: status_table_def clean_def CR_def LF_def)
  then show "clean (status_reason c)" "status_reason c \<noteq> []"
    using map_of_SomeD [of status_table c]
    by (auto simp: status_reason_def list_all_iff clean_def CR_def LF_def split: option.splits)
qed

lemma response_lines_good:
  assumes "clean_headers headers"
  shows "list_all good_line (response_lines status headers ka)"
proof -
  have line: "good_line l" if "clean l" "l \<noteq> []" for l using that by (simp add: good_line_def clean_def)
  have "list_all good_line (map header_line headers)"
    using assms header_line_good by (auto simp: list_all_iff clean_headers_def)
  moreover have "good_line (''HTTP/1.1 '' @ show_nat status @ '' '' @ status_reason status)"
    "good_line (''Server: RunNginx/'' @ PKG_VERSION)"
    "good_line (if ka then ''Connection: keep-alive'' else ''Connection: close'')"
    by (intro line; simp add: status_reason_clean CR_def LF_def PKG_VERSION_def clean_def [of "[]"])+
  ultimately show ?thesis by (simp add: response_lines_def)
qed

section \<open>Plain static sites\<close>

definition plain_location :: "location_block \<Rightarrow> bool" where
  "plain_location loc \<longleftrightarrow>
     loc_handler loc = Static \<and> loc_rewrites loc = [] \<and> loc_auth_basic loc = None \<and> loc_limit_req loc = None
     \<and> loc_return_directive loc = None \<and> loc_client_max_body_size loc = None \<and> loc_gzip loc = None"

definition plain_server :: "server_block \<Rightarrow> bool" where
  "plain_server s \<longleftrightarrow>
     \<not> srv_ssl_redirect s \<and> srv_rewrites s = [] \<and> srv_auth_basic s = None \<and> srv_limit_req s = None
     \<and> srv_return_directive s = None \<and> srv_client_max_body_size s = None \<and> list_all plain_location (srv_locations s)"

definition plain_http :: "http_block \<Rightarrow> bool" where
  "plain_http h \<longleftrightarrow> http_servers h \<noteq> [] \<and> list_all plain_server (http_servers h) \<and> \<not> http_gzip h \<and> \<not> http_brotli h"

text \<open>A path that none of the APIs claims.\<close>

definition site_path :: "string \<Rightarrow> bool" where
  "site_path p \<longleftrightarrow>
     \<not> starts_with p challenge_prefix \<and> \<not> starts_with p ''/api/''
     \<and> p \<notin> set [''/health'', ''/metrics'', ''/login'', ''/logout'', ''/ui'', ''/ui/'']"

lemma selected_server:
  assumes "plain_http h"
  shows "\<exists>s. select_server (http_servers h) host = Some s \<and> plain_server s"
proof -
  have "http_servers h \<noteq> []" using assms by (simp add: plain_http_def)
  then obtain s where "select_server (http_servers h) host = Some s" "s \<in> set (http_servers h)"
    using select_server_first_max [of "http_servers h" host] by (auto dest: first_max_mem)
  then show ?thesis using assms by (auto simp: plain_http_def list_all_iff)
qed

lemma selected_location:
  assumes "plain_server s"
  shows "select_location rx s path = None \<or> (\<exists>l. select_location rx s path = Some l \<and> plain_location l)"
  using select_location_matches(1) [of rx s path] assms
  by (cases "select_location rx s path") (auto simp: plain_server_def list_all_iff)

lemma site_path_no_api:
  assumes "site_path p"
  shows "handle_user_api env js r1 r2 p m body key adm reg = (None, reg)"
    and "handle_api aenv p q m hs body ip a = (None, a)"
proof -
  have "\<not> starts_with p ''/api/users''" "\<not> starts_with p ''/api/sites/''" "p \<noteq> ''/api/sites''" "p \<noteq> ''/api/php/versions''"
    using assms by (auto simp: site_path_def starts_with_iff)
  then show "handle_user_api env js r1 r2 p m body key adm reg = (None, reg)" "handle_api aenv p q m hs body ip a = (None, a)"
    using assms by (simp_all add: handle_user_api_def handle_api_def site_path_def)
qed

definition static_result ::
    "'c handler_env \<Rightarrow> server_block \<Rightarrow> location_block option \<Rightarrow> parsed_request \<Rightarrow> bool \<Rightarrow> bool \<Rightarrow> 'c handler_result" where
  "static_result env server location rq ka is_tls =
     (let resp = serve_static_page env server location rq
      in \<lparr>hr_bytes = format_response (sr_status resp) (sr_headers resp @ added_headers server location is_tls) ka (sr_body resp),
          hr_keep_alive = ka, hr_status = sr_status resp, hr_tunnel = None\<rparr>)"

lemma plain_dispatch_location:
  assumes "plain_server server" "location = None \<or> (\<exists>l. location = Some l \<and> plain_location l)"
    and "\<not> http_gzip (hv_http env)" "\<not> http_brotli (hv_http env)"
    and "pr_content_len rq \<le> http_client_max_body_size (hv_http env)"
  shows "fst (dispatch_location env server location rq body ka is_tls peer st) = static_result env server location rq ka is_tls"
proof -
  have none: "loc_or location loc_auth_basic (srv_auth_basic server) = None"
    "loc_or location loc_limit_req (srv_limit_req server) = None"
    "loc_or location loc_client_max_body_size (srv_client_max_body_size server) = None"
    "loc_or location loc_return_directive (srv_return_directive server) = None"
    using assms(1,2) by (auto simp: loc_or_def plain_server_def plain_location_def)
  have "check_location env server location rq ka peer st = (None, st)"
    using assms(5) by (simp add: check_location_def check_auth_def check_rate_def body_limit_def none)
  moreover have "run_handler env server location rq body ka peer st = (Inr (serve_static_page env server location rq), st)"
    using assms(2) by (auto simp: run_handler_def plain_location_def)
  moreover have "compress_body env location rq resp = (sr_body resp, None)" for resp
    using assms(2-4) by (auto simp: compress_body_def maybe_compress_def maybe_brotli_def plain_location_def)
  ultimately show ?thesis
    by (simp add: dispatch_location_def send_response_def static_result_def coding_headers_def Let_def split_beta)
qed

lemma plain_dispatch_server:
  assumes "plain_http (hv_http env)" "pr_content_len (in_request inc) \<le> http_client_max_body_size (hv_http env)"
  shows "\<exists>server. select_server (http_servers (hv_http env)) (pr_host (in_request inc)) = Some server
    \<and> fst (dispatch_server env inc is_tls peer st)
      = static_result env server (select_location (hv_regex env) server (pr_path (in_request inc))) (in_request inc) (in_keep_alive inc) is_tls"
proof -
  obtain server where s: "select_server (http_servers (hv_http env)) (pr_host (in_request inc)) = Some server" "plain_server server"
    using selected_server [OF assms(1)] by blast
  note loc = selected_location [OF s(2), of "hv_regex env" "pr_path (in_request inc)"]
  have "(case select_location (hv_regex env) server (pr_path (in_request inc)) of None \<Rightarrow> [] | Some l \<Rightarrow> loc_rewrites l) = []"
    using loc by (auto simp: plain_location_def)
  moreover have "\<not> srv_ssl_redirect server" "srv_rewrites server = []" using s(2) by (simp_all add: plain_server_def)
  ultimately have "dispatch_server env inc is_tls peer st
      = dispatch_location env server (select_location (hv_regex env) server (pr_path (in_request inc))) (in_request inc)
          (in_body inc) (in_keep_alive inc) is_tls peer st"
    by (simp add: dispatch_server_def s(1) rewrite_request_def Let_def)
  then show ?thesis
    using plain_dispatch_location [OF s(2) loc] assms by (auto simp: plain_http_def s(1))
qed

section \<open>A request and a service to evaluate\<close>

definition demo_raw :: string where
  "demo_raw = ''GET / HTTP/1.1'' @ CRLF @ ''Host: a.be'' @ CRLF @ CRLF"

definition demo_http :: http_block where
  "demo_http = default_http_block\<lparr>http_servers := [static_site_server ''a.be''], http_client_max_body_size := 100\<rparr>"

definition demo_handler :: "nat handler_env" where
  "demo_handler =
     \<lparr>hv_http = demo_http, hv_api = demo_api, hv_users = demo_mu_env [], hv_user_id = None, hv_user_key = None,
      hv_memchr = memchr_ref, hv_simd = Scalar, hv_regex = (\<lambda>r s. False),
      hv_rewrite = \<lparr>rx_ok = (\<lambda>r. True), rx_is_match = (\<lambda>r s. False), rx_replace = (\<lambda>r s t. s)\<rparr>,
      hv_rnd = Finite, hv_rnd32 = Finite, hv_now = 0, hv_now_secs = 0, hv_micros = 5,
      hv_fs = demo_fs ''hello'', hv_bcrypt = (\<lambda>p h. False), hv_user_file = (\<lambda>f. None),
      hv_connect = (\<lambda>a. Inl ''refused''), hv_exchange = (\<lambda>c r. Inl ''closed''), hv_peer_connect = (\<lambda>a. Connect_Failed),
      hv_url_parse = (\<lambda>u. None), hv_fcgi = (\<lambda>u. Inl Connect_Timeout), hv_param_order = (\<lambda>ps. ps),
      hv_cache_order = (\<lambda>es. es), hv_gzip = (\<lambda>s. None), hv_brotli = None\<rparr>"

definition demo_state :: "nat handler_state" where
  "demo_state = start_state (demo_mu_env []) None (default_config demo_env)"

definition demo_peer :: socket_addr where
  "demo_peer = \<lparr>sa_ip = V4 1, sa_port = 1000\<rparr>"

lemma demo_raw_line:
  "parse_request_line memchr_ref Scalar demo_raw = Inr (\<lparr>rl_method = ''GET'', rl_uri = ''/'', rl_version = ''HTTP/1.1''\<rparr>, 16)"
  by code_simp

lemma demo_raw_headers:
  "parse_headers memchr_ref Scalar (drop 16 demo_raw) = Inr ([\<lparr>hd_name = ''Host'', hd_value = ''a.be''\<rparr>], 14)"
proof -
  let ?hs = "[\<lparr>hd_name = ''Host'', hd_value = ''a.be''\<rparr>]"
  have "drop 16 demo_raw = concat (map render_header ?hs) @ CRLF @ []"
    by (simp add: demo_raw_def render_header_def)
  moreover have "list_all clean_header ?hs" "headers_within ?hs"
    "length (concat (map render_header ?hs) @ CRLF @ []) \<le> MAX_HEADER_BUFFER"
    by (simp_all add: clean_header_def trimmed_def is_blank_def CR_def headers_within_def header_within_def
        header_cost_def limit_defs render_header_def)
  ultimately show ?thesis
    unfolding parse_headers_def
    using dispatched_finder.headers_with_complete [OF memchr_ref_ok, of ?hs "[]" Scalar] by (simp add: header_cost_def)
qed

lemma demo_read:
  "read_request demo_handler demo_raw = Inr
     \<lparr>in_request = \<lparr>pr_method = ''GET'', pr_path = ''/'', pr_query = [], pr_version_1_0 = False,
        pr_headers = [(''Host'', ''a.be'')], pr_host = ''a.be'', pr_content_len = 0\<rparr>,
      in_full_uri = ''/'', in_body = [], in_keep_alive = True\<rparr>"
proof -
  have "is_uri_safe ''/''" "from_utf8_lossy ''/'' = ''/''" "from_utf8_lossy ''GET'' = ''GET''"
    "from_utf8_lossy ''Host'' = ''Host''" "from_utf8_lossy ''a.be'' = ''a.be''" "split_uri ''/'' = (''/'', [])"
    "get_header [(''Host'', ''a.be'')] ''host'' = Some ''a.be''" "get_header [(''Host'', ''a.be'')] ''content-length'' = None"
    "get_header [(''Host'', ''a.be'')] ''connection'' = None"
    by code_simp+
  then show ?thesis
    by (simp add: read_request_def demo_handler_def demo_raw_line demo_raw_headers lossy_header_def content_length_of_def
        keeps_alive_def str_or_def Let_def)
qed

section \<open>Requests for a site\<close>

text \<open>A request that no guard before the server selection answers.\<close>

definition site_request_ok :: "'c handler_env \<Rightarrow> string \<Rightarrow> socket_addr \<Rightarrow> 'c handler_state \<Rightarrow> incoming \<Rightarrow> bool" where
  "site_request_ok env raw peer st inc \<longleftrightarrow>
     \<not> is_blocked (hv_now env) (hc_scan st) (sa_ip peer) \<and> read_request env raw = Inr inc
     \<and> \<not> ca_enabled (hc_cache st) \<and> site_path (pr_path (in_request inc))"

lemma challenge_site_path: "site_path (pr_path rq) \<Longrightarrow> serve_challenge rq st = None"
  by (simp add: serve_challenge_def site_path_def strip_prefix_None [THEN iffD2])

lemma dispatch_site_path:
  assumes "site_request_ok env raw peer st inc"
  shows "dispatch env raw peer is_tls st = dispatch_server env inc is_tls peer st"
proof -
  have path: "site_path (pr_path (in_request inc))" using assms by (simp add: site_request_ok_def)
  note none = site_path_no_api [OF path]
  have "serve_cached env inc n st = (None, st)" for n
    using assms by (simp add: serve_cached_def site_request_ok_def cache_get_def Let_def)
  moreover have "serve_user_api env inc peer st = (None, st)" "serve_api env inc peer st = (None, st)"
    by (simp_all add: serve_user_api_def serve_api_def none Let_def)
  ultimately show ?thesis
    using assms by (simp add: dispatch_def dispatch_request_def site_request_ok_def challenge_site_path)
qed

lemma handle_site_path:
  fixes st :: "'c handler_state"
  assumes "site_request_ok env raw peer st inc"
  shows "\<exists>s s'. fst (handle env raw peer is_tls st) = fst (dispatch_server env inc is_tls peer (st\<lparr>hc_stats := s\<rparr>))
    \<and> snd (handle env raw peer is_tls st)
      = (snd (dispatch_server env inc is_tls peer (st\<lparr>hc_stats := s\<rparr>)))\<lparr>hc_stats := s'\<rparr>"
proof -
  define s where "s = (hc_stats st)\<lparr>st_active := fetch_add (st_active (hc_stats st)) 1\<rparr>"
  have "site_request_ok env raw peer (st\<lparr>hc_stats := s\<rparr>) inc" using assms by (simp add: site_request_ok_def)
  note d = dispatch_site_path [OF this]
  show ?thesis
    unfolding handle_def Let_def split_beta s_def [symmetric] d by (rule exI [of _ s]) auto
qed

text \<open>Servers that all ask for the same credentials, whatever their locations do.\<close>

definition guarded_server :: "auth_basic_config \<Rightarrow> server_block \<Rightarrow> bool" where
  "guarded_server ab s \<longleftrightarrow>
     \<not> srv_ssl_redirect s \<and> srv_rewrites s = [] \<and> srv_auth_basic s = Some ab
     \<and> list_all (\<lambda>l. loc_rewrites l = [] \<and> (loc_auth_basic l = None \<or> loc_auth_basic l = Some ab)) (srv_locations s)"

lemma guarded_dispatch:
  assumes "http_servers (hv_http env) \<noteq> []" "list_all (guarded_server ab) (http_servers (hv_http env))"
    and "\<not> basic_auth_ok env ab (in_request inc)"
  shows "\<exists>l. dispatch_server env inc is_tls peer st =
     (\<lparr>hr_bytes = unauthorized_response (ab_realm ab), hr_keep_alive = in_keep_alive inc, hr_status = 401, hr_tunnel = None\<rparr>,
      st\<lparr>hc_log := l\<rparr>)"
proof -
  let ?rq = "in_request inc"
  obtain s where s: "select_server (http_servers (hv_http env)) (pr_host ?rq) = Some s" "guarded_server ab s"
    using assms(1,2) select_server_first_max [of "http_servers (hv_http env)" "pr_host ?rq"]
    by (auto simp: list_all_iff dest: first_max_mem)
  define loc where "loc = select_location (hv_regex env) s (pr_path ?rq)"
  have l: "(case loc of None \<Rightarrow> [] | Some l \<Rightarrow> loc_rewrites l) = []" "loc_or loc loc_auth_basic (srv_auth_basic s) = Some ab"
    using s(2) select_location_matches(1) [of "hv_regex env" s "pr_path ?rq"]
    by (fastforce simp: loc_def loc_or_def guarded_server_def list_all_iff split: option.splits)+
  have "\<not> srv_ssl_redirect s" "srv_rewrites s = []" using s(2) by (simp_all add: guarded_server_def)
  then show ?thesis
    using assms(3) l
    by (simp add: dispatch_server_def s(1) rewrite_request_def Let_def loc_def [symmetric] dispatch_location_def
        check_location_def check_auth_def log_to_def) blast
qed

section \<open>Properties\<close>

text \<open>C15: a response with clean header fields frames its body: the first empty line of its bytes stands
  right before the body, and the lines of the head are the status line with the reason of the status,
  the server, the header fields in order and the connection option, so that no field can be split
  into two.\<close>

theorem response_framing:
  assumes "clean_headers headers"
  shows "\<exists>n. find_double_crlf (format_response status headers ka body) = Some n
    \<and> drop (n + 4) (format_response status headers ka body) = body
    \<and> str_lines (take n (format_response status headers ka body)) = response_lines status headers ka"
proof -
  note good = response_lines_good [OF assms, of status ka]
  have "response_lines status headers ka \<noteq> []" by (simp add: response_lines_def)
  then show ?thesis
    using find_header_end [OF good, of body] str_lines_join [OF good] by (simp add: format_response_lines)
qed

theorem response_framing_witness:
  "\<exists>n. find_double_crlf (format_response 404 [(''Content-Length'', ''2'')] True ''no'') = Some n
    \<and> drop (n + 4) (format_response 404 [(''Content-Length'', ''2'')] True ''no'') = ''no''
    \<and> str_lines (take n (format_response 404 [(''Content-Length'', ''2'')] True ''no''))
      = response_lines 404 [(''Content-Length'', ''2'')] True"
  by (rule response_framing) (simp add: clean_headers_def clean_def CR_def LF_def)

text \<open>C4: for a service whose servers and locations only serve files, a request that parses, comes from a
  client who is not blocked, names no path of the APIs and announces a body within the limit is
  answered, through every guard of the handler, with exactly the file response of the server selected
  by its host and the location selected by its path, with their added header fields, and nothing
  else.\<close>

theorem plain_static_service:
  assumes "plain_http (hv_http env)" and "site_request_ok env raw peer st inc"
    and "pr_content_len (in_request inc) \<le> http_client_max_body_size (hv_http env)"
  shows "\<exists>server. select_server (http_servers (hv_http env)) (pr_host (in_request inc)) = Some server
    \<and> fst (handle env raw peer is_tls st)
      = static_result env server (select_location (hv_regex env) server (pr_path (in_request inc)))
          (in_request inc) (in_keep_alive inc) is_tls"
proof -
  obtain s where s: "fst (handle env raw peer is_tls st) = fst (dispatch_server env inc is_tls peer (st\<lparr>hc_stats := s\<rparr>))"
    using handle_site_path [OF assms(2)] by blast
  show ?thesis
    unfolding s by (rule plain_dispatch_server [OF assms(1,3)])
qed

lemma demo_site_request:
  "site_request_ok demo_handler demo_raw demo_peer demo_state
     \<lparr>in_request = \<lparr>pr_method = ''GET'', pr_path = ''/'', pr_query = [], pr_version_1_0 = False,
        pr_headers = [(''Host'', ''a.be'')], pr_host = ''a.be'', pr_content_len = 0\<rparr>,
      in_full_uri = ''/'', in_body = [], in_keep_alive = True\<rparr>"
proof -
  have "\<not> is_blocked (hv_now demo_handler) (hc_scan demo_state) (sa_ip demo_peer)" "\<not> ca_enabled (hc_cache demo_state)"
    by (simp_all add: demo_state_def start_state_def new_detector_def is_blocked_def new_cache_def)
  moreover have "site_path ''/''" by (simp add: site_path_def challenge_prefix_def starts_with_iff)
  ultimately show ?thesis by (simp add: site_request_ok_def demo_read)
qed

theorem plain_static_service_witness:
  "hr_keep_alive (fst (handle demo_handler demo_raw demo_peer False demo_state))"
proof -
  have "plain_http (hv_http demo_handler)"
    by (simp add: demo_handler_def demo_http_def plain_http_def plain_server_def plain_location_def static_site_server_def
        static_site_location_def location_of_state_def location_auth_def empty_loc_state_def empty_server_def default_http_block_def)
  moreover have "pr_content_len (in_request inc) = 0 \<Longrightarrow>
      pr_content_len (in_request inc) \<le> http_client_max_body_size (hv_http demo_handler)" for inc
    by simp
  ultimately show ?thesis
    using plain_static_service [OF _ demo_site_request, of False] by (auto simp: static_result_def Let_def)
qed


definition demo_guarded :: "nat handler_env" where
  "demo_guarded =
     demo_handler\<lparr>hv_http := default_http_block\<lparr>http_servers :=
       [empty_server\<lparr>srv_auth_basic := Some \<lparr>ab_realm = ''r'', ab_user_file = ''/u''\<rparr>\<rparr>]\<rparr>\<rparr>"



theorem service_invariant_witness:
  "st_active (hc_stats (snd (handle demo_handler demo_raw demo_peer False demo_state))) = 0"
proof -
  have "service_step demo_state (snd (handle demo_handler demo_raw demo_peer False demo_state))"
    by (rule service_step.Request)
       (simp_all add: iteration_order_def demo_handler_def demo_state_def start_state_def load_registry_def
          reload_def)
  then have "service_step\<^sup>*\<^sup>* demo_state (snd (handle demo_handler demo_raw demo_peer False demo_state))" by blast
  from service_invariant [OF this [unfolded demo_state_def]] show ?thesis by (simp add: demo_state_def)
qed

section \<open>Where the composition goes wrong\<close>

text \<open>A response in the cache is sent before any credentials are asked for.\<close>

lemma cached_response_skips_auth:
  assumes "\<not> is_blocked (hv_now env) (hc_scan st) (sa_ip peer)" "read_request env raw = Inr inc"
    and "pr_method (in_request inc) = ''GET''" "\<not> request_bypasses_cache (pr_headers (in_request inc))"
    and "cache_get (hv_now env) (cache_key (pr_host (in_request inc)) ''GET'' (in_full_uri inc)) (hc_cache st) = (Some bytes, c)"
  shows "fst (handle env raw peer is_tls st) = \<lparr>hr_bytes = bytes, hr_keep_alive = True, hr_status = 200, hr_tunnel = None\<rparr>"
  using assms by (simp add: handle_def dispatch_def dispatch_request_def serve_cached_def Let_def)

text \<open>The key under which a response is stored has no query: what a request with a query got is what
  the next client gets who asks for the bare path.\<close>

lemma query_response_stored_for_path:
  assumes "is_cacheable (pr_method rq) status hdrs" "\<not> request_bypasses_cache (pr_headers rq)"
    and "ca_enabled c" "length (ca_entries c) < ca_max_size c"
  shows "fst (cache_get (hv_now env) (cache_key (pr_host rq) (pr_method rq) (pr_path rq)) (store_response env rq status hdrs bytes c))
    = Some bytes"
proof -
  have "ca_enabled (insert_entry now key bytes status c)" for now key
    using assms(3) by (simp add: insert_entry_def)
  then show ?thesis
    using assms by (simp add: store_response_def cache_put_def cache_get_def map_of_insert)
qed

text \<open>A proxied request is sent without its body, whatever the client sent.\<close>

lemma proxied_body_dropped:
  assumes "loc_handler l = Proxy pc"
  shows "run_handler env server (Some l) rq body ka peer st = run_handler env server (Some l) rq [] ka peer st"
  using assms by (simp add: run_handler_def)

text \<open>A group without a reachable peer answers 501, not 502.\<close>

lemma unavailable_group_status:
  assumes "get_group (hc_upstreams st) name = Some g" "fst (group_connect env g ip) = None"
  shows "sr_status (fst (serve_group env location name rq body ip st)) = 501"
  using assms by (cases "group_connect env g ip") (simp add: serve_group_def not_implemented_def)

text \<open>The announced lengths of the 429 and 413 responses are not those of their bodies.\<close>

lemma refusal_lengths_wrong:
  "hr_bytes rate_limited_result = format_response 429
     [(''Content-Type'', ''text/plain''), (''Content-Length'', ''19''), (''Retry-After'', ''1'')] False ''429 Too Many Requests''
   \<and> length ''429 Too Many Requests'' = 21
   \<and> hr_bytes (too_large_result ka) = format_response 413
     [(''Content-Type'', ''text/plain''), (''Content-Length'', ''22'')] ka ''413 Content Too Large''
   \<and> length ''413 Content Too Large'' = 21"
  by (simp add: rate_limited_result_def too_large_result_def plain_result_def)

text \<open>A refused body keeps the connection in its header field and closes it in fact.\<close>

lemma too_large_says_keep_alive: "\<not> hr_keep_alive (too_large_result True)"
  by (simp add: too_large_result_def plain_result_def)

text \<open>A request refused for its rate is not shown to the scan detector.\<close>

lemma refused_not_recorded:
  assumes "check_location env server location rq ka peer st = (Some r, st')"
  shows "hc_scan (snd (dispatch_location env server location rq body ka is_tls peer st)) = hc_scan st"
  using assms
  by (auto simp: dispatch_location_def check_location_def check_auth_def check_rate_def Let_def logged_def
      log_request_def state_simps split_beta split: option.splits prod.splits if_splits)

text \<open>A bare line feed in the target passes the parser and the target check, and the redirect of a
  TLS-only server puts it into its \<open>Location\<close> field.\<close>

definition split_target :: string where
  "split_target = ''/'' @ [LF] @ ''X: y''"

lemma newline_in_target:
  "parse_request_line memchr_ref Avx2 (''GET '' @ split_target @ '' HTTP/1.1'' @ CRLF)
     = Inr (\<lparr>rl_method = ''GET'', rl_uri = split_target, rl_version = ''HTTP/1.1''\<rparr>, 21)
   \<and> is_uri_safe split_target"
proof
  show "parse_request_line memchr_ref Avx2 (''GET '' @ split_target @ '' HTTP/1.1'' @ CRLF)
     = Inr (\<lparr>rl_method = ''GET'', rl_uri = split_target, rl_version = ''HTTP/1.1''\<rparr>, 21)"
    unfolding parse_request_line_def
    using dispatched_finder.request_line_complete [OF memchr_ref_ok, of "''GET''" split_target "''HTTP/1.1''" Avx2 "[]"]
    by (simp add: limit_defs CR_def LF_def split_target_def)
  show "is_uri_safe split_target"
    by (simp add: is_uri_safe_def split_target_def LF_def FORBIDDEN_URI_SEQUENCES_def starts_with_def is_utf8_ascii ascii_code_def)
qed

lemma redirect_reflects_target:
  assumes "select_server (http_servers (hv_http env)) (pr_host (in_request inc)) = Some s" "srv_ssl_redirect s"
    and "pr_path (in_request inc) = split_target" "pr_host (in_request inc) = h" "h \<noteq> []"
  shows "fst (dispatch_server env inc False peer st)
    = redirect_result 301 (''https://'' @ h @ ''/'' @ [LF] @ ''X: y'') (in_keep_alive inc)"
  using assms by (simp add: dispatch_server_def logged_def split_target_def Let_def)

text \<open>A response from the cache is counted where it is found and again at the end of the request.\<close>

lemma cache_hit_counted_twice:
  assumes "\<not> is_blocked (hv_now env) (hc_scan st) (sa_ip peer)" "read_request env raw = Inr inc"
    and "pr_method (in_request inc) = ''GET''" "\<not> request_bypasses_cache (pr_headers (in_request inc))"
    and "cache_get (hv_now env) (cache_key (pr_host (in_request inc)) ''GET'' (in_full_uri inc)) (hc_cache st) = (Some bytes, cache)"
  shows "st_requests_total (hc_stats (snd (handle env raw peer is_tls st)))
    = (st_requests_total (hc_stats st) + 2) mod 2 ^ 64"
  using assms
  by (simp add: handle_def dispatch_def dispatch_request_def serve_cached_def Let_def record_request_fields(2) fetch_add_def
      mod_Suc_eq)

end
