(* ===== verification/Listener.thy ===== *)
theory Listener
  imports Service_Props
begin

text \<open>
  A connection, \<open>src/server/listener.rs\<close>: the loop that reads a request, has it handled, writes the
  response and keeps or closes the connection (\<open>handle_plain\<close> and, for a TLS stream,
  \<open>handle_generic\<close>, which differ only in what they tell the handler). The client and the rest of the
  service are a sequence of turns: what one read of the socket gives, whether the write succeeds, and
  what other connections and tasks have done to the shared state in the meantime. Accepting
  connections, TLS itself and the bytes that pass through a tunnel are not modelled.
\<close>

record 'c turn =
  tn_env :: "'c handler_env"
  tn_others :: "'c handler_state \<Rightarrow> 'c handler_state"
  tn_read :: read_event
  tn_write_error :: "string option"

datatype 'c connection_end = Conn_Closed | Failed string | Tunnelled 'c

definition too_many_requests_text :: string where
  "too_many_requests_text = ''HTTP/1.1 400 Too Many Requests'' @ CRLF @ ''Connection: close'' @ CRLF @ CRLF"

definition request_timeout_text :: string where
  "request_timeout_text = ''HTTP/1.1 408 Request Timeout'' @ CRLF @ ''Connection: close'' @ CRLF @ CRLF"

text \<open>One read gives at most the buffer; reading nothing is the end of the stream. The result is how
  the connection ends, the texts written and the state. \<open>requests\<close> counts the requests so far.\<close>

function serve_connection ::
    "(nat \<Rightarrow> 'c turn) \<Rightarrow> socket_addr \<Rightarrow> bool \<Rightarrow> nat \<Rightarrow> 'c handler_state
     \<Rightarrow> 'c connection_end \<times> string list \<times> 'c handler_state" where
  "serve_connection turns peer is_tls requests st =
     (if MAX_KEEPALIVE_REQUESTS \<le> requests then (Conn_Closed, [too_many_requests_text], st)
      else
        (let t = turns requests; st = tn_others t st
         in case tn_read t of
              Read_Timed_Out \<Rightarrow> (Conn_Closed, [request_timeout_text], st)
            | Read_Error e \<Rightarrow> (Failed e, [], st)
            | Data raw \<Rightarrow>
                if raw = [] then (Conn_Closed, [], st)
                else
                  case handle (tn_env t) raw peer is_tls st of
                    (result, st) \<Rightarrow>
                      (case tn_write_error t of
                         Some e \<Rightarrow> (Failed e, [], st)
                       | None \<Rightarrow>
                      (case hr_tunnel result of
                         Some upstream \<Rightarrow> (Tunnelled upstream, [hr_bytes result], st)
                       | None \<Rightarrow>
                           if \<not> hr_keep_alive result then (Conn_Closed, [hr_bytes result], st)
                           else
                             (case serve_connection turns peer is_tls (Suc requests) st of
                                (how, out, st) \<Rightarrow> (how, hr_bytes result # out, st))))))"
  by pat_completeness auto

termination
  by (relation "measure (\<lambda>(turns, peer, is_tls, requests, st). MAX_KEEPALIVE_REQUESTS - requests)") auto

declare serve_connection.simps [simp del]

definition handle_plain ::
    "(nat \<Rightarrow> 'c turn) \<Rightarrow> socket_addr \<Rightarrow> 'c handler_state \<Rightarrow> 'c connection_end \<times> string list \<times> 'c handler_state" where
  "handle_plain turns peer st = serve_connection turns peer False 0 st"

definition handle_generic ::
    "(nat \<Rightarrow> 'c turn) \<Rightarrow> socket_addr \<Rightarrow> 'c handler_state \<Rightarrow> 'c connection_end \<times> string list \<times> 'c handler_state" where
  "handle_generic turns peer st = serve_connection turns peer True 0 st"

text \<open>The names of the certificate a listener asks for.\<close>

definition tls_domains :: "http_block \<Rightarrow> string list" where
  "tls_domains http =
     (let names = List.map_filter (\<lambda>n. case n of Exact_Name s \<Rightarrow> Some s | _ \<Rightarrow> None)
            (concat (map srv_server_names (http_servers http)))
      in if names = [] then [''localhost''] else names)"

section \<open>The requests of a connection, without the loop\<close>

text \<open>Request \<open>n\<close> of a connection in a given state: its result and the state after it.\<close>

definition nth_result ::
    "(nat \<Rightarrow> 'c turn) \<Rightarrow> socket_addr \<Rightarrow> bool \<Rightarrow> nat \<Rightarrow> 'c handler_state \<Rightarrow> 'c handler_result \<times> 'c handler_state" where
  "nth_result turns peer is_tls n st =
     handle (tn_env (turns n)) (case tn_read (turns n) of Data raw \<Rightarrow> raw | _ \<Rightarrow> []) peer is_tls (tn_others (turns n) st)"

text \<open>The state before request \<open>n + k\<close> when the \<open>k\<close> requests from \<open>n\<close> on are handled one after the other.\<close>

fun state_before ::
    "(nat \<Rightarrow> 'c turn) \<Rightarrow> socket_addr \<Rightarrow> bool \<Rightarrow> nat \<Rightarrow> 'c handler_state \<Rightarrow> nat \<Rightarrow> 'c handler_state" where
  "state_before turns peer is_tls n st 0 = st"
| "state_before turns peer is_tls n st (Suc k) =
     state_before turns peer is_tls (Suc n) (snd (nth_result turns peer is_tls n st)) k"

definition nth_response ::
    "(nat \<Rightarrow> 'c turn) \<Rightarrow> socket_addr \<Rightarrow> bool \<Rightarrow> nat \<Rightarrow> 'c handler_state \<Rightarrow> nat \<Rightarrow> 'c handler_result" where
  "nth_response turns peer is_tls n st k =
     fst (nth_result turns peer is_tls (n + k) (state_before turns peer is_tls n st k))"

text \<open>A connection goes on after a request when the read gave data, the response was written, no tunnel
  was opened and the connection is kept.\<close>

definition goes_on :: "'c turn \<Rightarrow> 'c handler_result \<Rightarrow> bool" where
  "goes_on t r \<longleftrightarrow> (case tn_read t of Data raw \<Rightarrow> raw \<noteq> [] | _ \<Rightarrow> False) \<and> tn_write_error t = None
     \<and> hr_tunnel r = None \<and> hr_keep_alive r"

text \<open>How it ends at the first request after which it does not go on: the ending and what is still
  written.\<close>

definition last_turn :: "'c turn \<Rightarrow> 'c handler_result \<Rightarrow> 'c connection_end \<times> string list" where
  "last_turn t r =
     (case tn_read t of
        Read_Timed_Out \<Rightarrow> (Conn_Closed, [request_timeout_text])
      | Read_Error e \<Rightarrow> (Failed e, [])
      | Data raw \<Rightarrow>
          if raw = [] then (Conn_Closed, [])
          else case tn_write_error t of
                 Some e \<Rightarrow> (Failed e, [])
               | None \<Rightarrow> (case hr_tunnel r of Some c \<Rightarrow> Tunnelled c | None \<Rightarrow> Conn_Closed, [hr_bytes r]))"

lemma serve_connection_stop:
  assumes "n < MAX_KEEPALIVE_REQUESTS" "\<not> goes_on (turns n) (fst (nth_result turns peer is_tls n st))"
  shows "fst (serve_connection turns peer is_tls n st) = fst (last_turn (turns n) (fst (nth_result turns peer is_tls n st)))"
    and "fst (snd (serve_connection turns peer is_tls n st)) = snd (last_turn (turns n) (fst (nth_result turns peer is_tls n st)))"
  using assms
  by (auto simp: serve_connection.simps [of turns peer is_tls n st] Let_def split_beta goes_on_def last_turn_def nth_result_def
      split: read_event.splits option.splits)

lemma serve_connection_go:
  assumes "n < MAX_KEEPALIVE_REQUESTS" "goes_on (turns n) (fst (nth_result turns peer is_tls n st))"
  shows "serve_connection turns peer is_tls n st =
    (case serve_connection turns peer is_tls (Suc n) (snd (nth_result turns peer is_tls n st)) of
       (how, out, st') \<Rightarrow> (how, hr_bytes (fst (nth_result turns peer is_tls n st)) # out, st'))"
  using assms
  by (auto simp: serve_connection.simps [of turns peer is_tls n st] Let_def split_beta goes_on_def nth_result_def
      split: read_event.splits)

lemma map_upt_shift: "map f [0..<Suc k] = f 0 # map (\<lambda>i. f (Suc i)) [0..<k]"
  by (simp add: upt_conv_Cons map_Suc_upt [symmetric] del: upt_Suc)

lemma list_all_upt_shift: "list_all P [0..<Suc k] \<longleftrightarrow> P 0 \<and> list_all (\<lambda>i. P (Suc i)) [0..<k]"
  by (simp add: upt_conv_Cons map_Suc_upt [symmetric] list.pred_map comp_def del: upt_Suc)

lemma nth_response_0: "nth_response turns peer is_tls n st 0 = fst (nth_result turns peer is_tls n st)"
  by (simp add: nth_response_def)

lemma nth_response_Suc:
  "nth_response turns peer is_tls n st (Suc k) = nth_response turns peer is_tls (Suc n) (snd (nth_result turns peer is_tls n st)) k"
  by (simp add: nth_response_def)

lemma serve_connection_run:
  assumes "n \<le> MAX_KEEPALIVE_REQUESTS"
  shows "\<exists>k. n + k \<le> MAX_KEEPALIVE_REQUESTS
    \<and> list_all (\<lambda>i. goes_on (turns (n + i)) (nth_response turns peer is_tls n st i)) [0..<k]
    \<and> (let (how, tail) = (if n + k = MAX_KEEPALIVE_REQUESTS then (Conn_Closed, [too_many_requests_text])
                         else last_turn (turns (n + k)) (nth_response turns peer is_tls n st k))
       in fst (serve_connection turns peer is_tls n st) = how
          \<and> fst (snd (serve_connection turns peer is_tls n st))
            = map (\<lambda>i. hr_bytes (nth_response turns peer is_tls n st i)) [0..<k] @ tail)
    \<and> (n + k = MAX_KEEPALIVE_REQUESTS \<or> \<not> goes_on (turns (n + k)) (nth_response turns peer is_tls n st k))"
    (is "\<exists>k. ?P n st k")
  using assms
proof (induction "MAX_KEEPALIVE_REQUESTS - n" arbitrary: n st)
  case 0
  then show ?case by (intro exI [of _ 0]) (simp add: serve_connection.simps)
next
  case (Suc d)
  let ?r = "nth_result turns peer is_tls n st"
  have n: "n < MAX_KEEPALIVE_REQUESTS" using Suc.hyps(2) by simp
  show ?case
  proof (cases "goes_on (turns n) (fst ?r)")
    case False
    then show ?thesis
      using serve_connection_stop [OF n False] n by (intro exI [of _ 0]) (simp add: nth_response_0 split_beta)
  next
    case True
    have "d = MAX_KEEPALIVE_REQUESTS - Suc n" using Suc.hyps(2) by simp
    from Suc.hyps(1) [OF this] obtain k where k: "?P (Suc n) (snd ?r) k" using n by fastforce
    show ?thesis
      using k True serve_connection_go [OF n True]
      by (intro exI [of _ "Suc k"])
         (simp add: map_upt_shift list_all_upt_shift nth_response_0 nth_response_Suc Let_def split_beta del: upt_Suc)
  qed
qed

section \<open>Properties\<close>

text \<open>C17: a connection ends, whatever the client sends and the rest of the service does meanwhile. There
  is a number \<open>k\<close>, at most 1000, such that the first \<open>k\<close> requests are handled in order, each on the
  state the one before it left, and each keeps the connection; what is written is their responses in
  order and then the text of the ending: of the last request, of the timeout, or the refusal of a
  request beyond the bound.\<close>

theorem connection_run:
  "\<exists>k \<le> MAX_KEEPALIVE_REQUESTS.
     list_all (\<lambda>i. goes_on (turns i) (nth_response turns peer is_tls 0 st i)) [0..<k]
     \<and> (let (how, tail) = (if k = MAX_KEEPALIVE_REQUESTS then (Conn_Closed, [too_many_requests_text])
                          else last_turn (turns k) (nth_response turns peer is_tls 0 st k))
        in fst (serve_connection turns peer is_tls 0 st) = how
           \<and> fst (snd (serve_connection turns peer is_tls 0 st))
             = map (\<lambda>i. hr_bytes (nth_response turns peer is_tls 0 st i)) [0..<k] @ tail)
     \<and> (k = MAX_KEEPALIVE_REQUESTS \<or> \<not> goes_on (turns k) (nth_response turns peer is_tls 0 st k))"
  using serve_connection_run [OF le0, of turns peer is_tls st] by (simp only: add_0_left)

definition demo_turns :: "nat \<Rightarrow> nat turn" where
  "demo_turns n =
     \<lparr>tn_env = demo_handler, tn_others = (\<lambda>st. st), tn_read = Read_Timed_Out, tn_write_error = None\<rparr>"

theorem connection_run_witness:
  "fst (snd (serve_connection demo_turns demo_peer False 0 demo_state)) = [request_timeout_text]"
proof -
  have stop: "\<not> goes_on (demo_turns n) r" "last_turn (demo_turns n) r = (Conn_Closed, [request_timeout_text])" for n r
    by (simp_all add: goes_on_def last_turn_def demo_turns_def)
  have "k = 0" if "list_all (\<lambda>i. goes_on (demo_turns i) (f i)) [0..<k]" for k and f :: "nat \<Rightarrow> nat handler_result"
    using that stop(1) by (cases k) (auto simp: list_all_upt_shift simp del: upt_Suc)
  then show ?thesis
    using connection_run [of demo_turns demo_peer False demo_state] stop(2) by (fastforce simp: MAX_KEEPALIVE_REQUESTS_def)
qed

text \<open>What every request and every other task keeps, a connection keeps.\<close>

lemma connection_invariant:
  assumes "\<And>n s. P s \<Longrightarrow> P (tn_others (turns n) s)"
    and "\<And>n raw s. P s \<Longrightarrow> P (snd (handle (tn_env (turns n)) raw peer is_tls s))"
    and "P st"
  shows "P (snd (snd (serve_connection turns peer is_tls n st)))"
  using assms
proof (induction turns peer is_tls n st rule: serve_connection.induct)
  case (1 turns peer is_tls n st)
  let ?t = "turns n"
  show ?case
  proof (cases "n < MAX_KEEPALIVE_REQUESTS")
    case False
    then show ?thesis using "1.prems" by (simp add: serve_connection.simps)
  next
    case True
    have others: "P (tn_others ?t st)" by (rule "1.prems"(1) [OF "1.prems"(3)])
    have handled: "P (snd (handle (tn_env ?t) raw peer is_tls (tn_others ?t st)))" for raw
      by (rule "1.prems"(2) [OF others])
    show ?thesis
      using others handled "1.IH" "1.prems" True
      by (subst serve_connection.simps) (auto simp: Let_def split_beta split: read_event.split option.split, metis prod.collapse)
  qed
qed

text \<open>Each read is taken as a whole request: when a request arrives in two pieces, the first is answered
  as a bad request and the connection is closed.\<close>

lemma first_piece_refused:
  assumes "tn_read (turns 0) = Data raw" "raw \<noteq> []" "tn_write_error (turns 0) = None"
    and "\<not> is_blocked (hv_now (tn_env (turns 0))) (hc_scan (tn_others (turns 0) st)) (sa_ip peer)"
    and "read_request (tn_env (turns 0)) raw = Inl e"
  shows "fst (serve_connection turns peer is_tls 0 st) = Conn_Closed"
    and "fst (snd (serve_connection turns peer is_tls 0 st)) = [hr_bytes (bad_request (parse_error_text e) False :: 'c handler_result)]"
  using assms
  by (simp_all add: serve_connection.simps [of turns peer is_tls 0 st] MAX_KEEPALIVE_REQUESTS_def handle_def dispatch_def
      Let_def bad_request_def plain_result_def)

end
