(* ===== verification/Http2.thy ===== *)
theory Http2
  imports Service_Props
begin

text \<open>
  The bridge from HTTP/2, \<open>src/http2/mod.rs\<close>: a stream becomes the bytes of an HTTP/1.1 request, the
  handler answers it as any other, and its bytes become the response of the stream. The framing (the
  \<open>h2\<close> crate), the types of the \<open>http\<close> crate and the response parser \<open>httparse\<close> are arguments; the
  streams of a connection are independent steps.
\<close>

section \<open>The request\<close>

text \<open>\<open>h2_path_query\<close> and \<open>h2_authority\<close> are parts of the URI; the value of a header is \<open>None\<close> when it
  is not text; the body arrives in chunks, or breaks off with an error.\<close>

record h2_request =
  h2_method :: string
  h2_path_query :: "string option"
  h2_authority :: "string option"
  h2_headers :: "(string \<times> string option) list"
  h2_chunks :: "(string + string) list"

fun collect_body :: "(string + string) list \<Rightarrow> string \<Rightarrow> string + string" where
  "collect_body [] body = Inr body"
| "collect_body (Inl e # cs) body = Inl e"
| "collect_body (Inr chunk # cs) body = collect_body cs (body @ chunk)"

definition skipped_h2_header :: "string \<Rightarrow> bool" where
  "skipped_h2_header n \<longleftrightarrow>
     starts_with n '':'' \<or> eq_ignore_ascii_case n ''connection'' \<or> eq_ignore_ascii_case n ''transfer-encoding''
     \<or> eq_ignore_ascii_case n ''upgrade'' \<or> eq_ignore_ascii_case n ''keep-alive''"

definition h2_target :: "h2_request \<Rightarrow> string" where
  "h2_target req = (case h2_path_query req of None \<Rightarrow> ''/'' | Some p \<Rightarrow> p)"

definition h2_forwarded :: "h2_request \<Rightarrow> (string \<times> string) list" where
  "h2_forwarded req =
     List.map_filter (\<lambda>(n, v). if skipped_h2_header n then None else map_option (Pair n) v) (h2_headers req)"

definition h2_fields :: "h2_request \<Rightarrow> string \<Rightarrow> (string \<times> string) list" where
  "h2_fields req body =
     (case h2_authority req of None \<Rightarrow> [] | Some a \<Rightarrow> [(''Host'', a)]) @ h2_forwarded req
     @ (if body = [] then [] else [(''Content-Length'', show_nat (length body))])"

definition h1_request :: "h2_request \<Rightarrow> string \<Rightarrow> string" where
  "h1_request req body =
     h2_method req @ '' '' @ h2_target req @ '' HTTP/1.1'' @ CRLF
     @ concat (map (\<lambda>kv. header_line kv @ CRLF) (h2_fields req body)) @ CRLF @ body"

section \<open>The response\<close>

record h1_head =
  h1_code :: "nat option"
  h1_headers :: "(string \<times> string) list"
  h1_end :: nat

text \<open>\<open>hl_parse\<close> is \<open>httparse\<close> with room for 64 header fields: the head of a complete response.
  \<open>hl_name\<close> is the canonical form of a valid field name.\<close>

record http_lib =
  hl_parse :: "string \<Rightarrow> h1_head option"
  hl_name :: "string \<Rightarrow> string option"
  hl_value_ok :: "string \<Rightarrow> bool"
  hl_status_ok :: "nat \<Rightarrow> bool"

definition dropped_response_header :: "string \<Rightarrow> bool" where
  "dropped_response_header n \<longleftrightarrow>
     n = [] \<or> eq_ignore_ascii_case n ''connection'' \<or> eq_ignore_ascii_case n ''transfer-encoding''
     \<or> eq_ignore_ascii_case n ''keep-alive''"

definition parse_h1_response :: "http_lib \<Rightarrow> string \<Rightarrow> nat \<times> (string \<times> string) list \<times> string" where
  "parse_h1_response lib bytes =
     (case hl_parse lib bytes of
        Some h \<Rightarrow>
          ((case h1_code h of None \<Rightarrow> 200 | Some c \<Rightarrow> c),
           map (\<lambda>(n, v). (n, from_utf8_lossy v)) (filter (\<lambda>(n, v). \<not> dropped_response_header n) (h1_headers h)),
           drop (h1_end h) bytes)
      | None \<Rightarrow> (200, [], bytes))"

record h2_response =
  h2r_status :: nat
  h2r_headers :: "(string \<times> string) list"
  h2r_body :: string

text \<open>\<open>HeaderMap::insert\<close> replaces what the map has under the name.\<close>

definition insert_field :: "http_lib \<Rightarrow> string \<times> string \<Rightarrow> (string \<times> string) list \<Rightarrow> (string \<times> string) list" where
  "insert_field lib f hs =
     (case hl_name lib (fst f) of
        Some n \<Rightarrow> if hl_value_ok lib (snd f) then AList.update n (snd f) hs else hs
      | None \<Rightarrow> hs)"

definition h2_response_of :: "http_lib \<Rightarrow> string \<Rightarrow> h2_response" where
  "h2_response_of lib bytes =
     (case parse_h1_response lib bytes of
        (status, headers, body) \<Rightarrow>
          \<lparr>h2r_status = (if hl_status_ok lib status then status else 500),
           h2r_headers = fold (insert_field lib) headers [], h2r_body = body\<rparr>)"

definition handle_stream ::
    "http_lib \<Rightarrow> 'c handler_env \<Rightarrow> socket_addr \<Rightarrow> h2_request \<Rightarrow> 'c handler_state
     \<Rightarrow> (string + h2_response) \<times> 'c handler_state" where
  "handle_stream lib env peer req st =
     (case collect_body (h2_chunks req) [] of
        Inl e \<Rightarrow> (Inl e, st)
      | Inr body \<Rightarrow>
          (case handle env (h1_request req body) peer True st of
             (result, st) \<Rightarrow> (Inr (h2_response_of lib (hr_bytes result)), st)))"

section \<open>What the handler reads\<close>

definition as_header :: "string \<times> string \<Rightarrow> header" where
  "as_header kv = \<lparr>hd_name = fst kv, hd_value = snd kv\<rparr>"

lemma render_as_header: "render_header (as_header kv) = header_line kv @ CRLF"
  by (simp add: render_header_def as_header_def header_line_def)

lemma lossy_as_header: "is_utf8 (fst kv) \<Longrightarrow> is_utf8 (snd kv) \<Longrightarrow> lossy_header (as_header kv) = kv"
  by (simp add: lossy_header_def as_header_def from_utf8_lossy_valid)

text \<open>A request whose parts the HTTP/2 layer lets through and that fits the limits of the server.\<close>

definition h2_acceptable :: "h2_request \<Rightarrow> string \<Rightarrow> bool" where
  "h2_acceptable req body \<longleftrightarrow>
     CHR '' '' \<notin> set (h2_method req) \<and> CR \<notin> set (h2_method req) \<and> length (h2_method req) \<le> MAX_METHOD_LEN
     \<and> is_utf8 (h2_method req)
     \<and> CR \<notin> set (h2_target req) \<and> length (h2_target req) \<le> MAX_URI_LEN \<and> is_utf8 (h2_target req)
     \<and> is_uri_safe (h2_target req)
     \<and> list_all (\<lambda>kv. clean_header (as_header kv) \<and> is_utf8 (fst kv) \<and> is_utf8 (snd kv)) (h2_fields req body)
     \<and> headers_within (map as_header (h2_fields req body))
     \<and> length (concat (map (\<lambda>kv. header_line kv @ CRLF) (h2_fields req body)) @ CRLF @ body) \<le> MAX_HEADER_BUFFER"

lemma h2_request_parsed:
  assumes "memchr_ok (hv_memchr env)" "h2_acceptable req body"
  shows "\<exists>n m. parse_request_line (hv_memchr env) (hv_simd env) (h1_request req body)
        = Inr (\<lparr>rl_method = h2_method req, rl_uri = h2_target req, rl_version = ''HTTP/1.1''\<rparr>, n)
      \<and> parse_headers (hv_memchr env) (hv_simd env) (drop n (h1_request req body)) = Inr (map as_header (h2_fields req body), m)
      \<and> drop (n + m) (h1_request req body) = body"
proof -
  let ?hs = "map as_header (h2_fields req body)"
  let ?n = "length (h2_method req) + length (h2_target req) + length ''HTTP/1.1'' + 4"
  have lines: "concat (map (\<lambda>kv. header_line kv @ CRLF) (h2_fields req body)) = concat (map render_header ?hs)"
    by (simp add: comp_def render_as_header)
  have raw: "h1_request req body
      = h2_method req @ CHR '' '' # h2_target req @ CHR '' '' # ''HTTP/1.1'' @ CRLF @ concat (map render_header ?hs) @ CRLF @ body"
    unfolding h1_request_def lines by simp
  have line: "parse_request_line (hv_memchr env) (hv_simd env) (h1_request req body)
      = Inr (\<lparr>rl_method = h2_method req, rl_uri = h2_target req, rl_version = ''HTTP/1.1''\<rparr>, ?n)"
    unfolding raw parse_request_line_def
    using assms(2) by (intro dispatched_finder.request_line_complete [OF assms(1)])
      (simp_all add: h2_acceptable_def limit_defs CR_def)
  have rest: "drop ?n (h1_request req body) = concat (map render_header ?hs) @ CRLF @ body"
  proof -
    let ?p = "h2_method req @ '' '' @ h2_target req @ '' HTTP/1.1'' @ CRLF"
    have "h1_request req body = ?p @ (concat (map render_header ?hs) @ CRLF @ body)" unfolding raw by simp
    moreover have "length ?p = ?n" by simp
    ultimately show ?thesis by (metis append_eq_conv_conj)
  qed
  have "list_all clean_header ?hs" using assms(2) by (simp add: h2_acceptable_def list_all_iff)
  then have headers: "parse_headers (hv_memchr env) (hv_simd env) (drop ?n (h1_request req body))
      = Inr (?hs, (\<Sum>h\<leftarrow>?hs. header_cost h) + 2)"
    unfolding parse_headers_def rest
    using assms(2) lines by (intro dispatched_finder.headers_with_complete [OF assms(1)]) (simp_all add: h2_acceptable_def)
  have cost: "length (concat (map render_header hs)) = (\<Sum>h\<leftarrow>hs. header_cost h)" for hs
    by (induction hs) (simp_all add: render_header_def header_cost_def)
  have "drop (?n + ((\<Sum>h\<leftarrow>?hs. header_cost h) + 2)) (h1_request req body)
      = drop ((\<Sum>h\<leftarrow>?hs. header_cost h) + 2) (drop ?n (h1_request req body))"
    by (simp only: drop_drop add.commute)
  also have "\<dots> = body"
  proof -
    have "(\<Sum>h\<leftarrow>?hs. header_cost h) + 2 = length (concat (map render_header ?hs) @ CRLF)"
      unfolding length_append cost by simp
    then show ?thesis unfolding rest by (metis append_assoc append_eq_conv_conj)
  qed
  finally show ?thesis using line headers by blast
qed

lemma get_header_unique:
  assumes "list_all (\<lambda>(k, v). eq_ignore_ascii_case k name \<longrightarrow> v = x) hs" "list_ex (\<lambda>(k, v). eq_ignore_ascii_case k name) hs"
  shows "get_header hs name = Some x"
  using assms by (induction hs) (auto simp: get_header_def split: if_splits)

lemma h2_body_length:
  assumes "list_all (\<lambda>(k, v). eq_ignore_ascii_case k ''content-length'' \<longrightarrow> v = show_nat (length body)) (h2_forwarded req)"
    and "length body < 2 ^ 64"
  shows "take (content_length_of (h2_fields req body)) body = body"
proof (cases "body = []")
  case False
  have "\<not> eq_ignore_ascii_case ''Host'' ''content-length''" by code_simp
  moreover have "eq_ignore_ascii_case ''Content-Length'' ''content-length''" by code_simp
  ultimately have "get_header (h2_fields req body) ''content-length'' = Some (show_nat (length body))"
    using assms(1) False by (intro get_header_unique) (auto simp: h2_fields_def split: option.split)
  then show ?thesis using parse_show_nat [OF assms(2)] by (simp add: content_length_of_def)
qed simp

section \<open>Properties\<close>

text \<open>C16: the HTTP/1.1 bytes made from an acceptable HTTP/2 request, whose content-length fields if it has
  any are the length of its body, are read by the handler as exactly that request: its method, the path
  and the query of its target, its authority as the first host field, its fields in order without the
  skipped ones, and its body, no byte more or less.\<close>

theorem h2_request_seen:
  assumes "memchr_ok (hv_memchr env)" "h2_acceptable req body" "length body < 2 ^ 64"
    and "list_all (\<lambda>(k, v). eq_ignore_ascii_case k ''content-length'' \<longrightarrow> v = show_nat (length body)) (h2_forwarded req)"
  shows "\<exists>inc. read_request env (h1_request req body) = Inr inc
    \<and> pr_method (in_request inc) = h2_method req
    \<and> (pr_path (in_request inc), pr_query (in_request inc)) = split_uri (h2_target req)
    \<and> pr_headers (in_request inc) = h2_fields req body
    \<and> \<not> pr_version_1_0 (in_request inc)
    \<and> in_body inc = body"
proof -
  obtain n m where p: "parse_request_line (hv_memchr env) (hv_simd env) (h1_request req body)
        = Inr (\<lparr>rl_method = h2_method req, rl_uri = h2_target req, rl_version = ''HTTP/1.1''\<rparr>, n)"
      "parse_headers (hv_memchr env) (hv_simd env) (drop n (h1_request req body)) = Inr (map as_header (h2_fields req body), m)"
      "drop (n + m) (h1_request req body) = body"
    using h2_request_parsed [OF assms(1,2)] by blast
  have l: "map (lossy_header \<circ> as_header) (h2_fields req body) = h2_fields req body"
    using assms(2) by (intro map_idI) (auto simp: h2_acceptable_def list_all_iff lossy_as_header)
  show ?thesis
    using p assms(2) h2_body_length [OF assms(4,3)]
    by (simp add: read_request_def l h2_acceptable_def from_utf8_lossy_valid Let_def)
qed

definition demo_h2 :: h2_request where
  "demo_h2 = \<lparr>h2_method = ''POST'', h2_path_query = Some ''/a?b'', h2_authority = Some ''x.be'',
     h2_headers = [('':scheme'', Some ''https''), (''te'', Some ''trailers'')], h2_chunks = [Inr ''hi'']\<rparr>"

theorem h2_request_seen_witness:
  "\<exists>inc. read_request demo_handler (h1_request demo_h2 ''hi'') = Inr inc \<and> in_body inc = ''hi''
     \<and> pr_headers (in_request inc) = [(''Host'', ''x.be''), (''te'', ''trailers''), (''Content-Length'', show_nat 2)]"
proof -
  have k: "skipped_h2_header '':scheme''" "\<not> skipped_h2_header ''te''" "\<not> eq_ignore_ascii_case ''te'' ''content-length''"
    by code_simp+
  then have fw: "h2_forwarded demo_h2 = [(''te'', ''trailers'')]"
    by (simp add: h2_forwarded_def demo_h2_def List.map_filter_def)
  then have lines: "h2_fields demo_h2 ''hi'' = [(''Host'', ''x.be''), (''te'', ''trailers''), (''Content-Length'', show_nat 2)]"
    by (simp add: h2_fields_def demo_h2_def numeral_2_eq_2)
  have two: "show_nat 2 = ''2''" by code_simp
  have "is_uri_safe ''/a?b''"
    by (simp add: is_uri_safe_def FORBIDDEN_URI_SEQUENCES_def starts_with_def is_utf8_ascii ascii_code_def)
  then have "h2_acceptable demo_h2 ''hi''"
    unfolding h2_acceptable_def lines two
    by (simp add: demo_h2_def h2_target_def is_utf8_ascii ascii_code_def CR_def limit_defs clean_header_def as_header_def
        trimmed_def is_blank_def headers_within_def header_within_def header_cost_def header_line_def)
  from h2_request_seen [OF _ this, of demo_handler] show ?thesis
    using k(3) fw lines memchr_ref_ok by (auto simp: demo_handler_def)
qed

text \<open>A response that \<open>httparse\<close> cannot read, such as one with more than 64 fields, reaches the client
  as a 200 with the bytes of the HTTP/1.1 response as its body.\<close>

lemma unparsed_response_is_200:
  assumes "hl_parse lib bytes = None" "hl_status_ok lib 200"
  shows "h2_response_of lib bytes = \<lparr>h2r_status = 200, h2r_headers = [], h2r_body = bytes\<rparr>"
  using assms by (simp add: h2_response_of_def parse_h1_response_def)

text \<open>Of several fields with one name, only the last is sent.\<close>

lemma repeated_field_lost:
  assumes "hl_name lib a = Some n" "hl_name lib b = Some n" "hl_value_ok lib v" "hl_value_ok lib w"
  shows "fold (insert_field lib) [(a, v), (b, w)] [] = [(n, w)]"
  using assms by (simp add: insert_field_def)

text \<open>The parser of header fields counts the body as part of its buffer: a request whose fields and body
  together are longer than the header buffer is refused, whatever the configured body limit.\<close>

lemma large_body_refused:
  assumes "parse_request_line (hv_memchr env) (hv_simd env) raw = Inr (rl, n)" "is_uri_safe (rl_uri rl)"
    and "MAX_HEADER_BUFFER < length raw - n"
  shows "read_request env raw = Inl (Err ''header buffer overflow'')"
  using assms by (simp add: read_request_def parse_headers_def parse_headers_with_def)

end
