(* ===== verification/Tls.thy ===== *)
theory Tls
  imports Host_Env
begin

text \<open>
  Loading a certificate, \<open>src/tls/mod.rs\<close>: from its files, or a self-signed one that is generated
  first. PEM parsing, the generation of keys and certificates and the set-up of \<open>rustls\<close> are the
  parameter \<open>tls_lib\<close>; files are on the host of \<open>Host_Env\<close>. The handshake belongs to \<open>rustls\<close>.
\<close>

text \<open>\<open>tl_certs\<close> and \<open>tl_keys\<close> read the certificates and the PKCS8 keys of a PEM text, \<open>tl_self_signed\<close>
  makes a certificate and its key for some names, \<open>tl_accepts\<close> is whether a certificate chain and a key
  make a server.\<close>

record tls_lib =
  tl_certs :: "string \<Rightarrow> string + string list"
  tl_keys :: "string \<Rightarrow> string + string list"
  tl_self_signed :: "string list \<Rightarrow> string + (string \<times> string)"
  tl_accepts :: "string list \<Rightarrow> string \<Rightarrow> string option"

record tls_server =
  ts_certs :: "string list"
  ts_key :: string
  ts_alpn :: "string list"

definition create_parents :: "host_env \<Rightarrow> string \<Rightarrow> string \<Rightarrow> unit host" where
  "create_parents host what path =
     (case path_parent path of
        None \<Rightarrow> host_ok ()
      | Some p \<Rightarrow> host_map_err (\<lambda>_. ''creating '' @ what @ '' dir '' @ p) (host_do host (Create_Dir_All p)))"

definition generate_self_signed :: "host_env \<Rightarrow> tls_lib \<Rightarrow> string \<Rightarrow> string \<Rightarrow> string list \<Rightarrow> unit host" where
  "generate_self_signed host lib cert_path key_path domains =
     (case tl_self_signed lib domains of
        Inl e \<Rightarrow> host_err e
      | Inr (cert_pem, key_pem) \<Rightarrow>
          host_then (create_parents host ''cert'' cert_path) (\<lambda>_.
          host_then (create_parents host ''key'' key_path) (\<lambda>_.
          host_then (host_map_err (\<lambda>_. ''writing cert PEM'') (host_do host (Write_File cert_path cert_pem))) (\<lambda>_.
          host_map_err (\<lambda>_. ''writing key PEM'') (host_do host (Write_File key_path key_pem))))))"

definition read_or :: "host_env \<Rightarrow> string \<Rightarrow> string \<Rightarrow> string host" where
  "read_or host path what =
     host_then (host_get (\<lambda>tr. he_read host tr path)) (\<lambda>m.
       case m of None \<Rightarrow> host_err (''reading '' @ what @ '' '' @ path) | Some s \<Rightarrow> host_ok s)"

definition of_result :: "string \<Rightarrow> string + 'a \<Rightarrow> 'a host" where
  "of_result context r = (case r of Inl _ \<Rightarrow> host_err context | Inr x \<Rightarrow> host_ok x)"

definition load_from_files :: "host_env \<Rightarrow> tls_lib \<Rightarrow> string \<Rightarrow> string \<Rightarrow> tls_server host" where
  "load_from_files host lib cert_path key_path =
     host_then (read_or host cert_path ''cert'') (\<lambda>cert_pem.
     host_then (read_or host key_path ''key'') (\<lambda>key_pem.
     host_then (of_result ''parsing certificate chain'' (tl_certs lib cert_pem)) (\<lambda>certs.
     host_then (of_result ''parsing private key'' (tl_keys lib key_pem)) (\<lambda>keys.
     case keys of
       [] \<Rightarrow> host_err (''no PKCS8 private keys found in '' @ key_path)
     | key # _ \<Rightarrow>
         (case tl_accepts lib certs key of
            Some _ \<Rightarrow> host_err ''building TLS config''
          | None \<Rightarrow> host_ok \<lparr>ts_certs = certs, ts_key = key, ts_alpn = [''h2'', ''http/1.1'']\<rparr>)))))"

definition load_server_config :: "host_env \<Rightarrow> tls_lib \<Rightarrow> string \<Rightarrow> string \<Rightarrow> string list \<Rightarrow> tls_server host" where
  "load_server_config host lib cert_path key_path domains =
     host_then (host_get (\<lambda>tr. he_exists host tr cert_path \<and> he_exists host tr key_path)) (\<lambda>there.
     host_then
       (if there then host_ok ()
        else host_map_err (\<lambda>_. ''failed to generate self-signed certificate'')
               (generate_self_signed host lib cert_path key_path domains))
       (\<lambda>_. load_from_files host lib cert_path key_path))"

section \<open>Properties\<close>

text \<open>A host where operations on files succeed and a file holds what was last written to it.\<close>

fun last_written :: "string \<Rightarrow> trace \<Rightarrow> string option" where
  "last_written p [] = None"
| "last_written p (e # tr) =
     (case last_written p tr of
        Some s \<Rightarrow> Some s
      | None \<Rightarrow> (case e of Write_File q s \<Rightarrow> if p = q then Some s else None | _ \<Rightarrow> None))"

definition plain_host :: "host_env \<Rightarrow> bool" where
  "plain_host host \<longleftrightarrow>
     (\<forall>tr e. he_do host tr e = None) \<and> (\<forall>tr p s. last_written p tr = Some s \<longrightarrow> he_read host tr p = Some s)"

lemma last_written_append:
  "last_written p (xs @ ys) = (case last_written p ys of Some s \<Rightarrow> Some s | None \<Rightarrow> last_written p xs)"
  by (induction xs) (auto split: option.split)

lemma load_from_files_spec:
  assumes "he_read host tr cert_path = Some c" "he_read host tr key_path = Some k"
    and "tl_certs lib c = Inr certs" "tl_keys lib k = Inr (key # keys)" "tl_accepts lib certs key = None"
  shows "load_from_files host lib cert_path key_path tr
    = (Inr \<lparr>ts_certs = certs, ts_key = key, ts_alpn = [''h2'', ''http/1.1'']\<rparr>, tr)"
  using assms by (simp add: load_from_files_def read_or_def of_result_def host_then_def host_get_def host_ok_def)

lemma load_from_files_quiet: "snd (load_from_files host lib cert_path key_path tr) = tr"
  by (auto simp: load_from_files_def read_or_def of_result_def host_then_def host_get_def host_ok_def host_err_def
      split: option.split sum.split list.split)

lemma generate_self_signed_spec:
  assumes "plain_host host" "tl_self_signed lib domains = Inr (c, k)"
  shows "\<exists>tr'. generate_self_signed host lib cert_path key_path domains tr
    = (Inr (), tr @ tr' @ [Write_File cert_path c, Write_File key_path k])"
proof -
  have d: "he_do host t e = None" for t e using assms(1) by (simp add: plain_host_def)
  have m: "host_map_err g (host_do host e) t = (Inr (), t @ [e])" for g e t
    by (simp add: host_map_err_def host_do_def d)
  have p: "\<exists>es. create_parents host what path t = (Inr (), t @ es)" for what path t
    by (cases "path_parent path") (auto simp: create_parents_def host_ok_def m)
  obtain e1 where 1: "create_parents host ''cert'' cert_path tr = (Inr (), tr @ e1)" using p by blast
  obtain e2 where 2: "create_parents host ''key'' key_path (tr @ e1) = (Inr (), (tr @ e1) @ e2)" using p by blast
  show ?thesis
    by (intro exI [of _ "e1 @ e2"]) (simp add: generate_self_signed_def assms(2) host_then_def 1 2 [simplified] m)
qed

text \<open>A TLS listener comes up on its first start: when a file is missing, the certificate generated for
  the names of the servers is written to both files and is the one that is loaded, with HTTP/2 and
  HTTP/1.1 offered in this order; and when both files are there, no file is touched.\<close>

theorem tls_first_start:
  assumes "plain_host host" "tl_self_signed lib domains = Inr (c, k)" "cert_path \<noteq> key_path"
    and "tl_certs lib c = Inr certs" "tl_keys lib k = Inr (key # keys)" "tl_accepts lib certs key = None"
  shows "if he_exists host tr cert_path \<and> he_exists host tr key_path
    then snd (load_server_config host lib cert_path key_path domains tr) = tr
    else \<exists>tr'. load_server_config host lib cert_path key_path domains tr
      = (Inr \<lparr>ts_certs = certs, ts_key = key, ts_alpn = [''h2'', ''http/1.1'']\<rparr>,
         tr @ tr' @ [Write_File cert_path c, Write_File key_path k])"
proof (cases "he_exists host tr cert_path \<and> he_exists host tr key_path")
  case True
  then show ?thesis
    by (simp add: load_server_config_def host_then_def host_get_def host_ok_def load_from_files_quiet)
next
  case False
  obtain tr' where g: "generate_self_signed host lib cert_path key_path domains tr
      = (Inr (), tr @ tr' @ [Write_File cert_path c, Write_File key_path k])"
    using generate_self_signed_spec [OF assms(1,2)] by blast
  let ?tr = "tr @ tr' @ [Write_File cert_path c, Write_File key_path k]"
  have "last_written cert_path ?tr = Some c" "last_written key_path ?tr = Some k"
    using assms(3) by (simp_all add: last_written_append)
  then have "he_read host ?tr cert_path = Some c" "he_read host ?tr key_path = Some k"
    using assms(1) by (simp_all add: plain_host_def)
  from load_from_files_spec [OF this assms(4-6)] show ?thesis
    using False g
    by (auto simp: load_server_config_def host_then_def host_get_def host_map_err_def)
qed

definition demo_tls_host :: host_env where
  "demo_tls_host = \<lparr>he_exists = (\<lambda>tr p. last_written p tr \<noteq> None), he_read = (\<lambda>tr p. last_written p tr),
     he_list_dir = (\<lambda>tr p. None), he_do = (\<lambda>tr e. None), he_run = (\<lambda>tr c args. Inr (True, [], []))\<rparr>"

definition demo_tls :: tls_lib where
  "demo_tls = \<lparr>tl_certs = (\<lambda>s. Inr [s]), tl_keys = (\<lambda>s. Inr [s]), tl_self_signed = (\<lambda>ds. Inr (''C'', ''K'')),
     tl_accepts = (\<lambda>cs k. None)\<rparr>"

theorem tls_first_start_witness:
  "fst (load_server_config demo_tls_host demo_tls ''/c'' ''/k'' [''a.be''] [])
   = Inr \<lparr>ts_certs = [''C''], ts_key = ''K'', ts_alpn = [''h2'', ''http/1.1'']\<rparr>"
proof -
  have "plain_host demo_tls_host" by (simp add: plain_host_def demo_tls_host_def)
  from tls_first_start [OF this, of demo_tls "[''a.be'']" "''C''" "''K''" "''/c''" "''/k''" "[''C'']" "''K''" "[]" "[]"]
  show ?thesis by (auto simp: demo_tls_def demo_tls_host_def)
qed

text \<open>When only the key is missing, the certificate that is there is replaced by a self-signed one.\<close>

lemma certificate_overwritten:
  assumes "plain_host host" "tl_self_signed lib domains = Inr (c, k)"
    and "he_exists host tr cert_path" "\<not> he_exists host tr key_path"
  shows "Write_File cert_path c \<in> set (snd (load_server_config host lib cert_path key_path domains tr))"
proof -
  obtain tr' where g: "generate_self_signed host lib cert_path key_path domains tr
      = (Inr (), tr @ tr' @ [Write_File cert_path c, Write_File key_path k])"
    using generate_self_signed_spec [OF assms(1,2)] by blast
  show ?thesis
    using assms(3,4) g
    by (simp add: load_server_config_def host_then_def host_get_def host_map_err_def load_from_files_quiet)
qed

end
