(* ===== verification/Icmp_Guard.thy ===== *)
theory Icmp_Guard
  imports Firewall
begin

text \<open>
  The guard against ICMP floods, \<open>src/icmp_guard/mod.rs\<close>: one process of the host sets up the rate
  limit, marked by a lock file, and takes it away at the end. It runs on the host of \<open>Host_Env\<close>; the
  identifier of the process is an argument. The log is left out.
\<close>

section \<open>The guard\<close>

datatype icmp_backend = Icmp_Iptables | Icmp_Nftables | Icmp_None

record icmp_guard =
  ig_is_owner :: bool
  ig_backend :: icmp_backend
  ig_enabled :: bool

definition LOCK_FILE :: string where "LOCK_FILE = ''/var/run/icmp_guard.pid''"
definition ICMP_RATE :: string where "ICMP_RATE = ''5/second''"
definition ICMP_BURST :: nat where "ICMP_BURST = 10"
definition ICMP_COMMENT :: string where "ICMP_COMMENT = ''icmp_guard''"

definition cmd_ok :: "host_env \<Rightarrow> string \<Rightarrow> string list \<Rightarrow> bool host" where
  "cmd_ok env cmd args =
     host_then (host_try (host_run env cmd args))
       (\<lambda>r. host_ok (case r of Inl _ \<Rightarrow> False | Inr (success, _) \<Rightarrow> success))"

text \<open>The text of a failed status, which is only logged, is left out.\<close>

definition run_cmd :: "host_env \<Rightarrow> string \<Rightarrow> string list \<Rightarrow> unit host" where
  "run_cmd env cmd args =
     host_then (host_map_err (\<lambda>e. cmd @ '': '' @ e) (host_run env cmd args)) (\<lambda>(success, _).
       if success then host_ok () else host_err (cmd @ '' exited with ''))"

definition lock_is_held :: "host_env \<Rightarrow> trace \<Rightarrow> bool" where
  "lock_is_held env tr =
     (case he_read env tr LOCK_FILE of
        None \<Rightarrow> False
      | Some content \<Rightarrow>
          (case parse_uint 32 (str_trim (case nth_opt (split_on (CHR '':'') content) 1 of None \<Rightarrow> [] | Some s \<Rightarrow> s)) of
             None \<Rightarrow> False
           | Some pid \<Rightarrow> he_exists env tr (''/proc/'' @ show_nat pid)))"

definition lock_text :: "nat \<Rightarrow> string" where
  "lock_text pid = ''runnginx:'' @ show_nat pid @ [LF]"

definition write_lock :: "host_env \<Rightarrow> nat \<Rightarrow> unit host" where
  "write_lock env pid = host_ignore (host_do env (Write_File LOCK_FILE (lock_text pid)))"

definition detect_backend :: "host_env \<Rightarrow> icmp_backend host" where
  "detect_backend env =
     host_then (cmd_ok env ''which'' [''nft'']) (\<lambda>nft.
     if nft then host_ok Icmp_Nftables
     else host_then (cmd_ok env ''which'' [''iptables'']) (\<lambda>ipt.
          host_ok (if ipt then Icmp_Iptables else Icmp_None)))"

section \<open>The rules\<close>

definition limit_rule :: "string \<Rightarrow> string \<Rightarrow> string \<Rightarrow> string list" where
  "limit_rule action proto kind =
     [action, ''INPUT'', ''-p'', proto, kind, ''echo-request'', ''-m'', ''limit'', ''--limit'', ICMP_RATE,
      ''--limit-burst'', show_nat ICMP_BURST, ''-m'', ''comment'', ''--comment'', ICMP_COMMENT, ''-j'', ''ACCEPT'']"

definition drop_rule :: "string \<Rightarrow> string \<Rightarrow> string \<Rightarrow> string list" where
  "drop_rule action proto kind =
     [action, ''INPUT'', ''-p'', proto, kind, ''echo-request'', ''-m'', ''comment'', ''--comment'', ICMP_COMMENT, ''-j'', ''DROP'']"

definition DQ :: string where "DQ = [CHR 0x22]"

definition nft_accept :: string where
  "nft_accept =
     ''add rule inet filter input ip protocol icmp icmp type echo-request limit rate '' @ ICMP_RATE @ '' burst ''
     @ show_nat ICMP_BURST @ '' packets accept comment '' @ DQ @ ICMP_COMMENT @ DQ"

definition nft_drop :: string where
  "nft_drop = ''add rule inet filter input ip protocol icmp icmp type echo-request drop comment '' @ DQ @ ICMP_COMMENT @ DQ"

definition apply_rules :: "host_env \<Rightarrow> icmp_backend \<Rightarrow> unit host" where
  "apply_rules env b =
     (case b of
        Icmp_Iptables \<Rightarrow>
          host_then (run_cmd env ''iptables'' (limit_rule ''-I'' ''icmp'' ''--icmp-type'')) (\<lambda>_.
          host_then (run_cmd env ''iptables'' (drop_rule ''-I'' ''icmp'' ''--icmp-type'')) (\<lambda>_.
          host_then (host_ignore (run_cmd env ''ip6tables'' (limit_rule ''-I'' ''icmpv6'' ''--icmpv6-type''))) (\<lambda>_.
          host_ignore (run_cmd env ''ip6tables'' (drop_rule ''-I'' ''icmpv6'' ''--icmpv6-type'')))))
      | Icmp_Nftables \<Rightarrow>
          host_then (run_cmd env ''nft'' [nft_accept]) (\<lambda>_. run_cmd env ''nft'' [nft_drop])
      | Icmp_None \<Rightarrow> host_ok ())"

text \<open>\<open>line.split(sep).nth(1)\<close>: what stands between the first and the second separator.\<close>

definition second_piece :: "string \<Rightarrow> string \<Rightarrow> string option" where
  "second_piece sep line =
     (case str_find sep line of
        None \<Rightarrow> None
      | Some i \<Rightarrow>
          (let rest = drop (i + length sep) line
           in Some (case str_find sep rest of None \<Rightarrow> rest | Some j \<Rightarrow> take j rest)))"

definition guard_handles :: "string \<Rightarrow> string list" where
  "guard_handles out =
     List.map_filter (\<lambda>line. if str_contains line ICMP_COMMENT then map_option str_trim (second_piece ''# handle '' line) else None)
       (str_lines (from_utf8_lossy out))"

definition remove_rules :: "host_env \<Rightarrow> icmp_backend \<Rightarrow> unit host" where
  "remove_rules env b =
     (case b of
        Icmp_Iptables \<Rightarrow>
          host_then (host_ignore (run_cmd env ''iptables'' (limit_rule ''-D'' ''icmp'' ''--icmp-type''))) (\<lambda>_.
          host_then (host_ignore (run_cmd env ''iptables'' (drop_rule ''-D'' ''icmp'' ''--icmp-type''))) (\<lambda>_.
          host_then (host_ignore (run_cmd env ''ip6tables'' (limit_rule ''-D'' ''icmpv6'' ''--icmpv6-type''))) (\<lambda>_.
          host_ignore (run_cmd env ''ip6tables'' (drop_rule ''-D'' ''icmpv6'' ''--icmpv6-type'')))))
      | Icmp_Nftables \<Rightarrow>
          host_then (host_run env ''nft'' [''-a'', ''list'', ''chain'', ''inet'', ''filter'', ''input'']) (\<lambda>(_, out, _).
          host_each (\<lambda>handle. host_ignore (host_run env ''nft'' [''delete'', ''rule'', ''inet'', ''filter'', ''input'', ''handle'', handle]))
            (guard_handles out))
      | Icmp_None \<Rightarrow> host_ok ())"

section \<open>Set-up and end\<close>

definition no_guard :: "bool \<Rightarrow> icmp_guard" where
  "no_guard enabled = \<lparr>ig_is_owner = False, ig_backend = Icmp_None, ig_enabled = enabled\<rparr>"

definition guard_setup :: "host_env \<Rightarrow> nat \<Rightarrow> bool \<Rightarrow> icmp_guard host" where
  "guard_setup env pid enabled =
     (if \<not> enabled then host_ok (no_guard False)
      else host_then (host_get (lock_is_held env)) (\<lambda>held.
        if held then host_ok (no_guard True)
        else host_then (detect_backend env) (\<lambda>b.
          if b = Icmp_None then host_ok (no_guard True)
          else host_then (host_try (apply_rules env b)) (\<lambda>r.
            case r of
              Inl _ \<Rightarrow> host_ok (no_guard True)
            | Inr _ \<Rightarrow> host_then (write_lock env pid) (\<lambda>_.
                host_ok \<lparr>ig_is_owner = True, ig_backend = b, ig_enabled = True\<rparr>)))))"

definition teardown :: "host_env \<Rightarrow> icmp_guard \<Rightarrow> unit host" where
  "teardown env g =
     (if \<not> ig_is_owner g then host_ok ()
      else host_then (host_try (remove_rules env (ig_backend g))) (\<lambda>_.
           host_ignore (host_do env (Remove_File LOCK_FILE))))"

section \<open>What the rules do\<close>

text \<open>A chain of iptables as a list: \<open>-I\<close> puts a rule in front, \<open>-D\<close> takes the first equal one away.
  The rule is what follows the name of the chain. A command that fails changes nothing.\<close>

type_synonym chain = "string list list"

fun run_iptables :: "string list \<Rightarrow> chain \<Rightarrow> chain" where
  "run_iptables (action # c # rule) chain =
     (if action = ''-I'' then rule # chain else if action = ''-D'' then remove1 rule chain else chain)"
| "run_iptables args chain = chain"

text \<open>The chain of IPv4 after a trace of commands that all succeeded.\<close>

definition chain_after :: "trace \<Rightarrow> chain \<Rightarrow> chain" where
  "chain_after tr chain =
     fold (\<lambda>e. case e of Run cmd args \<Rightarrow> (if cmd = ''iptables'' then run_iptables args else id) | _ \<Rightarrow> id) tr chain"

text \<open>What happens to an echo request: the target of the first rule that matches it. A rule with a
  limit matches while the limit has room.\<close>

definition rule_target :: "string list \<Rightarrow> string" where
  "rule_target rule = last rule"

definition matches_echo :: "bool \<Rightarrow> string list \<Rightarrow> bool" where
  "matches_echo room rule \<longleftrightarrow>
     take 4 rule = [''-p'', ''icmp'', ''--icmp-type'', ''echo-request''] \<and> (''--limit'' \<in> set rule \<longrightarrow> room)"

definition echo_verdict :: "bool \<Rightarrow> chain \<Rightarrow> string option" where
  "echo_verdict room chain = map_option rule_target (find (matches_echo room) chain)"

definition always_succeeds :: "host_env \<Rightarrow> bool" where
  "always_succeeds env \<longleftrightarrow> (\<forall>tr cmd args. \<exists>out err. he_run env tr cmd args = Inr (True, out, err))"

lemma run_cmd_success:
  assumes "always_succeeds env"
  shows "run_cmd env cmd args tr = (Inr (), tr @ [Run cmd args])"
proof -
  obtain out err where "he_run env tr cmd args = Inr (True, out, err)" using assms unfolding always_succeeds_def by blast
  then show ?thesis by (simp add: run_cmd_def host_then_def host_map_err_def host_run_def host_ok_def)
qed

lemma ignore_run_success:
  assumes "always_succeeds env"
  shows "host_ignore (run_cmd env cmd args) tr = (Inr (), tr @ [Run cmd args])"
  using run_cmd_success [OF assms] by (simp add: host_ignore_def host_then_def host_try_def host_ok_def)

lemma apply_iptables_trace:
  assumes "always_succeeds env"
  shows "apply_rules env Icmp_Iptables tr
    = (Inr (), tr @ [Run ''iptables'' (limit_rule ''-I'' ''icmp'' ''--icmp-type''), Run ''iptables'' (drop_rule ''-I'' ''icmp'' ''--icmp-type''),
        Run ''ip6tables'' (limit_rule ''-I'' ''icmpv6'' ''--icmpv6-type''), Run ''ip6tables'' (drop_rule ''-I'' ''icmpv6'' ''--icmpv6-type'')])"
  by (simp add: apply_rules_def host_then_def run_cmd_success [OF assms] ignore_run_success [OF assms])

lemma remove_iptables_trace:
  assumes "always_succeeds env"
  shows "remove_rules env Icmp_Iptables tr
    = (Inr (), tr @ [Run ''iptables'' (limit_rule ''-D'' ''icmp'' ''--icmp-type''), Run ''iptables'' (drop_rule ''-D'' ''icmp'' ''--icmp-type''),
        Run ''ip6tables'' (limit_rule ''-D'' ''icmpv6'' ''--icmpv6-type''), Run ''ip6tables'' (drop_rule ''-D'' ''icmpv6'' ''--icmpv6-type'')])"
  by (simp add: remove_rules_def host_then_def ignore_run_success [OF assms])

lemma icmp_chain:
  "chain_after [Run ''iptables'' (limit_rule ''-I'' ''icmp'' ''--icmp-type''), Run ''iptables'' (drop_rule ''-I'' ''icmp'' ''--icmp-type''),
        Run ''ip6tables'' a, Run ''ip6tables'' b] chain
   = drop 2 (drop_rule [] ''icmp'' ''--icmp-type'') # drop 2 (limit_rule [] ''icmp'' ''--icmp-type'') # chain"
  by (simp add: chain_after_def limit_rule_def drop_rule_def numeral_2_eq_2)

lemma icmp_chain_removed:
  "chain_after [Run ''iptables'' (limit_rule ''-D'' ''icmp'' ''--icmp-type''), Run ''iptables'' (drop_rule ''-D'' ''icmp'' ''--icmp-type''),
        Run ''ip6tables'' a, Run ''ip6tables'' b] chain
   = remove1 (drop 2 (drop_rule [] ''icmp'' ''--icmp-type'')) (remove1 (drop 2 (limit_rule [] ''icmp'' ''--icmp-type'')) chain)"
  by (simp add: chain_after_def limit_rule_def drop_rule_def numeral_2_eq_2)

lemma trim_end_newline: "trim_end (s @ [LF]) = trim_end s"
proof -
  have "ws_len_end (s @ [LF]) = 1" by (simp add: ws_len_end_def white_space_def ends_with_iff LF_def)
  then show ?thesis by (simp add: trim_end.simps [of "s @ [LF]"])
qed

lemma str_trim_number_newline: "str_trim (show_nat n @ [LF]) = show_nat n"
proof -
  obtain c s where s: "show_nat n = c # s" by (cases "show_nat n") auto
  have "is_ascii_digit c" using show_nat_digits [of n] s by simp
  then have "trim_start (c # t) = c # t" for t
    by (subst trim_start.simps) (simp add: ws_len_first digit_not_space)
  then show ?thesis
    using str_trim_show_nat [of n] trim_end_newline [of "show_nat n"] by (simp add: str_trim_def s)
qed

lemma lock_held:
  assumes "he_read env tr LOCK_FILE = Some (lock_text pid)" "pid < 2 ^ 32"
  shows "lock_is_held env tr \<longleftrightarrow> he_exists env tr (''/proc/'' @ show_nat pid)"
proof -
  have "CHR '':'' \<notin> set (show_nat pid @ [LF])"
    using show_nat_digits [of pid] by (auto simp: list_all_iff is_ascii_digit_def ascii_code_def LF_def)
  then have "split_on (CHR '':'') (lock_text pid) = [''runnginx'', show_nat pid @ [LF]]"
    using split_on_append [of "CHR '':''" "''runnginx''" "show_nat pid @ [LF]"] by (simp add: lock_text_def split_on_none)
  then show ?thesis
    using parse_show_nat [OF assms(2)] by (simp add: lock_is_held_def assms(1) nth_opt_def str_trim_number_newline)
qed

section \<open>Properties\<close>

text \<open>On a host with iptables whose commands succeed, the guard that a process sets up is taken away
  without a trace: removing the rules restores the chain of the firewall as it was before the rules were
  applied, whatever stood in it, and the set-up is skipped while a process that holds the lock lives.\<close>

theorem icmp_guard_restores_chain:
  assumes "always_succeeds env"
  shows "chain_after (drop (length tr) (snd (apply_rules env Icmp_Iptables tr))
                      @ drop (length tr') (snd (remove_rules env Icmp_Iptables tr'))) chain = chain
    \<and> (he_read env tr LOCK_FILE = Some (lock_text pid) \<and> pid < 2 ^ 32 \<and> he_exists env tr (''/proc/'' @ show_nat pid)
       \<longrightarrow> guard_setup env own True tr = (Inr (no_guard True), tr))"
proof
  have two: "drop 2 (limit_rule [] ''icmp'' ''--icmp-type'') \<noteq> drop 2 (drop_rule [] ''icmp'' ''--icmp-type'')"
    by (simp add: limit_rule_def drop_rule_def)
  show "chain_after (drop (length tr) (snd (apply_rules env Icmp_Iptables tr))
                      @ drop (length tr') (snd (remove_rules env Icmp_Iptables tr'))) chain = chain"
    using icmp_chain icmp_chain_removed two
    by (simp add: apply_iptables_trace [OF assms] remove_iptables_trace [OF assms] chain_after_def)
  show "he_read env tr LOCK_FILE = Some (lock_text pid) \<and> pid < 2 ^ 32 \<and> he_exists env tr (''/proc/'' @ show_nat pid)
       \<longrightarrow> guard_setup env own True tr = (Inr (no_guard True), tr)"
    using lock_held [of env tr pid] by (simp add: guard_setup_def host_then_def host_get_def host_ok_def)
qed

definition demo_icmp_env :: host_env where
  "demo_icmp_env = \<lparr>he_exists = (\<lambda>tr p. True), he_read = (\<lambda>tr p. Some (lock_text 7)), he_list_dir = (\<lambda>tr p. None),
     he_do = (\<lambda>tr e. None), he_run = (\<lambda>tr c args. Inr (True, [], []))\<rparr>"

theorem icmp_guard_restores_chain_witness:
  "guard_setup demo_icmp_env 1 True [] = (Inr (no_guard True), [])"
proof -
  have "always_succeeds demo_icmp_env" by (simp add: always_succeeds_def demo_icmp_env_def)
  from icmp_guard_restores_chain [OF this, of "[]" "[]" "[]" 7 1] show ?thesis by (simp add: demo_icmp_env_def)
qed

text \<open>The rules are inserted in front, so that the one that drops stands before the one that accepts at
  the limited rate: every echo request is dropped, also within the limit.\<close>

lemma icmp_accept_unreachable:
  assumes "always_succeeds env"
  shows "echo_verdict room (chain_after (drop (length tr) (snd (apply_rules env Icmp_Iptables tr))) chain) = Some ''DROP''"
  by (simp add: apply_iptables_trace [OF assms] icmp_chain echo_verdict_def)
     (simp add: drop_rule_def matches_echo_def rule_target_def ICMP_COMMENT_def numeral_eq_Suc)

text \<open>When the second rule cannot be added, the first one stays and nobody owns it.\<close>

lemma icmp_partial_rules_left:
  assumes "he_run env tr ''iptables'' (limit_rule ''-I'' ''icmp'' ''--icmp-type'') = Inr (True, o1, e1)"
    and "he_run env (tr @ [Run ''iptables'' (limit_rule ''-I'' ''icmp'' ''--icmp-type'')]) ''iptables''
           (drop_rule ''-I'' ''icmp'' ''--icmp-type'') = Inr (False, o2, e2)"
  shows "\<exists>e. fst (apply_rules env Icmp_Iptables tr) = Inl e" and "teardown env (no_guard True) tr' = (Inr (), tr')"
  using assms
  by (simp_all add: apply_rules_def host_then_def run_cmd_def host_map_err_def host_run_def host_ok_def host_err_def
      teardown_def no_guard_def)

end
