(* ===== verification/Platform.thy ===== *)
theory Platform
  imports Rust_Num Rust_Path
begin

text \<open>
  What the program finds out about the machine it runs on: the physical cores for pinning its worker
  threads, \<open>src/numa_pin.rs\<close>, whether XDP is available, \<open>src/xdp.rs\<close>, and reading files through
  \<open>io_uring\<close>, \<open>src/ioring/mod.rs\<close>. Files of the system and the kernel are arguments.
\<close>

section \<open>Cores\<close>

definition topology_path :: "nat \<Rightarrow> string \<Rightarrow> string" where
  "topology_path cpu file = ''/sys/devices/system/cpu/cpu'' @ show_nat cpu @ ''/topology/'' @ file"

definition parse_id :: "nat \<Rightarrow> string option \<Rightarrow> nat" where
  "parse_id d text =
     (case text of None \<Rightarrow> d | Some s \<Rightarrow> (case parse_uint 64 (str_trim s) of None \<Rightarrow> d | Some n \<Rightarrow> n))"

text \<open>The package and the core of a processor; \<open>sys\<close> reads a file of the system.\<close>

definition core_of :: "(string \<Rightarrow> string option) \<Rightarrow> nat \<Rightarrow> nat \<times> nat" where
  "core_of sys cpu =
     (parse_id 0 (sys (topology_path cpu ''physical_package_id'')), parse_id cpu (sys (topology_path cpu ''core_id'')))"

fun core_loop :: "(string \<Rightarrow> string option) \<Rightarrow> nat \<Rightarrow> nat \<Rightarrow> (nat \<times> nat) list \<Rightarrow> nat list" where
  "core_loop sys cpu 0 seen = []"
| "core_loop sys cpu (Suc left) seen =
     (if sys (topology_path cpu ''core_id'') = None then []
      else if core_of sys cpu \<in> set seen then core_loop sys (Suc cpu) left seen
      else cpu # core_loop sys (Suc cpu) left (core_of sys cpu # seen))"

definition physical_core_ids :: "(string \<Rightarrow> string option) \<Rightarrow> nat list" where
  "physical_core_ids sys = core_loop sys 0 512 []"

record round_robin =
  rb_cores :: "nat list"
  rb_counter :: nat

definition new_round_robin :: "nat list \<Rightarrow> round_robin" where
  "new_round_robin cores = \<lparr>rb_cores = cores, rb_counter = 0\<rparr>"

text \<open>The processor the calling thread is pinned to, if any.\<close>

definition pin_current_thread :: "nat \<Rightarrow> nat option" where
  "pin_current_thread cpu = (if 1024 \<le> cpu then None else Some cpu)"

definition pin_next :: "round_robin \<Rightarrow> nat option \<times> round_robin" where
  "pin_next rr =
     (if rb_cores rr = [] then (None, rr)
      else (pin_current_thread (rb_cores rr ! (rb_counter rr mod length (rb_cores rr))),
            rr\<lparr>rb_counter := (rb_counter rr + 1) mod 2 ^ 64\<rparr>))"

text \<open>The threads in the order in which they start.\<close>

fun pin_threads :: "nat \<Rightarrow> round_robin \<Rightarrow> nat option list" where
  "pin_threads 0 rr = []"
| "pin_threads (Suc n) rr = fst (pin_next rr) # pin_threads n (snd (pin_next rr))"

lemma core_loop_spec:
  "sorted_wrt (<) (core_loop sys cpu left seen)
   \<and> set (core_loop sys cpu left seen) \<subseteq> {cpu..<cpu + left}
   \<and> distinct (map (core_of sys) (core_loop sys cpu left seen))
   \<and> set (map (core_of sys) (core_loop sys cpu left seen)) \<inter> set seen = {}"
proof (induction sys cpu left seen rule: core_loop.induct)
  case (2 sys cpu left seen)
  then show ?case by (force simp: less_Suc_eq_le)
qed simp

lemma core_loop_covers:
  assumes "i < left" "\<And>j. j \<le> i \<Longrightarrow> sys (topology_path (cpu + j) ''core_id'') \<noteq> None"
  shows "core_of sys (cpu + i) \<in> set seen \<union> core_of sys ` set (core_loop sys cpu left seen)"
  using assms
proof (induction sys cpu left seen arbitrary: i rule: core_loop.induct)
  case (2 sys cpu left seen)
  have there: "sys (topology_path cpu ''core_id'') \<noteq> None" using "2.prems"(2) [of 0] by simp
  show ?case
  proof (cases i)
    case 0
    then show ?thesis using there by simp
  next
    case (Suc k)
    have later: "\<And>j. j \<le> k \<Longrightarrow> sys (topology_path (Suc cpu + j) ''core_id'') \<noteq> None"
      using "2.prems"(2) [of "Suc j" for j] Suc by simp
    show ?thesis
      using "2.IH"(1) [OF there _ _ later] "2.IH"(2) [OF there _ _ later] "2.prems"(1) there Suc by (auto simp: image_iff)
  qed
qed simp

lemma pin_threads_nth:
  assumes "i < n" "rb_counter rr + n \<le> 2 ^ 64" "rb_cores rr \<noteq> []"
  shows "pin_threads n rr ! i = pin_current_thread (rb_cores rr ! ((rb_counter rr + i) mod length (rb_cores rr)))"
  using assms
proof (induction n arbitrary: rr i)
  case (Suc n)
  show ?case
  proof (cases i)
    case 0
    then show ?thesis using Suc.prems by (simp add: pin_next_def)
  next
    case (Suc k)
    have c: "rb_counter (snd (pin_next rr)) = (if n = 0 then rb_counter (snd (pin_next rr)) else rb_counter rr + 1)"
      "rb_cores (snd (pin_next rr)) = rb_cores rr"
      using Suc.prems by (auto simp: pin_next_def)
    have "n \<noteq> 0" using Suc Suc.prems(1) by simp
    then show ?thesis using Suc.IH [of k "snd (pin_next rr)"] Suc Suc.prems c by simp
  qed
qed simp

section \<open>XDP\<close>

definition version_parts :: "string \<Rightarrow> nat list" where
  "version_parts text =
     List.map_filter (\<lambda>s. parse_uint 32 (takeWhile is_ascii_digit s)) (take 2 (split_on (CHR ''.'') (str_trim text)))"

text \<open>\<open>osrelease\<close> is the text of \<open>/proc/sys/kernel/osrelease\<close>, \<open>bpf_fs\<close> whether \<open>/sys/fs/bpf\<close> exists.\<close>

definition check_available :: "string option \<Rightarrow> bool \<Rightarrow> bool" where
  "check_available osrelease bpf_fs \<longleftrightarrow>
     (case osrelease of
        None \<Rightarrow> bpf_fs
      | Some text \<Rightarrow>
          (case version_parts text of
             [major, minor] \<Rightarrow> (if major < 4 \<or> major = 4 \<and> minor < 8 then False else bpf_fs)
           | _ \<Rightarrow> bpf_fs))"

lemma version_parts_exact:
  assumes "major < 2 ^ 32" "minor < 2 ^ 32" "str_trim (show_nat major @ ''.'' @ show_nat minor @ ''.'' @ rest)
      = show_nat major @ ''.'' @ show_nat minor @ ''.'' @ rest"
  shows "check_available (Some (show_nat major @ ''.'' @ show_nat minor @ ''.'' @ rest)) bpf_fs
    \<longleftrightarrow> bpf_fs \<and> (4 < major \<or> major = 4 \<and> 8 \<le> minor)"
proof -
  have dot: "CHR ''.'' \<notin> set (show_nat n)" for n
    using show_nat_digits [of n] by (auto simp: list_all_iff is_ascii_digit_def ascii_code_def)
  have digits: "takeWhile is_ascii_digit (show_nat n) = show_nat n" for n
    using show_nat_digits [of n] by (simp add: takeWhile_eq_all_conv list_all_iff)
  have "split_on (CHR ''.'') (show_nat major @ ''.'' @ show_nat minor @ ''.'' @ rest)
      = show_nat major # show_nat minor # split_on (CHR ''.'') rest"
    using split_on_append [OF dot, of major "show_nat minor @ ''.'' @ rest"] split_on_append [OF dot, of minor rest] by simp
  then have "version_parts (show_nat major @ ''.'' @ show_nat minor @ ''.'' @ rest) = [major, minor]"
    using parse_show_nat [OF assms(1)] parse_show_nat [OF assms(2)] assms(3)
    by (simp add: version_parts_def digits List.map_filter_def)
  then show ?thesis by (auto simp: check_available_def)
qed

section \<open>Files through io_uring\<close>

definition MAX_IORING_FILE_BYTES :: nat where "MAX_IORING_FILE_BYTES = 4 * 1024 * 1024"

text \<open>\<open>io_meta\<close> is the size the file system reports, \<open>io_fs_read\<close> reading the file the ordinary way;
  \<open>io_open\<close> and \<open>io_read\<close> are the operations of the ring, the last with the number of bytes asked for.\<close>

record io_env =
  io_meta :: "string \<Rightarrow> string + nat"
  io_fs_read :: "string \<Rightarrow> string + string"
  io_open :: "string \<Rightarrow> string + nat"
  io_read :: "nat \<Rightarrow> nat \<Rightarrow> string + string"

text \<open>The queue of the worker threads: not there, without room, or taking the request, after which the
  workers may still go away.\<close>

datatype io_pool = No_Pool | Pool_Full | Pool_Takes | Pool_Gone

definition read_file_uring :: "io_env \<Rightarrow> string \<Rightarrow> string + string" where
  "read_file_uring env path =
     (case io_meta env path of
        Inl e \<Rightarrow> Inl e
      | Inr n \<Rightarrow>
          if n = 0 then Inr []
          else if MAX_IORING_FILE_BYTES < n then io_fs_read env path
          else if CHR 0x00 \<in> set path then Inl ''null byte in path''
          else case io_open env path of
                 Inl e \<Rightarrow> Inl e
               | Inr fd \<Rightarrow> io_read env fd n)"

definition read_file :: "io_env \<Rightarrow> io_pool \<Rightarrow> string \<Rightarrow> string + string" where
  "read_file env pool path =
     (if (case io_meta env path of Inl e \<Rightarrow> False | Inr n \<Rightarrow> MAX_IORING_FILE_BYTES < n) then io_fs_read env path
      else case pool of
             Pool_Takes \<Rightarrow> read_file_uring env path
           | Pool_Gone \<Rightarrow> Inl ''io_uring pool gone''
           | _ \<Rightarrow> io_fs_read env path)"

text \<open>A kernel that knows the size of the file and reads as much as it is asked for.\<close>

definition whole_reads :: "io_env \<Rightarrow> string \<Rightarrow> string \<Rightarrow> bool" where
  "whole_reads env path content \<longleftrightarrow>
     io_meta env path = Inr (length content) \<and> io_fs_read env path = Inr content
     \<and> (\<exists>fd. io_open env path = Inr fd \<and> io_read env fd (length content) = Inr content)"

section \<open>Properties\<close>

text \<open>The cores for pinning are processors in ascending order, one for each physical core of the
  processors the system lists without a gap; and of the worker threads that start, thread \<open>i\<close> is pinned
  to core \<open>i\<close> modulo their number, so that the threads are spread evenly.\<close>

theorem pinning_covers_cores:
  assumes "n < 2 ^ 64" "physical_core_ids sys \<noteq> []" "i < n"
    and "c < 512" "\<And>j. j \<le> c \<Longrightarrow> sys (topology_path j ''core_id'') \<noteq> None"
  shows "sorted_wrt (<) (physical_core_ids sys) \<and> distinct (map (core_of sys) (physical_core_ids sys))
    \<and> core_of sys c \<in> core_of sys ` set (physical_core_ids sys)
    \<and> pin_threads n (new_round_robin (physical_core_ids sys)) ! i
      = Some (physical_core_ids sys ! (i mod length (physical_core_ids sys)))"
proof -
  let ?ids = "physical_core_ids sys"
  have spec: "sorted_wrt (<) ?ids" "distinct (map (core_of sys) ?ids)" "set ?ids \<subseteq> {0..<512}"
    using core_loop_spec [of sys 0 512 "[]"] by (simp_all add: physical_core_ids_def)
  have "?ids ! (i mod length ?ids) \<in> set ?ids" using assms(2) by simp
  then have "?ids ! (i mod length ?ids) < 512" using spec(3) by auto
  then have "pin_current_thread (?ids ! (i mod length ?ids)) = Some (?ids ! (i mod length ?ids))"
    by (simp add: pin_current_thread_def)
  then show ?thesis
    using spec(1,2) pin_threads_nth [OF assms(3), of "new_round_robin ?ids"] assms(1,2)
      core_loop_covers [OF assms(4), of sys 0 "[]"] assms(5)
    by (simp add: new_round_robin_def physical_core_ids_def)
qed

definition demo_sys :: "string \<Rightarrow> string option" where
  "demo_sys path = (if path = topology_path 0 ''core_id'' then Some ''0'' else None)"

theorem pinning_covers_cores_witness:
  "pin_threads 3 (new_round_robin (physical_core_ids demo_sys)) ! 2 = Some 0"
proof -
  have d: "show_nat 0 \<noteq> show_nat 1" by code_simp
  then have t: "topology_path 1 ''core_id'' \<noteq> topology_path 0 ''core_id''" by (simp add: topology_path_def)
  have "core_loop demo_sys 1 511 seen = []" for seen
    using core_loop.simps(2) [of demo_sys 1 510 seen] t by (simp add: demo_sys_def)
  then have ids: "physical_core_ids demo_sys = [0]"
    using core_loop.simps(2) [of demo_sys 0 511 "[]"] by (simp add: physical_core_ids_def demo_sys_def)
  show ?thesis
    using pinning_covers_cores [of 3 demo_sys 2 0] by (simp add: ids demo_sys_def)
qed

text \<open>For a file whose size the system knows and that the ring reads whole, a read through the ring
  gives exactly what an ordinary read gives, whatever the state of the queue, unless its workers went
  away.\<close>

theorem ring_read_equivalent:
  assumes "whole_reads env path content" "CHR 0x00 \<notin> set path" "pool \<noteq> Pool_Gone"
  shows "read_file env pool path = io_fs_read env path"
  using assms
  by (cases pool) (auto simp: read_file_def read_file_uring_def whole_reads_def)

definition demo_io :: io_env where
  "demo_io = \<lparr>io_meta = (\<lambda>p. Inr 2), io_fs_read = (\<lambda>p. Inr ''hi''), io_open = (\<lambda>p. Inr 3), io_read = (\<lambda>fd n. Inr (take n ''hi''))\<rparr>"

theorem ring_read_equivalent_witness: "read_file demo_io Pool_Takes ''/a'' = Inr ''hi''"
  using ring_read_equivalent [of demo_io "''/a''" "''hi''" Pool_Takes] by (simp add: whole_reads_def demo_io_def)

text \<open>A read that the kernel cuts short is passed on as the whole file.\<close>

lemma short_read_is_whole_file:
  assumes "io_meta env path = Inr n" "0 < n" "n \<le> MAX_IORING_FILE_BYTES" "CHR 0x00 \<notin> set path"
    and "io_open env path = Inr fd" "io_read env fd n = Inr piece"
  shows "read_file env Pool_Takes path = Inr piece"
  using assms by (simp add: read_file_def read_file_uring_def)

end
