(* ===== verification/Health_Checks.thy ===== *)
theory Health_Checks
  imports Startup
begin

text \<open>
  The active health checks of upstream groups (\<open>src/upstream/mod.rs\<close>): the loop of the task that
  \<open>start_health_checks\<close> spawns, round by round, and which groups have one. The outcome of each probe
  is an argument; requests use the group between the rounds.
\<close>

section \<open>A round\<close>

definition health_round :: "(nat \<Rightarrow> bool) \<Rightarrow> nat \<Rightarrow> upstream_group \<Rightarrow> upstream_group" where
  "health_round ok now g = fold (\<lambda>i. health_probe i (ok i) now) [0..<length (up_peers g)] g"

fun health_rounds :: "((nat \<Rightarrow> bool) \<times> nat) list \<Rightarrow> upstream_group \<Rightarrow> upstream_group" where
  "health_rounds [] g = g"
| "health_rounds ((ok, now) # rs) g = health_rounds rs (health_round ok now g)"

text \<open>The groups with a task, each with its interval and the time a probe may take.\<close>

definition health_tasks :: "http_block \<Rightarrow> (string \<times> nat \<times> nat) list" where
  "health_tasks http =
     map (\<lambda>d. (ug_name d, ug_health_interval d, ug_health_timeout d))
       (filter (\<lambda>d. 0 < ug_health_interval d) (http_upstream_groups http))"

section \<open>What a round does to a peer\<close>

text \<open>One probe of one peer by itself, as a specification of the round.\<close>

definition probed :: "nat \<Rightarrow> nat \<Rightarrow> nat \<Rightarrow> bool \<Rightarrow> peer_state \<Rightarrow> peer_state" where
  "probed max_fails fail_timeout now ok p =
     (if ok then (if now < pe_down_until p then p\<lparr>pe_down_until := 0, pe_fails := 0\<rparr> else p)
      else let fails = wrap32 (pe_fails p + 1)
           in p\<lparr>pe_fails := fails,
                pe_down_until := (if max_fails \<le> fails \<and> 0 < fail_timeout then wrap64 (now + fail_timeout) else pe_down_until p)\<rparr>)"

lemma health_probe_peers:
  assumes "i < length (up_peers g)"
  shows "health_probe i ok now g
    = g\<lparr>up_peers := (up_peers g)[i := probed (up_max_fails g) (up_fail_timeout_secs g) now ok (up_peers g ! i)]\<rparr>"
  using assms by (auto simp: health_probe_def probed_def mark_fail_def on_peer_def Let_def)

lemma fold_probes:
  assumes "k \<le> length (up_peers g)"
  shows "fold (\<lambda>i. health_probe i (ok i) now) [0..<k] g
    = g\<lparr>up_peers := map (\<lambda>i. if i < k then probed (up_max_fails g) (up_fail_timeout_secs g) now (ok i) (up_peers g ! i)
                              else up_peers g ! i) [0..<length (up_peers g)]\<rparr>"
  using assms
proof (induction k)
  case 0
  then show ?case by (simp add: map_nth)
next
  case (Suc k)
  then show ?case
    by (simp add: health_probe_peers) (intro arg_cong [where f = "\<lambda>ps. g\<lparr>up_peers := ps\<rparr>"] nth_equalityI, auto simp: nth_list_update less_Suc_eq)
qed

lemma health_round_peers:
  "health_round ok now g
   = g\<lparr>up_peers := map (\<lambda>i. probed (up_max_fails g) (up_fail_timeout_secs g) now (ok i) (up_peers g ! i)) [0..<length (up_peers g)]\<rparr>"
  unfolding health_round_def by (simp add: fold_probes cong: map_cong)

text \<open>A round is a run of the steps under which the connection counters are exact.\<close>

lemma health_round_steps: "up_step\<^sup>*\<^sup>* (g, conns) (health_round ok now g, conns)"
proof -
  have "k \<le> length (up_peers g) \<Longrightarrow> up_step\<^sup>*\<^sup>* (g, conns) (fold (\<lambda>i. health_probe i (ok i) now) [0..<k] g, conns)" for k
  proof (induction k)
    case (Suc k)
    then have "up_step\<^sup>*\<^sup>* (g, conns) (fold (\<lambda>i. health_probe i (ok i) now) [0..<k] g, conns)" by simp
    moreover have "k < length (up_peers (fold (\<lambda>i. health_probe i (ok i) now) [0..<k] g))"
      using Suc.prems by (simp add: fold_probes)
    then have "up_step (fold (\<lambda>i. health_probe i (ok i) now) [0..<k] g, conns)
        (health_probe k (ok k) now (fold (\<lambda>i. health_probe i (ok i) now) [0..<k] g), conns)" by (rule up_step.probe)
    ultimately show ?case by simp
  qed simp
  then show ?thesis by (simp add: health_round_def)
qed

lemma health_round_conns: "conns_ok (g, conns) \<Longrightarrow> conns_ok (health_round ok now g, conns)"
  by (rule group_run.reachable_inv [OF health_round_steps])

section \<open>Properties\<close>

text \<open>Rounds that all fail for a peer: after as many of them as the group allows failures, the peer is
  down until its time-out after the last of them, whatever the other peers do.\<close>

lemma failing_rounds:
  assumes "i < length (up_peers g)" "list_all (\<lambda>(ok, now). \<not> ok i) rs" "pe_fails (up_peers g ! i) + length rs < 2 ^ 32"
  shows "length (up_peers (health_rounds rs g)) = length (up_peers g)
    \<and> pe_fails (up_peers (health_rounds rs g) ! i) = pe_fails (up_peers g ! i) + length rs
    \<and> up_max_fails (health_rounds rs g) = up_max_fails g \<and> up_fail_timeout_secs (health_rounds rs g) = up_fail_timeout_secs g"
  using assms
proof (induction rs arbitrary: g)
  case (Cons r rs)
  obtain ok now where r: "r = (ok, now)" by (cases r)
  have "pe_fails (up_peers (health_round ok now g) ! i) = pe_fails (up_peers g ! i) + 1"
    using Cons.prems by (simp add: health_round_peers probed_def r Let_def)
  then show ?case using Cons.IH [of "health_round ok now g"] Cons.prems by (simp add: r health_round_peers)
qed simp

lemma health_rounds_append: "health_rounds (rs @ [r]) g = health_round (fst r) (snd r) (health_rounds rs g)"
  by (induction rs arbitrary: g) (auto simp: split_beta, (cases r; simp))

theorem dead_peer_goes_down:
  assumes "i < length (up_peers g)" "list_all (\<lambda>(ok, now). \<not> ok i) (rs @ [(ok, now)])"
    and "up_max_fails g \<le> length rs + 1" "pe_fails (up_peers g ! i) + length rs + 1 < 2 ^ 32"
    and "0 < up_fail_timeout_secs g" "now + up_fail_timeout_secs g < 2 ^ 64"
  shows "pe_down_until (up_peers (health_rounds (rs @ [(ok, now)]) g) ! i) = now + up_fail_timeout_secs g"
proof -
  let ?h = "health_rounds rs g"
  have h: "length (up_peers ?h) = length (up_peers g)" "pe_fails (up_peers ?h ! i) = pe_fails (up_peers g ! i) + length rs"
    "up_max_fails ?h = up_max_fails g" "up_fail_timeout_secs ?h = up_fail_timeout_secs g"
    using failing_rounds [OF assms(1), of rs] assms(2,4) by auto
  show ?thesis
    using h assms by (simp add: health_rounds_append health_round_peers probed_def Let_def)
qed

theorem dead_peer_goes_down_witness:
  "pe_down_until (up_peers (health_rounds [(\<lambda>_. False, 10), (\<lambda>_. False, 20)]
     (new_group \<lparr>ugc_name = ''u'', ugc_peers = [\<lparr>pcfg_addr = demo_addr 1, pcfg_weight = 1\<rparr>], ugc_policy = RoundRobin,
        ugc_fail_timeout_secs = 30, ugc_max_fails = 2\<rparr>)) ! 0) = 50"
  using dead_peer_goes_down [of 0 "new_group \<lparr>ugc_name = ''u'', ugc_peers = [\<lparr>pcfg_addr = demo_addr 1, pcfg_weight = 1\<rparr>],
      ugc_policy = RoundRobin, ugc_fail_timeout_secs = 30, ugc_max_fails = 2\<rparr>" "[(\<lambda>_. False, 10)]" "\<lambda>_. False" 20]
  by (simp add: new_group_def new_peer_def)

text \<open>A round in which every probe succeeds makes every peer available.\<close>

lemma all_recover:
  assumes "i < length (up_peers g)"
  shows "pe_down_until (up_peers (health_round (\<lambda>_. True) now g) ! i) \<le> now"
  using assms by (simp add: health_round_peers probed_def)

text \<open>A probe that succeeds while the peer is not down leaves the count of failures: failures with
  successes between them add up.\<close>

lemma failures_add_up:
  assumes "i < length (up_peers g)" "pe_down_until (up_peers g ! i) \<le> now" "ok i"
  shows "pe_fails (up_peers (health_round ok now g) ! i) = pe_fails (up_peers g ! i)"
  using assms by (simp add: health_round_peers probed_def)

end
