(* ===== verification/Program.thy ===== *)
theory Program
  imports Listener Http2 Tls Icmp_Guard Platform Health_Checks
begin

text \<open>
  The program as a whole: \<open>async_main\<close> of \<open>src/main.rs\<close>, which loads the configuration, sets up the
  state and the guards on the host and starts the listeners; what a listener does before it accepts
  connections, and what it does with one (\<open>src/server/listener.rs\<close>). Logging, the runtime and the
  watch for signals are left out; what happens on Ctrl-C is an operation of its own.
\<close>

section \<open>A connection\<close>

text \<open>How a connection that was accepted is served. The result of the TLS handshake is an argument:
  an error, or the protocol that ALPN chose.\<close>

datatype protocol = Plain_Http1 | Tls_Http1 | Tls_Http2

definition choose_protocol :: "string option \<Rightarrow> tls_server option \<Rightarrow> string + string option \<Rightarrow> string + protocol" where
  "choose_protocol nodelay_error tls handshake =
     (case nodelay_error of
        Some e \<Rightarrow> Inl e
      | None \<Rightarrow>
          (case tls of
             None \<Rightarrow> Inr Plain_Http1
           | Some _ \<Rightarrow>
               (case handshake of
                  Inl _ \<Rightarrow> Inl ''TLS handshake failed''
                | Inr alpn \<Rightarrow> Inr (if alpn = Some ''h2'' then Tls_Http2 else Tls_Http1))))"

text \<open>The streams of an HTTP/2 connection, as \<open>accept\<close> gives them; each is a task of its own. The result
  is the tasks that were started and the error that ended the connection, if one did.\<close>

fun serve_h2 :: "(string + 'r) list \<Rightarrow> 'r list \<times> string option" where
  "serve_h2 [] = ([], None)"
| "serve_h2 (Inl e # rs) = ([], Some e)"
| "serve_h2 (Inr r # rs) = (case serve_h2 rs of (tasks, e) \<Rightarrow> (r # tasks, e))"

text \<open>What the tasks do, in the order in which they are scheduled.\<close>

fun run_streams ::
    "http_lib \<Rightarrow> socket_addr \<Rightarrow> ('c handler_env \<times> h2_request) list \<Rightarrow> 'c handler_state
     \<Rightarrow> (string + h2_response) list \<times> 'c handler_state" where
  "run_streams lib peer [] st = ([], st)"
| "run_streams lib peer ((env, req) # rs) st =
     (case handle_stream lib env peer req st of
        (r, st) \<Rightarrow> (case run_streams lib peer rs st of (out, st) \<Rightarrow> (r # out, st)))"

datatype 'c served = Refused string | Http1 "'c connection_end" "string list" | Streams "(string + h2_response) list"

text \<open>\<open>schedule\<close> is the order in which the tasks of an HTTP/2 connection run.\<close>

definition handle_connection_tls ::
    "string option \<Rightarrow> tls_server option \<Rightarrow> string + string option \<Rightarrow> (nat \<Rightarrow> 'c turn) \<Rightarrow> http_lib
     \<Rightarrow> (string + 'c handler_env \<times> h2_request) list \<Rightarrow> (('c handler_env \<times> h2_request) list \<Rightarrow> ('c handler_env \<times> h2_request) list)
     \<Rightarrow> socket_addr \<Rightarrow> 'c handler_state \<Rightarrow> 'c served \<times> 'c handler_state" where
  "handle_connection_tls nodelay_error tls handshake turns lib accepted schedule peer st =
     (case choose_protocol nodelay_error tls handshake of
        Inl e \<Rightarrow> (Refused e, st)
      | Inr Plain_Http1 \<Rightarrow> (case handle_plain turns peer st of (how, out, st) \<Rightarrow> (Http1 how out, st))
      | Inr Tls_Http1 \<Rightarrow> (case handle_generic turns peer st of (how, out, st) \<Rightarrow> (Http1 how out, st))
      | Inr Tls_Http2 \<Rightarrow>
          (case run_streams lib peer (schedule (fst (serve_h2 accepted))) st of (out, st) \<Rightarrow> (Streams out, st)))"

section \<open>A listener\<close>

text \<open>\<open>Listener::run\<close> before its loop: the certificate if it needs one, then the socket. \<open>bind\<close> is the
  error of binding the address.\<close>

definition listener_start ::
    "host_env \<Rightarrow> tls_lib \<Rightarrow> http_block \<Rightarrow> (socket_addr \<Rightarrow> string option) \<Rightarrow> socket_addr \<times> tls_config option
     \<Rightarrow> (socket_addr \<times> tls_server option) host" where
  "listener_start host lib http bind = (\<lambda>(addr, tls).
     host_then
       (case tls of
          None \<Rightarrow> host_ok None
        | Some t \<Rightarrow>
            host_then (load_server_config host lib (tls_cert_path t) (tls_key_path t) (tls_domains http))
              (\<lambda>s. host_ok (Some s)))
       (\<lambda>server. case bind addr of Some e \<Rightarrow> host_err e | None \<Rightarrow> host_ok (addr, server)))"

text \<open>The loop: an error of \<open>accept\<close> is logged, a connection is a new task.\<close>

definition accept_loop :: "(string + 'x) list \<Rightarrow> 'x list" where
  "accept_loop events = List.map_filter (\<lambda>e. case e of Inl _ \<Rightarrow> None | Inr x \<Rightarrow> Some x) events"

section \<open>The program\<close>

record cli =
  cli_config :: string
  cli_test :: bool

record 'c service =
  sv_state :: "'c handler_state"
  sv_guard :: icmp_guard
  sv_firewall :: firewall
  sv_listeners :: "(socket_addr \<times> tls_config option) list"

definition users_path :: "string \<Rightarrow> string" where
  "users_path config = path_join (case path_parent config of None \<Rightarrow> ''/etc/runnginx'' | Some d \<Rightarrow> d) ''users.toml''"

text \<open>From the configuration on. \<open>order\<close> is the order in which the set of the ports is walked. Without a
  listener the program ends with an error, which drops the guard.\<close>

definition start_service ::
    "mu_env \<Rightarrow> host_env \<Rightarrow> string option \<Rightarrow> nat \<Rightarrow> (nat set \<Rightarrow> nat list) \<Rightarrow> string \<Rightarrow> config \<Rightarrow> 'c service host" where
  "start_service users host dry_run pid order path cfg =
     host_then (host_get (\<lambda>tr. he_read host tr (users_path path))) (\<lambda>users_toml.
     host_then (guard_setup host pid (cfg_icmp_protection cfg)) (\<lambda>guard.
     host_then (start_firewall host dry_run cfg (order (listen_ports (cfg_http cfg)))) (\<lambda>fw.
     if listeners (cfg_http cfg) = []
     then host_then (teardown host guard) (\<lambda>_. host_err ''no listen directives found in config'')
     else host_ok \<lparr>sv_state = start_state users users_toml cfg, sv_guard = guard, sv_firewall = fw,
                   sv_listeners = listeners (cfg_http cfg)\<rparr>)))"

definition async_main ::
    "conf_env \<Rightarrow> mu_env \<Rightarrow> host_env \<Rightarrow> string option \<Rightarrow> nat \<Rightarrow> (nat set \<Rightarrow> nat list) \<Rightarrow> cli \<Rightarrow> 'c service option host" where
  "async_main env users host dry_run pid order c =
     (case load env (cli_config c) of
        Inl _ \<Rightarrow> host_err ''configuration''
      | Inr cfg \<Rightarrow>
          if cli_test c then host_ok None
          else host_then (start_service users host dry_run pid order (cli_config c) cfg) (\<lambda>s. host_ok (Some s)))"

text \<open>Ctrl-C: the firewall is closed and the process exits, without the destructor of the guard.\<close>

definition on_ctrl_c :: "host_env \<Rightarrow> 'c service \<Rightarrow> firewall host" where
  "on_ctrl_c host s = close_all host (sv_firewall s)"

text \<open>SIGHUP: the configuration is loaded again and only its success is logged.\<close>

definition on_sighup :: "conf_env \<Rightarrow> string \<Rightarrow> 'c service \<Rightarrow> (conf_error + nat) \<times> 'c service" where
  "on_sighup env path s =
     (case load env path of Inl e \<Rightarrow> (Inl e, s) | Inr cfg \<Rightarrow> (Inr (length (http_servers (cfg_http cfg))), s))"

lemma sighup_reloads_nothing: "snd (on_sighup env path s) = s"
  by (simp add: on_sighup_def split: sum.split)

section \<open>Worker threads\<close>

text \<open>\<open>main\<close> loads the configuration once before the runtime, only for the number of threads and their
  pinning: the processor of each worker thread in the order in which they start.\<close>

definition main_threads :: "(string \<Rightarrow> string option) \<Rightarrow> config option \<Rightarrow> nat option list" where
  "main_threads sys pre_cfg =
     (let cores = physical_core_ids sys;
          pinned = (case pre_cfg of Some cfg \<Rightarrow> if cfg_numa_pin cfg then cores else [] | None \<Rightarrow> [])
      in pin_threads (worker_threads (length cores) pre_cfg) (new_round_robin pinned))"

lemma pin_threads_length: "length (pin_threads n rr) = n"
  by (induction n arbitrary: rr) simp_all

lemma threads_unpinned: "\<not> cfg_numa_pin cfg \<Longrightarrow> main_threads sys (Some cfg) = replicate (worker_threads (length (physical_core_ids sys)) (Some cfg)) None"
proof -
  have "pin_threads n (new_round_robin []) = replicate n None" for n
    by (induction n) (simp_all add: pin_next_def new_round_robin_def)
  then show "\<not> cfg_numa_pin cfg \<Longrightarrow> ?thesis" by (simp add: main_threads_def Let_def)
qed

text \<open>With pinning and an automatic number of threads there is one thread for each core, pinned to it.\<close>

lemma threads_one_per_core:
  assumes "cfg_numa_pin cfg" "cfg_worker_processes cfg = Auto" "physical_core_ids sys \<noteq> []"
  shows "main_threads sys (Some cfg) = map Some (physical_core_ids sys)"
proof (rule nth_equalityI)
  let ?ids = "physical_core_ids sys"
  have "Suc 0 \<le> length ?ids" using assms(3) by (cases ?ids) simp_all
  then have threads: "main_threads sys (Some cfg) = pin_threads (length ?ids) (new_round_robin ?ids)"
    using assms(1,2) by (simp add: main_threads_def worker_threads_def max_def Let_def)
  then show "length (main_threads sys (Some cfg)) = length (map Some ?ids)" by (simp add: pin_threads_length)
  have small: "set ?ids \<subseteq> {0..<512}" "sorted_wrt (<) ?ids"
    using core_loop_spec [of sys 0 512 "[]"] by (simp_all add: physical_core_ids_def)
  then have "length ?ids \<le> 512"
    using card_mono [of "{0..<512}" "set ?ids"] distinct_card [of ?ids] strict_sorted_iff [of ?ids] by simp
  then have len: "length ?ids \<le> 2 ^ 64" by simp
  fix i
  assume "i < length (main_threads sys (Some cfg))"
  then have i: "i < length ?ids" by (simp add: threads pin_threads_length)
  then have "?ids ! i < 512" using small(1) nth_mem by fastforce
  then show "main_threads sys (Some cfg) ! i = map Some ?ids ! i"
    using pin_threads_nth [OF i, of "new_round_robin ?ids"] len assms(3) i
    by (simp add: threads new_round_robin_def pin_current_thread_def)
qed

section \<open>What starting does to the host\<close>

text \<open>Besides looking for programs, the start runs the programs of the firewalls and keeps its lock file.\<close>

definition start_effect :: "effect \<Rightarrow> bool" where
  "start_effect e =
     (case e of
        Run prog args \<Rightarrow> prog \<in> {''which'', ''ufw'', ''nft'', ''iptables'', ''ip6tables''}
      | Write_File p _ \<Rightarrow> p = LOCK_FILE
      | Remove_File p \<Rightarrow> p = LOCK_FILE
      | _ \<Rightarrow> False)"

lemma only_start_run [only_rules]:
  "prog \<in> {''which'', ''ufw'', ''nft'', ''iptables'', ''ip6tables''} \<Longrightarrow> only start_effect (host_run env prog args)"
  by (intro only_rules) (simp add: start_effect_def)

lemma only_fw_run [only_rules]:
  "prog \<in> {''which'', ''ufw'', ''nft'', ''iptables'', ''ip6tables''} \<Longrightarrow> only start_effect (fw_run env prog args)"
  unfolding fw_run_def by (intro only_rules)

lemma only_run_cmd [only_rules]:
  "prog \<in> {''which'', ''ufw'', ''nft'', ''iptables'', ''ip6tables''} \<Longrightarrow> only start_effect (run_cmd env prog args)"
  unfolding run_cmd_def by (intro only_rules)

lemma only_cmd_ok [only_rules]:
  "prog \<in> {''which'', ''ufw'', ''nft'', ''iptables'', ''ip6tables''} \<Longrightarrow> only start_effect (cmd_ok env prog args)"
  unfolding cmd_ok_def by (intro only_rules)

lemma only_detect [only_rules]: "only start_effect (detect env)"
  unfolding detect_def cmd_exists_def ufw_active_def by (intro only_rules) simp_all

lemma only_new_firewall [only_rules]: "only start_effect (new_firewall env dry_run manage override tag)"
  unfolding new_firewall_def by (intro only_rules)

lemma only_open_rule [only_rules]: "only start_effect (open_rule env fw p)"
  unfolding open_rule_def by (cases p; cases "fw_backend fw"; simp; intro only_rules conjI impI; simp)

lemma only_open_ports [only_rules]: "only start_effect (open_ports env fw ports)"
proof -
  have "only start_effect (open_each env fw ps)" for ps
    by (induction env fw ps rule: open_each.induct) (auto intro!: only_rules)
  then show ?thesis unfolding open_ports_def by (intro only_rules)
qed

lemma only_apply_rules [only_rules]: "only start_effect (apply_rules env b)"
  unfolding apply_rules_def by (cases b; simp; intro only_rules; simp)

lemma only_remove_rules [only_rules]: "only start_effect (remove_rules env b)"
  unfolding remove_rules_def by (cases b; simp; intro only_rules; simp)

lemma only_guard_setup [only_rules]: "only start_effect (guard_setup env pid enabled)"
  unfolding guard_setup_def detect_backend_def write_lock_def by (intro only_rules) (simp_all add: start_effect_def)

lemma only_teardown [only_rules]: "only start_effect (teardown env g)"
  unfolding teardown_def by (intro only_rules) (simp_all add: start_effect_def)

lemma only_start_service [only_rules]: "only start_effect (start_service users host dry_run pid order path cfg)"
  unfolding start_service_def start_firewall_def by (intro only_rules)

text \<open>A test of the configuration, and a configuration that is not accepted, leave the host alone.\<close>

lemma async_main_quiet:
  assumes "cli_test c \<or> (\<exists>e. load env (cli_config c) = Inl e)"
  shows "snd (async_main env users host dry_run pid order c tr) = tr"
  using assms by (auto simp: async_main_def host_err_def host_ok_def split: sum.split)

lemma async_main_effects: "only start_effect (async_main env users host dry_run pid order c)"
  unfolding async_main_def by (intro only_rules)

section \<open>Properties\<close>

text \<open>A listener's port is among the ports the firewall opens.\<close>

lemma listener_ports:
  "(addr, tls) \<in> set (listeners http) \<Longrightarrow> unat (sa_port addr) \<in> listen_ports http"
  by (force simp: listeners_def listen_ports_def)

text \<open>The firewall that the configuration names.\<close>

definition named_firewall :: "config \<Rightarrow> backend \<Rightarrow> bool" where
  "named_firewall cfg b \<longleftrightarrow>
     cfg_firewall_manage cfg \<and> (cfg_firewall_backend cfg, b) \<in> {(Some ''ufw'', Ufw), (Some ''iptables'', Iptables)}"

lemma new_firewall_named:
  assumes "named_firewall cfg b" "dry_run \<noteq> Some ''1''"
  shows "new_firewall env dry_run (cfg_firewall_manage cfg) (cfg_firewall_backend cfg) (cfg_firewall_tag cfg) tr
    = (Inr \<lparr>fw_backend = b, fw_tag = cfg_firewall_tag cfg, fw_dry_run = False, fw_opened = []\<rparr>, tr)"
  using assms by (auto simp: new_firewall_def named_firewall_def host_then_def host_ok_def)


definition demo_config :: config where
  "demo_config = (default_config demo_env)\<lparr>cfg_firewall_backend := Some ''ufw'', cfg_icmp_protection := False,
     cfg_http := default_http_block\<lparr>http_servers := [empty_server\<lparr>srv_listen :=
       [\<lparr>ld_addr = demo_addr 80, ld_tls = False, ld_http2 = False, ld_default_server = False\<rparr>, \<lparr>ld_addr = demo_addr 443, ld_tls = True, ld_http2 = False, ld_default_server = False\<rparr>]\<rparr>]\<rparr>\<rparr>"


text \<open>A connection is served as HTTP/2 only when a certificate is set up and the client chose it, and without
  one the handler never takes it for a secure one.\<close>

lemma protocol_of_listener:
  "choose_protocol nodelay None handshake \<in> {Inr Plain_Http1} \<union> range Inl"
  "choose_protocol nodelay tls handshake = Inr Tls_Http2 \<Longrightarrow> tls \<noteq> None \<and> handshake = Inr (Some ''h2'')"
  by (auto simp: choose_protocol_def split: option.splits sum.splits if_splits)

text \<open>An error of \<open>accept\<close> loses no other connection.\<close>

lemma accept_loop_all: "accept_loop (xs @ Inl e # ys) = accept_loop xs @ accept_loop ys"
  by (simp add: accept_loop_def List.map_filter_def)

text \<open>What every stream keeps, all streams of a connection keep, in every order.\<close>

lemma run_streams_invariant:
  assumes "\<And>env req s. (env, req) \<in> set rs \<Longrightarrow> P s \<Longrightarrow> P (snd (handle_stream lib env peer req s))" "P st"
  shows "P (snd (run_streams lib peer rs st))"
  using assms
proof (induction lib peer rs st rule: run_streams.induct)
  case (2 lib peer env req rs st)
  have "P (snd (handle_stream lib env peer req st))" using "2.prems" by simp
  then show ?case using "2.IH" "2.prems"(1) by (cases "handle_stream lib env peer req st") (auto simp: split_beta)
qed simp

end
