(* ===== verification/Http2_Props.thy ===== *)
theory Http2_Props
  imports Http2
begin

text \<open>
  The way back of an HTTP/2 stream: the response of the handler, which is HTTP/1.1 text, reaches the
  client with its status, its fields and its body. What the \<open>httparse\<close> and \<open>http\<close> crates do with
  well-formed text is stated as a law, and a parser that obeys it is given.
\<close>

section \<open>What the crates promise\<close>

definition token_char :: "char \<Rightarrow> bool" where
  "token_char c \<longleftrightarrow> is_ascii_alphanumeric c \<or> c \<in> set ''!#$%&*+-.^_|~''"

definition visible :: "string \<Rightarrow> bool" where
  "visible s \<longleftrightarrow> list_all (\<lambda>c. 32 \<le> ascii_code c \<and> ascii_code c < 127) s"

text \<open>A field as it can be written on a line: a token, and a visible value without blanks around it.\<close>

definition field_ok :: "string \<times> string \<Rightarrow> bool" where
  "field_ok f \<longleftrightarrow> fst f \<noteq> [] \<and> list_all token_char (fst f) \<and> visible (snd f) \<and> str_trim (snd f) = snd f"

definition http1_head :: "nat \<Rightarrow> string \<Rightarrow> (string \<times> string) list \<Rightarrow> string" where
  "http1_head status reason fs =
     join_crlf ((''HTTP/1.1 '' @ show_nat status @ '' '' @ reason) # map header_line fs) @ CRLF @ CRLF"

definition crates_ok :: "http_lib \<Rightarrow> bool" where
  "crates_ok lib \<longleftrightarrow>
     (\<forall>status reason fs body. 100 \<le> status \<and> status < 1000 \<and> visible reason \<and> length fs \<le> 64 \<and> list_all field_ok fs \<longrightarrow>
        hl_parse lib (http1_head status reason fs @ body)
          = Some \<lparr>h1_code = Some status, h1_headers = fs, h1_end = length (http1_head status reason fs)\<rparr>)
     \<and> (\<forall>n. n \<noteq> [] \<and> list_all token_char n \<longrightarrow> hl_name lib n = Some (to_ascii_lowercase n))
     \<and> (\<forall>v. visible v \<longrightarrow> hl_value_ok lib v)
     \<and> (\<forall>s. 100 \<le> s \<and> s < 1000 \<longrightarrow> hl_status_ok lib s)"

section \<open>A response of the handler as such text\<close>

definition response_fields :: "(string \<times> string) list \<Rightarrow> bool \<Rightarrow> (string \<times> string) list" where
  "response_fields headers ka =
     (''Server'', ''RunNginx/'' @ PKG_VERSION) # headers @ [(''Connection'', if ka then ''keep-alive'' else ''close'')]"

lemma format_response_head:
  "format_response status headers ka body = http1_head status (status_reason status) (response_fields headers ka) @ body"
  by (simp add: format_response_lines http1_head_def response_fields_def response_lines_def header_line_def)

lemma status_reason_visible: "visible (status_reason c)"
proof -
  have "list_all (\<lambda>(k, v). visible v) status_table"
    by (simp add: status_table_def visible_def ascii_code_def)
  moreover have "visible ''Unknown''" by (simp add: visible_def ascii_code_def)
  ultimately show ?thesis
    using map_of_SomeD [of status_table c] by (auto simp: status_reason_def list_all_iff split: option.splits)
qed

lemma visible_utf8: "visible s \<Longrightarrow> is_utf8 s"
  by (rule is_utf8_ascii) (auto simp: visible_def list_all_iff)

text \<open>Inserting fields with different names appends them.\<close>

lemma fold_insert_distinct:
  assumes "crates_ok lib" "list_all field_ok fs" "distinct (map (to_ascii_lowercase \<circ> fst) fs)"
    and "set (map fst acc) \<inter> set (map (to_ascii_lowercase \<circ> fst) fs) = {}"
  shows "fold (insert_field lib) fs acc = acc @ map (\<lambda>(n, v). (to_ascii_lowercase n, v)) fs"
  using assms(2-4)
proof (induction fs arbitrary: acc)
  case (Cons f fs)
  obtain n v where f: "f = (n, v)" by (cases f)
  have lib: "hl_name lib n = Some (to_ascii_lowercase n)" "hl_value_ok lib v"
    using assms(1) Cons.prems(1) by (auto simp: crates_ok_def field_ok_def f)
  have "AList.update k v acc = acc @ [(k, v)]" if "k \<notin> set (map fst acc)" for k
    using that by (induction acc) auto
  then have "insert_field lib f acc = acc @ [(to_ascii_lowercase n, v)]"
    using lib Cons.prems(3) by (auto simp: insert_field_def f)
  then show ?case using Cons by (auto simp: f)
qed simp

section \<open>A parser that obeys the laws\<close>

definition split_field :: "string \<Rightarrow> string \<times> string" where
  "split_field l = (takeWhile (\<lambda>c. c \<noteq> CHR '':'') l, drop 2 (dropWhile (\<lambda>c. c \<noteq> CHR '':'') l))"

definition read_response :: "string \<Rightarrow> h1_head option" where
  "read_response bytes =
     (case find_double_crlf bytes of
        None \<Rightarrow> None
      | Some n \<Rightarrow>
          (let ls = str_lines (take n bytes)
           in Some \<lparr>h1_code = parse_uint 16 (take 3 (drop 9 (hd ls))), h1_headers = map split_field (tl ls), h1_end = n + 4\<rparr>))"

definition reference_crates :: http_lib where
  "reference_crates = \<lparr>hl_parse = read_response, hl_name = (\<lambda>n. Some (to_ascii_lowercase n)), hl_value_ok = visible,
     hl_status_ok = (\<lambda>s. 100 \<le> s \<and> s < 1000)\<rparr>"

lemma show_nat_three: "100 \<le> n \<Longrightarrow> n < 1000 \<Longrightarrow> length (show_nat n) = 3"
proof -
  assume n: "100 \<le> n" "n < 1000"
  then have "\<not> n < 10" "\<not> n div 10 < 10" "n div 10 div 10 < 10" by linarith+
  then show ?thesis
    by (simp only: show_nat.simps [of n] show_nat.simps [of "n div 10"] show_nat.simps [of "n div 10 div 10"] if_True if_False) simp
qed

lemma token_char_plain: "token_char c \<Longrightarrow> c \<noteq> CHR '':'' \<and> c \<noteq> CR \<and> c \<noteq> LF"
  by (auto simp: token_char_def is_ascii_alphanumeric_def is_ascii_digit_def ascii_code_def CR_def LF_def)

lemma visible_clean: "visible s \<Longrightarrow> CR \<notin> set s \<and> LF \<notin> set s"
  by (auto simp: visible_def list_all_iff ascii_code_def CR_def LF_def)

lemma field_line: "field_ok f \<Longrightarrow> good_line (header_line f) \<and> split_field (header_line f) = f"
proof -
  assume f: "field_ok f"
  then have n: "CHR '':'' \<notin> set (fst f)" "CR \<notin> set (fst f)" "LF \<notin> set (fst f)"
    using token_char_plain by (auto simp: field_ok_def list_all_iff)
  then have "takeWhile (\<lambda>c. c \<noteq> CHR '':'') (header_line f) = fst f"
    "dropWhile (\<lambda>c. c \<noteq> CHR '':'') (header_line f) = '': '' @ snd f"
    by (auto simp: header_line_def takeWhile_append dropWhile_append)
  then show ?thesis
    using n f visible_clean [of "snd f"] by (auto simp: split_field_def good_line_def header_line_def field_ok_def CR_def LF_def)
qed

lemma read_response_head:
  assumes "100 \<le> status" "status < 1000" "visible reason" "list_all field_ok fs"
  shows "read_response (http1_head status reason fs @ body)
    = Some \<lparr>h1_code = Some status, h1_headers = fs, h1_end = length (http1_head status reason fs)\<rparr>"
proof -
  let ?line = "''HTTP/1.1 '' @ show_nat status @ '' '' @ reason"
  let ?ls = "?line # map header_line fs"
  have digits: "CR \<notin> set (show_nat status)" "LF \<notin> set (show_nat status)"
    using show_nat_digits [of status] by (auto simp: list_all_iff is_ascii_digit_def ascii_code_def CR_def LF_def)
  then have "good_line ?line" using visible_clean [OF assms(3)] by (auto simp: good_line_def CR_def LF_def)
  then have good: "list_all good_line ?ls" using field_line assms(4) by (auto simp: list_all_iff)
  have bytes: "http1_head status reason fs @ body = join_crlf ?ls @ CRLF @ CRLF @ body" by (simp add: http1_head_def)
  have pos: "find_double_crlf (http1_head status reason fs @ body) = Some (length (join_crlf ?ls))"
    unfolding bytes by (rule find_header_end [OF good]) simp
  have ls: "str_lines (take (length (join_crlf ?ls)) (http1_head status reason fs @ body)) = ?ls"
    unfolding bytes using str_lines_join [OF good] by simp
  have code: "parse_uint 16 (take 3 (drop 9 ?line)) = Some status"
    using show_nat_three [OF assms(1,2)] parse_show_nat [of status 16] assms(2) by simp
  have "map split_field (map header_line fs) = fs"
    using field_line assms(4) by (auto simp: list_all_iff intro: map_idI)
  then show ?thesis using pos ls code by (simp add: read_response_def Let_def http1_head_def)
qed

lemma reference_crates_ok: "crates_ok reference_crates"
  unfolding crates_ok_def reference_crates_def using read_response_head by simp

section \<open>Properties\<close>

text \<open>C37: an HTTP/2 client sees the response that an HTTP/1.1 client would see. When the handler answers
  the request with a response whose fields are well-formed and have different names, the stream is
  answered with the same status and the same body, byte for byte, and with the same fields in order
  under lower-case names, without those that belong to an HTTP/1.1 connection.\<close>

theorem h2_response_same:
  assumes "crates_ok lib" "collect_body (h2_chunks req) [] = Inr body"
    and "handle env (h1_request req body) peer True st = (result, st')"
    and "hr_bytes result = format_response status headers ka out" "100 \<le> status" "status < 1000"
    and "list_all field_ok headers" "length headers \<le> 62"
    and "distinct (''server'' # map (to_ascii_lowercase \<circ> fst) headers)"
  shows "handle_stream lib env peer req st =
    (Inr \<lparr>h2r_status = status,
          h2r_headers = map (\<lambda>(n, v). (to_ascii_lowercase n, v))
            (filter (\<lambda>(n, v). \<not> dropped_response_header n) ((''Server'', ''RunNginx/'' @ PKG_VERSION) # headers)),
          h2r_body = out\<rparr>, st')"
proof -
  let ?fs = "response_fields headers ka"
  let ?kept = "filter (\<lambda>(n, v). \<not> dropped_response_header n) ((''Server'', ''RunNginx/'' @ PKG_VERSION) # headers)"
  have ends: "field_ok (''Server'', ''RunNginx/'' @ PKG_VERSION)" "field_ok (''Connection'', ''keep-alive'')" "field_ok (''Connection'', ''close'')"
    by code_simp+
  have drop: "dropped_response_header ''Connection''" and server: "to_ascii_lowercase ''Server'' = ''server''" by code_simp+
  have ok: "list_all field_ok ?fs" using assms(7) ends by (simp add: response_fields_def)
  have parsed: "hl_parse lib (format_response status headers ka out)
      = Some \<lparr>h1_code = Some status, h1_headers = ?fs, h1_end = length (http1_head status (status_reason status) ?fs)\<rparr>"
    using assms(1,5,6,8) ok status_reason_visible unfolding crates_ok_def format_response_head by (auto simp: response_fields_def)
  have okk: "list_all field_ok ?kept" using assms(7) ends(1) by (auto simp: list_all_iff)
  have lossy: "map (\<lambda>(n, v). (n, from_utf8_lossy v)) ?kept = ?kept"
    using okk visible_utf8 by (intro map_idI) (auto simp only: list_all_iff field_ok_def from_utf8_lossy_valid snd_conv case_prod_conv split: prod.split)
  have kept: "filter (\<lambda>(n, v). \<not> dropped_response_header n) ?fs = ?kept" using drop by (simp add: response_fields_def)
  have "parse_h1_response lib (format_response status headers ka out) = (status, ?kept, out)"
    by (simp only: parse_h1_response_def parsed option.case h1_head.simps kept lossy) (simp add: format_response_head)
  moreover have "fold (insert_field lib) ?kept [] = map (\<lambda>(n, v). (to_ascii_lowercase n, v)) ?kept"
  proof -
    have "distinct (map (to_ascii_lowercase \<circ> fst) ?kept)"
      using assms(9) server by (auto simp: distinct_map_filter)
    then show ?thesis using fold_insert_distinct [OF assms(1) okk] by simp
  qed
  moreover have "hl_status_ok lib status" using assms(1,5,6) by (simp add: crates_ok_def)
  ultimately show ?thesis using assms(2-4) by (simp add: handle_stream_def h2_response_of_def)
qed

definition blocked_state :: "nat handler_state" where
  "blocked_state = demo_state\<lparr>hc_scan := \<lparr>sd_config = scan_config_of (default_config demo_env),
     sd_tracker = [sa_ip demo_peer \<mapsto> (new_record 0)\<lparr>ir_blocked_until := Some (Suc (hv_now demo_handler))\<rparr>]\<rparr>\<rparr>"

theorem h2_response_same_witness:
  "\<exists>hs st'. handle_stream reference_crates demo_handler demo_peer demo_h2 blocked_state
      = (Inr \<lparr>h2r_status = 429, h2r_headers = hs, h2r_body = ''Too Many Requests''\<rparr>, st')
    \<and> map fst hs = [''server'', ''content-length'', ''retry-after'', ''content-type'']"
proof -
  let ?hs = "[(''Content-Length'', show_nat (length ''Too Many Requests'')), (''Retry-After'', ''3600''), (''Content-Type'', ''text/plain'')]"
  have "is_blocked (hv_now demo_handler) (hc_scan blocked_state) (sa_ip demo_peer)"
    by (simp add: blocked_state_def is_blocked_def scan_config_of_def default_config_def new_record_def)
  then obtain st' where h: "handle demo_handler (h1_request demo_h2 ''hi'') demo_peer True blocked_state = (blocked_result, st')"
    by (simp add: handle_def dispatch_def Let_def)
  have b: "collect_body (h2_chunks demo_h2) [] = Inr ''hi''" by (simp add: demo_h2_def)
  have r: "hr_bytes (blocked_result :: nat handler_result) = format_response 429 ?hs False ''Too Many Requests''"
    by (simp add: blocked_result_def plain_result_def Let_def)
  have ok: "list_all field_ok ?hs" "distinct (''server'' # map (to_ascii_lowercase \<circ> fst) ?hs)"
    and kept: "filter (\<lambda>(n, v). \<not> dropped_response_header n) ((''Server'', ''RunNginx/'' @ PKG_VERSION) # ?hs)
      = (''Server'', ''RunNginx/'' @ PKG_VERSION) # ?hs"
    by code_simp+
  have names: "map (\<lambda>(n, v). to_ascii_lowercase n) ((''Server'', ''RunNginx/'' @ PKG_VERSION) # ?hs)
      = [''server'', ''content-length'', ''retry-after'', ''content-type'']"
    by code_simp
  have "handle_stream reference_crates demo_handler demo_peer demo_h2 blocked_state
      = (Inr \<lparr>h2r_status = 429, h2r_headers = map (\<lambda>(n, v). (to_ascii_lowercase n, v)) ((''Server'', ''RunNginx/'' @ PKG_VERSION) # ?hs),
           h2r_body = ''Too Many Requests''\<rparr>, st')"
    using h2_response_same [OF reference_crates_ok b h r _ _ ok(1) _ ok(2)] unfolding kept by simp
  moreover have "map fst (map (\<lambda>(n, v). (to_ascii_lowercase n, v)) hs) = map (\<lambda>(n, v). to_ascii_lowercase n) hs" for hs :: "(string \<times> string) list"
    by auto
  ultimately show ?thesis using names by metis
qed

end
