(* ===== verification/Scan_Report.thy ===== *)
theory Scan_Report
  imports Scan_Detector Http_Parse Access_Log Host_Env Rust_Bytes
begin

text \<open>
  The reports of the scan detector (\<open>src/scan_detector/mod.rs\<close>): the \<open>curl\<close> command that tells AbuseIPDB
  about a blocked client, and how often it is run. \<open>alnum\<close> is \<open>char::is_alphanumeric\<close> for the
  characters beyond ASCII.
\<close>

section \<open>The command\<close>

text \<open>The code point of one character.\<close>

definition code_point :: "string \<Rightarrow> nat" where
  "code_point u =
     (case map ascii_code u of
        [a] \<Rightarrow> a
      | [a, b] \<Rightarrow> (a mod 32) * 64 + b mod 64
      | [a, b, c] \<Rightarrow> (a mod 16) * 4096 + (b mod 64) * 64 + c mod 64
      | [a, b, c, d] \<Rightarrow> (a mod 8) * 262144 + (b mod 64) * 4096 + (c mod 64) * 64 + d mod 64
      | _ \<Rightarrow> 0)"

definition encode_char :: "(string \<Rightarrow> bool) \<Rightarrow> string \<Rightarrow> string" where
  "encode_char alnum u =
     (if u = '' '' then ''+''
      else if (case u of [c] \<Rightarrow> is_ascii_alphanumeric c \<or> c \<in> set ''._-~'' | _ \<Rightarrow> alnum u) then u
      else percent_encode_char (byte (code_point u)))"

text \<open>The characters of a text, which is valid UTF-8.\<close>

function utf8_chars :: "string \<Rightarrow> string list" where
  "utf8_chars s =
     (if s = [] then []
      else (case utf8_head s of Inl n \<Rightarrow> take n s # utf8_chars (drop n s) | Inr n \<Rightarrow> take n s # utf8_chars (drop n s)))"
  by pat_completeness auto
termination by (relation "measure length") (auto dest: utf8_head_pos)

declare utf8_chars.simps [simp del]

definition urlencodecomment :: "(string \<Rightarrow> bool) \<Rightarrow> string \<Rightarrow> string" where
  "urlencodecomment alnum s = concat (map (encode_char alnum) (utf8_chars s))"

definition report_comment :: "nat \<Rightarrow> string" where
  "report_comment confidence =
     ''Automated HTTP scan/probe detection by RunNginx (score='' @ show_nat confidence @ ''/100). ''
     @ ''Multiple known vulnerability probe paths, high 4xx rate, or excessive request volume.''"

definition report_body :: "(string \<Rightarrow> bool) \<Rightarrow> string \<Rightarrow> nat \<Rightarrow> string" where
  "report_body alnum ip score =
     (let confidence = min score 100
      in ''ip='' @ ip @ ''&categories=14,21&comment='' @ urlencodecomment alnum (report_comment confidence)
         @ ''&confidence='' @ show_nat confidence)"

text \<open>What the command prints is only logged.\<close>

definition report_to_abuseipdb :: "host_env \<Rightarrow> (string \<Rightarrow> bool) \<Rightarrow> string \<Rightarrow> string \<Rightarrow> nat \<Rightarrow> unit host" where
  "report_to_abuseipdb env alnum ip api_key score =
     host_ignore (host_run env ''curl''
       [''-s'', ''-X'', ''POST'', ''https://api.abuseipdb.com/api/v2/report'',
        ''-H'', ''Key: '' @ api_key, ''-H'', ''Accept: application/json'',
        ''-H'', ''Content-Type: application/x-www-form-urlencoded'', ''-d'', report_body alnum ip score])"

text \<open>A request that is recorded, with the report it leads to.\<close>

definition record_and_report ::
    "host_env \<Rightarrow> (string \<Rightarrow> bool) \<Rightarrow> rounding \<Rightarrow> nat \<times> string \<times> nat \<Rightarrow> ip_addr \<Rightarrow> scan_detector \<Rightarrow> (bool \<times> scan_detector) host" where
  "record_and_report env alnum rnd req ip d =
     (case scan_record rnd req d ip of
        (blocked, d', reports) \<Rightarrow>
          host_then
            (host_each (\<lambda>(ip, score). report_to_abuseipdb env alnum (show_ip ip)
               (case sn_abuseipdb_key (sd_config d) of None \<Rightarrow> [] | Some k \<Rightarrow> k) score) reports)
            (\<lambda>_. host_ok (blocked, d')))"

section \<open>Reading the form\<close>

text \<open>How a server reads such a form: fields at the ampersands, a blank for a plus, percent decoding.\<close>

definition form_value :: "string \<Rightarrow> string" where
  "form_value s = simd_percent_decode (map (\<lambda>c. if c = CHR ''+'' then CHR '' '' else c) s)"

definition form_fields :: "string \<Rightarrow> (string \<times> string) list" where
  "form_fields body = map (\<lambda>f. (takeWhile (\<lambda>c. c \<noteq> CHR ''='') f, form_value (tl (dropWhile (\<lambda>c. c \<noteq> CHR ''='') f)))) (split_on (CHR ''&'') body)"

abbreviation ascii :: "string \<Rightarrow> bool" where
  "ascii \<equiv> list_all (\<lambda>c. ascii_code c < 128)"

lemma utf8_chars_ascii: "ascii s \<Longrightarrow> utf8_chars s = map (\<lambda>c. [c]) s"
proof (induction s)
  case (Cons c s)
  then have "utf8_head (c # s) = Inr 1" by (simp add: utf8_head_def byte_in_def)
  then show ?case using Cons by (simp add: utf8_chars.simps [of "c # s"])
qed (simp add: utf8_chars.simps)

lemma hex_digit_plain: "n < 16 \<Longrightarrow> hex_digit n \<notin> {CHR ''+'', CHR ''&'', CHR ''=''}"
proof -
  assume "n < 16"
  then have "hex_nibble (hex_digit n) = Some n" by (rule hex_nibble_digit)
  moreover have "hex_nibble (CHR ''+'') = None" by (simp add: hex_nibble_def u8_of_def)
  moreover have "hex_nibble (CHR ''&'') = None" by (simp add: hex_nibble_def u8_of_def)
  moreover have "hex_nibble (CHR ''='') = None" by (simp add: hex_nibble_def u8_of_def)
  ultimately show ?thesis by (metis insertE singletonD option.distinct(1))
qed

text \<open>A character that is kept is not one the form gives a meaning.\<close>

lemma plain_char: "is_ascii_alphanumeric c \<or> c \<in> set ''._-~'' \<Longrightarrow> c \<notin> {CHR ''+'', CHR ''&'', CHR ''='', CHR ''%''}"
  by (auto simp: is_ascii_alphanumeric_def is_ascii_digit_def ascii_code_def)

lemma encode_char_ascii:
  "ascii_code c < 128 \<Longrightarrow> form_value (encode_char alnum [c] @ s) = c # form_value s \<and> CHR ''&'' \<notin> set (encode_char alnum [c])"
proof -
  assume c: "ascii_code c < 128"
  let ?sub = "\<lambda>c. if c = CHR ''+'' then CHR '' '' else c"
  have code: "byte (code_point [c]) = c" by (simp add: code_point_def)
  note hex = hex_digit_plain [OF nibble_less(1), of "u8_of c"] hex_digit_plain [OF nibble_less(2), of "u8_of c"]
  have keep: "simd_percent_decode (x # t) = x # simd_percent_decode t" if "x \<noteq> CHR ''%''" for x t
    using that by (cases t rule: list.exhaust; cases "tl t") auto
  consider "c = CHR '' ''" | "is_ascii_alphanumeric c \<or> c \<in> set ''._-~''" "c \<noteq> CHR '' ''"
    | "\<not> (is_ascii_alphanumeric c \<or> c \<in> set ''._-~'')" "c \<noteq> CHR '' ''" by blast
  then show ?thesis
  proof cases
    case 1
    then show ?thesis by (simp add: encode_char_def form_value_def keep)
  next
    case 2
    then have "encode_char alnum [c] = [c]" by (simp add: encode_char_def)
    then show ?thesis using plain_char [OF 2(1)] by (auto simp: form_value_def keep)
  next
    case 3
    then have e: "encode_char alnum [c] = percent_encode_char c" by (simp add: encode_char_def code)
    have "map ?sub (percent_encode_char c) = percent_encode_char c" using hex by (auto simp: percent_encode_char_def)
    then show ?thesis
      using hex percent_decode_encode_char [of c "map ?sub s"] by (auto simp: e form_value_def percent_encode_char_def)
  qed
qed

lemma urlencode_ascii:
  assumes "ascii s"
  shows "form_value (urlencodecomment alnum s) = s" "CHR ''&'' \<notin> set (urlencodecomment alnum s)"
  using assms encode_char_ascii by (induction s) (auto simp: urlencodecomment_def utf8_chars_ascii form_value_def [of "[]"])

text \<open>Addresses and numbers hold no character of the syntax of a form.\<close>

definition address_char :: "char \<Rightarrow> bool" where
  "address_char c \<longleftrightarrow> is_ascii_alphanumeric c \<or> c = CHR '':'' \<or> c = CHR ''.''"

lemma address_char_plain: "address_char c \<Longrightarrow> c \<notin> {CHR ''+'', CHR ''&'', CHR ''='', CHR ''%''}"
  using plain_char [of c] by (auto simp: address_char_def)

lemma show_nat_address: "list_all address_char (show_nat n)"
  using show_nat_digits [of n] by (auto simp: list_all_iff address_char_def is_ascii_alphanumeric_def)

lemma hex_char_address: "n < 16 \<Longrightarrow> address_char (hex_char n)"
  by (auto simp: hex_char_def digit_char_def address_char_def is_ascii_alphanumeric_def is_ascii_digit_def ascii_code_def)

lemma show_hex_address: "list_all address_char (show_hex n)"
proof (induction n rule: show_hex.induct)
  case (1 n)
  then show ?case by (simp add: show_hex.simps [of n] hex_char_address)
qed

lemma join_groups_address: "list_all address_char (join_groups gs)"
  using show_hex_address by (auto simp: join_groups_def list_all_iff address_char_def)

lemma show_ip_address: "list_all address_char (show_ip ip)"
proof -
  have v4: "list_all address_char (show_v4 w)" for w
    using show_nat_address by (auto simp: show_v4_def Let_def list_all_iff address_char_def)
  have "is_ascii_alphanumeric (CHR ''f'')" by (simp add: is_ascii_alphanumeric_def ascii_code_def)
  then have "list_all address_char (show_v6 gs)" for gs
    using v4 join_groups_address by (auto simp: show_v6_def Let_def list_all_iff address_char_def split: prod.split)
  with v4 show ?thesis by (cases ip) simp_all
qed

lemma form_value_plain:
  assumes "list_all address_char s"
  shows "form_value s = s"
proof -
  have "map (\<lambda>c. if c = CHR ''+'' then CHR '' '' else c) s = s"
    using assms address_char_plain by (intro map_idI) (auto simp: list_all_iff)
  moreover have "CHR ''%'' \<notin> set s" using assms address_char_plain by (auto simp: list_all_iff)
  ultimately show ?thesis by (simp add: form_value_def percent_decode_plain)
qed

lemma form_fields_Cons:
  assumes "CHR ''='' \<notin> set k" "CHR ''&'' \<notin> set k" "CHR ''&'' \<notin> set v"
  shows "form_fields (k @ ''='' @ v @ ''&'' @ rest) = (k, form_value v) # form_fields rest"
    and "form_fields (k @ ''='' @ v) = [(k, form_value v)]"
proof -
  have t: "takeWhile (\<lambda>c. c \<noteq> CHR ''='') (k @ CHR ''='' # v) = k" "dropWhile (\<lambda>c. c \<noteq> CHR ''='') (k @ CHR ''='' # v) = CHR ''='' # v"
    using assms(1) by (auto simp: takeWhile_append dropWhile_append)
  have "CHR ''&'' \<notin> set (k @ CHR ''='' # v)" using assms(2,3) by simp
  note sp = split_on_append [OF this, of rest] split_on_none [OF this]
  show "form_fields (k @ ''='' @ v @ ''&'' @ rest) = (k, form_value v) # form_fields rest"
    using sp(1) t by (simp add: form_fields_def)
  show "form_fields (k @ ''='' @ v) = [(k, form_value v)]" using sp(2) t by (simp add: form_fields_def)
qed

lemma report_comment_ascii: "ascii (report_comment n)"
proof -
  have "ascii (show_nat n)" using show_nat_digits [of n] by (auto simp: list_all_iff is_ascii_digit_def)
  moreover have "ascii ''Automated HTTP scan/probe detection by RunNginx (score=''" "ascii ''/100). ''"
    "ascii ''Multiple known vulnerability probe paths, high 4xx rate, or excessive request volume.''"
    by (simp_all add: ascii_code_def)
  ultimately show ?thesis unfolding report_comment_def by (simp only: list_all_append)
qed

section \<open>How often\<close>

text \<open>The times at which a report about a client is sent while requests are recorded.\<close>

fun report_times :: "rounding \<Rightarrow> ip_addr \<Rightarrow> scan_detector \<Rightarrow> ((nat \<times> string \<times> nat) \<times> ip_addr) list \<Rightarrow> nat list" where
  "report_times rnd ip d [] = []"
| "report_times rnd ip d ((req, who) # rs) =
     (case scan_record rnd req d who of
        (_, d', reports) \<Rightarrow> (if ip \<in> fst ` set reports then [fst req] else []) @ report_times rnd ip d' rs)"

definition last_report :: "scan_detector \<Rightarrow> ip_addr \<Rightarrow> nat option" where
  "last_report d ip = (case sd_tracker d ip of None \<Rightarrow> None | Some r \<Rightarrow> ir_last_reported r)"

lemma count_request_last: "ir_last_reported (count_request cfg now path status r) = ir_last_reported r"
  by (simp add: count_request_def reset_window_def Let_def)

lemma scan_record_reports:
  assumes "scan_record rnd (now, path, status) d who = (b, d', reports)"
  shows "ip \<in> fst ` set reports \<Longrightarrow> who = ip \<and> last_report d' ip = Some now
      \<and> (case last_report d ip of None \<Rightarrow> True | Some t \<Rightarrow> nanos 86400 \<le> now - t)"
    and "ip \<notin> fst ` set reports \<Longrightarrow> last_report d' ip = last_report d ip"
  using assms
  by (auto simp: scan_record_def Let_def last_report_def count_request_last new_record_def
      split: if_splits option.splits)

lemma report_times_spacing:
  "(case last_report d ip of None \<Rightarrow> True | Some t \<Rightarrow> list_all (\<lambda>u. nanos 86400 \<le> u - t) (report_times rnd ip d rs))
   \<and> sorted_wrt (\<lambda>t u. nanos 86400 \<le> u - t) (report_times rnd ip d rs)"
proof (induction rs arbitrary: d)
  case (Cons r rs)
  obtain now path status who where r: "r = ((now, path, status), who)" by (cases r; cases "fst r") auto
  obtain b d' reports where s: "scan_record rnd (now, path, status) d who = (b, d', reports)"
    by (cases "scan_record rnd (now, path, status) d who") auto
  have times: "report_times rnd ip d (r # rs) = (if ip \<in> fst ` set reports then [now] else []) @ report_times rnd ip d' rs"
    by (simp add: r s)
  note IH = Cons.IH [of d']
  show ?case
  proof (cases "ip \<in> fst ` set reports")
    case True
    have later: "nanos 86400 \<le> u - t" if "nanos 86400 \<le> now - t" "nanos 86400 \<le> u - now" for u t
      using that by (simp add: nanos_def)
    have "last_report d' ip = Some now" "case last_report d ip of None \<Rightarrow> True | Some t \<Rightarrow> nanos 86400 \<le> now - t"
      using scan_record_reports(1) [OF s True] by simp_all
    then show ?thesis
      using IH True later unfolding times by (auto simp: list_all_iff split: option.splits)
  next
    case False
    then show ?thesis using scan_record_reports(2) [OF s False] IH False unfolding times by (cases "last_report d ip") simp_all
  qed
qed (simp split: option.split)

section \<open>Properties\<close>

text \<open>The form that is sent reads as exactly four fields: the address, the categories, the comment and the
  confidence, which is the score up to 100.\<close>

theorem report_form_exact:
  "form_fields (report_body alnum (show_ip ip) score)
   = [(''ip'', show_ip ip), (''categories'', ''14,21''), (''comment'', report_comment (min score 100)),
      (''confidence'', show_nat (min score 100))]"
proof -
  have amp: "CHR ''&'' \<notin> set s" if "list_all address_char s" for s
    using that address_char_plain by (auto simp: list_all_iff)
  note ip = amp [OF show_ip_address [of ip]] form_value_plain [OF show_ip_address [of ip]]
  note n = amp [OF show_nat_address [of "min score 100"]] form_value_plain [OF show_nat_address [of "min score 100"]]
  have c: "form_value ''14,21'' = ''14,21''" by (simp add: form_value_def percent_decode_plain)
  let ?rest2 = "''comment'' @ ''='' @ urlencodecomment alnum (report_comment (min score 100)) @ ''&'' @ ''confidence'' @ ''='' @ show_nat (min score 100)"
  have "report_body alnum (show_ip ip) score
      = ''ip'' @ ''='' @ show_ip ip @ ''&'' @ ''categories'' @ ''='' @ ''14,21'' @ ''&'' @ ?rest2"
    by (simp add: report_body_def Let_def)
  then show ?thesis
    using form_fields_Cons(1) [of "''ip''" "show_ip ip"] form_fields_Cons(1) [of "''categories''" "''14,21''"]
      form_fields_Cons(1) [of "''comment''" "urlencodecomment alnum (report_comment (min score 100))"]
      form_fields_Cons(2) [of "''confidence''" "show_nat (min score 100)"]
      ip n c urlencode_ascii [OF report_comment_ascii]
    by (simp del: append.simps)
qed

text \<open>As long as nothing is collected, the reports about a client are at least a day apart.\<close>

theorem reports_a_day_apart:
  "sorted_wrt (\<lambda>t u. nanos 86400 \<le> u - t) (report_times rnd ip d rs)"
  using report_times_spacing by blast

text \<open>The collection forgets a client with the time of its last report: after it, the client is reported again.\<close>

lemma collection_forgets_report:
  assumes "sd_tracker d ip = Some r" "\<not> (case ir_blocked_until r of Some e \<Rightarrow> now < e | None \<Rightarrow> False)"
    and "nanos (sn_window_secs (sd_config d) * 3 mod 2 ^ 64) \<le> now - ir_window_start r"
  shows "last_report (scan_gc now d) ip = None"
  using assms by (auto simp: last_report_def scan_gc_def)

end
