(* ===== verification/Atomics.thy ===== *)
theory Atomics
  imports Stats "HOL-Library.Multiset"
begin

text \<open>
  Requests that run at the same time. The counters of \<open>src/stats/mod.rs\<close> are atomics that tasks change
  without a lock, so a request is not one step for them but a sequence of atomic additions, between
  which other requests go on. The threads of this theory are such sequences; a step runs the next
  operation of one of them. Where the operations commute, all schedules lead to the state in which
  the requests are handled one after the other, which is how the rest of the model describes them.
\<close>

section \<open>Schedules\<close>

inductive thread_step :: "('op \<Rightarrow> 's \<Rightarrow> 's) \<Rightarrow> 'op list list \<times> 's \<Rightarrow> 'op list list \<times> 's \<Rightarrow> bool" for act where
  Thread: "i < length ts \<Longrightarrow> ts ! i = a # as \<Longrightarrow> thread_step act (ts, s) (ts[i := as], act a s)"

inductive_cases thread_stepE: "thread_step act (ts, s) c"

definition finished :: "'op list list \<Rightarrow> 'op list list" where
  "finished ts = replicate (length ts) []"

lemma concat_list_update:
  "i < length ts \<Longrightarrow> concat (ts[i := xs]) = concat (take i ts) @ xs @ concat (drop (Suc i) ts)"
  by (simp add: upd_conv_take_nth_drop)

lemma concat_split: "i < length ts \<Longrightarrow> concat ts = concat (take i ts) @ ts ! i @ concat (drop (Suc i) ts)"
  using concat_list_update [of i ts "ts ! i"] by simp

lemma finished_iff: "ts = finished ts \<longleftrightarrow> concat ts = []"
  unfolding finished_def concat_eq_Nil_conv using replicate_length_same [of ts "[]"] by (metis in_set_replicate)

text \<open>Every schedule can be completed.\<close>

lemma schedule_completes: "\<exists>s'. (thread_step act)\<^sup>*\<^sup>* (ts, s) (finished ts, s')"
proof (induction "length (concat ts)" arbitrary: ts s)
  case 0
  then have "ts = finished ts" by (simp add: finished_iff)
  then show ?case by (metis rtranclp.rtrancl_refl)
next
  case (Suc n)
  then have "\<not> (\<forall>xs \<in> set ts. xs = [])" by (metis Zero_not_Suc concat_eq_Nil_conv list.size(3))
  then obtain i a as where i: "i < length ts" "ts ! i = a # as" by (metis in_set_conv_nth list.exhaust)
  have "n = length (concat (ts[i := as]))"
    using Suc.hyps(2) i concat_split [OF i(1)] by (simp add: concat_list_update)
  from Suc.hyps(1) [OF this] obtain s' where "(thread_step act)\<^sup>*\<^sup>* (ts[i := as], act a s) (finished (ts[i := as]), s')"
    by blast
  moreover have "finished (ts[i := as]) = finished ts" by (simp add: finished_def)
  ultimately show ?case using thread_step.Thread [OF i, of act s] by (metis converse_rtranclp_into_rtranclp)
qed

section \<open>Operations that commute\<close>

locale commuting_ops =
  fixes act :: "'op \<Rightarrow> 's \<Rightarrow> 's"
  assumes commute: "act a (act b s) = act b (act a s)"
begin

lemma fold_any_order: "mset xs = mset ys \<Longrightarrow> fold act xs s = fold act ys s"
  using fold_multiset_equiv [of xs act ys] by (auto simp: comp_def commute)

text \<open>What is still to do, done at once, leads from every state of a schedule to the same result.\<close>

lemma schedule_result:
  "(thread_step act)\<^sup>*\<^sup>* (ts, s) (ts', s')
   \<Longrightarrow> fold act (concat ts') s' = fold act (concat ts) s \<and> length ts' = length ts"
proof (induction rule: rtranclp_induct2)
  case (step ts1 s1 ts2 s2)
  from step.hyps(2) obtain i a as where i: "i < length ts1" "ts1 ! i = a # as" "ts2 = ts1[i := as]" "s2 = act a s1"
    by (auto elim: thread_stepE)
  have "mset (concat ts1) = mset (a # concat ts2)"
    using concat_split [OF i(1)] i by (simp add: concat_list_update)
  then have "fold act (concat ts1) s1 = fold act (a # concat ts2) s1" by (rule fold_any_order)
  then show ?case using step.IH i by simp
qed simp

lemma schedules_agree:
  assumes "(thread_step act)\<^sup>*\<^sup>* (ts, s) (ts1, s1)"
  shows "{s'. (thread_step act)\<^sup>*\<^sup>* (ts1, s1) (finished ts, s')} = {fold act (concat ts) s}"
proof -
  have all: "s' = fold act (concat ts) s" if "(thread_step act)\<^sup>*\<^sup>* (ts1, s1) (finished ts, s')" for s'
    using schedule_result [OF that] schedule_result [OF assms] by (simp add: finished_def concat_replicate_trivial)
  have "finished ts1 = finished ts" using schedule_result [OF assms] by (simp add: finished_def)
  then obtain s' where "(thread_step act)\<^sup>*\<^sup>* (ts1, s1) (finished ts, s')" using schedule_completes [of act ts1 s1] by metis
  with all show ?thesis by blast
qed

end

section \<open>The counters\<close>

datatype counter = Requests_Total | Bytes_Sent | Bytes_Received | Active | Status_2xx | Status_3xx
  | Status_4xx | Status_5xx | Bucket nat

fun bump :: "counter \<times> nat \<Rightarrow> stats \<Rightarrow> stats" where
  "bump (Requests_Total, n) s = s\<lparr>st_requests_total := fetch_add (st_requests_total s) n\<rparr>"
| "bump (Bytes_Sent, n) s = s\<lparr>st_bytes_sent := fetch_add (st_bytes_sent s) n\<rparr>"
| "bump (Bytes_Received, n) s = s\<lparr>st_bytes_received := fetch_add (st_bytes_received s) n\<rparr>"
| "bump (Active, n) s = s\<lparr>st_active := fetch_add (st_active s) n\<rparr>"
| "bump (Status_2xx, n) s = s\<lparr>st_2xx := fetch_add (st_2xx s) n\<rparr>"
| "bump (Status_3xx, n) s = s\<lparr>st_3xx := fetch_add (st_3xx s) n\<rparr>"
| "bump (Status_4xx, n) s = s\<lparr>st_4xx := fetch_add (st_4xx s) n\<rparr>"
| "bump (Status_5xx, n) s = s\<lparr>st_5xx := fetch_add (st_5xx s) n\<rparr>"
| "bump (Bucket b, n) s =
     s\<lparr>st_latency_buckets := (st_latency_buckets s)[b := fetch_add (st_latency_buckets s ! b) n]\<rparr>"

lemma fetch_add_twice: "fetch_add (fetch_add c m) n = fetch_add (fetch_add c n) m"
  by (simp add: fetch_add_def mod_add_left_eq) (simp add: ac_simps)

lemma bucket_twice:
  "(xs[b := fetch_add (xs ! b) m])[c := fetch_add (xs[b := fetch_add (xs ! b) m] ! c) n]
   = (xs[c := fetch_add (xs ! c) n])[b := fetch_add (xs[c := fetch_add (xs ! c) n] ! b) m]"
proof (cases "b = c")
  case True
  then show ?thesis by (cases "c < length xs") (simp_all add: fetch_add_twice list_update_beyond)
next
  case False
  then show ?thesis by (simp add: list_update_swap)
qed

interpretation counters: commuting_ops bump
proof
  fix a b :: "counter \<times> nat" and s
  obtain c m d n where "a = (c, m)" "b = (d, n)" by (cases a; cases b)
  then show "bump a (bump b s) = bump b (bump a s)"
    by (cases c; cases d) (simp_all add: fetch_add_twice bucket_twice)
qed

text \<open>The additions of \<open>record_request\<close> in the order of the code, and those of a request: it is active,
  then no longer, then recorded. Subtracting one is adding \<open>2 ^ 64 - 1\<close>.\<close>

definition record_ops :: "nat \<Rightarrow> nat \<Rightarrow> nat \<Rightarrow> nat \<Rightarrow> (counter \<times> nat) list" where
  "record_ops status bytes_out bytes_in micros =
     [(Requests_Total, 1), (Bytes_Sent, bytes_out), (Bytes_Received, bytes_in)]
     @ (if status div 100 = 2 then [(Status_2xx, 1)]
        else if status div 100 = 3 then [(Status_3xx, 1)]
        else if status div 100 = 4 then [(Status_4xx, 1)]
        else if status div 100 = 5 then [(Status_5xx, 1)]
        else [])
     @ [(Bucket (latency_bucket (micros mod 2 ^ 64)), 1)]"

lemma record_ops_request: "fold bump (record_ops status out inn us) s = record_request status out inn us s"
  by (simp add: record_ops_def record_request_def Let_def)

definition request_ops :: "nat \<times> nat \<times> nat \<times> nat \<Rightarrow> (counter \<times> nat) list" where
  "request_ops = (\<lambda>(status, out, inn, us). [(Active, 1), (Active, 2 ^ 64 - 1)] @ record_ops status out inn us)"

lemma request_ops_request:
  assumes "st_active s < 2 ^ 64"
  shows "fold bump (request_ops (status, out, inn, us)) s = record_request status out inn us s"
proof -
  have "fetch_add (fetch_add (st_active s) 1) (2 ^ 64 - 1) = st_active s"
    using assms by (simp add: fetch_add_def mod_add_left_eq)
  then show ?thesis by (simp add: request_ops_def record_ops_request)
qed

lemma fold_requests:
  "st_active s < 2 ^ 64 \<Longrightarrow> fold bump (concat (map request_ops reqs)) s
   = fold (\<lambda>(status, out, inn, us). record_request status out inn us) reqs s"
proof (induction reqs arbitrary: s)
  case (Cons r reqs)
  obtain status out inn us where r: "r = (status, out, inn, us)" by (cases r)
  have "st_active (record_request status out inn us s) = st_active s" by (simp add: record_request_def Let_def)
  then show ?case using Cons by (simp add: r request_ops_request)
qed simp

section \<open>Properties\<close>

text \<open>C40: requests are handled at the same time and their additions to the counters are interleaved in any
  way. From wherever the schedule has come to, it can be completed, and however it is completed, the
  counters are those of handling the requests one after the other.\<close>

theorem concurrent_requests_counted:
  assumes "(thread_step bump)\<^sup>*\<^sup>* (map request_ops reqs, s) (ts, s1)" "st_active s < 2 ^ 64"
  shows "{s'. (thread_step bump)\<^sup>*\<^sup>* (ts, s1) (finished (map request_ops reqs), s')}
    = {fold (\<lambda>(status, out, inn, us). record_request status out inn us) reqs s}"
  using counters.schedules_agree [OF assms(1)] fold_requests [OF assms(2), of reqs] by simp

theorem concurrent_requests_counted_witness:
  "{s'. (thread_step bump)\<^sup>*\<^sup>* ([tl (request_ops (200, 5, 3, 7)), request_ops (404, 1, 1, 1)], bump (Active, 1) new_stats)
         (finished (map request_ops [(200, 5, 3, 7), (404, 1, 1, 1)]), s')}
   = {record_request 404 1 1 1 (record_request 200 5 3 7 new_stats)}"
proof -
  let ?r = "[(200, 5, 3, 7), (404, 1, 1, 1)] :: (nat \<times> nat \<times> nat \<times> nat) list"
  have "thread_step bump (map request_ops ?r, new_stats) ((map request_ops ?r)[0 := tl (request_ops (200, 5, 3, 7))], bump (Active, 1) new_stats)"
    by (rule thread_step.Thread) (simp_all add: request_ops_def)
  then have "(thread_step bump)\<^sup>*\<^sup>* (map request_ops ?r, new_stats)
      ([tl (request_ops (200, 5, 3, 7)), request_ops (404, 1, 1, 1)], bump (Active, 1) new_stats)"
    by (intro r_into_rtranclp) simp
  from concurrent_requests_counted [OF this] show ?thesis by (simp add: new_stats_def)
qed

end
