(* ===== verification/Ring_Pool.thy ===== *)
theory Ring_Pool
  imports Platform Steps "HOL-Library.Multiset"
begin

text \<open>
  The worker threads of \<open>src/ioring/mod.rs\<close>: a bounded queue in front of at most four threads, each
  with a ring of its own. Callers put requests into the queue or read the file themselves when
  there is no room; a thread whose ring cannot be set up goes away, and when the last one is gone
  the queue is dropped with what is in it. The threads and the callers are steps of one relation;
  \<open>pl_asked\<close> records what was asked for, request \<open>i\<close> being the one at position \<open>i\<close>.
\<close>

datatype worker = Starting | Waiting | Reading nat string | Gone

record worker_pool =
  pl_queue :: "(nat \<times> string) list"
  pl_workers :: "worker list"
  pl_answers :: "nat \<rightharpoonup> string + string"
  pl_asked :: "string list"

definition QUEUE_BOUND :: nat where "QUEUE_BOUND = 512"

definition init_pool :: "nat \<Rightarrow> worker_pool" where
  "init_pool cpus = \<lparr>pl_queue = [], pl_workers = replicate (min cpus 4) Starting, pl_answers = Map.empty, pl_asked = []\<rparr>"

text \<open>The receiver of the queue lives as long as a thread that has it.\<close>

definition pool_alive :: "worker_pool \<Rightarrow> bool" where
  "pool_alive pl \<longleftrightarrow> list_ex (\<lambda>w. w \<noteq> Gone) (pl_workers pl)"

definition queue_state :: "worker_pool \<Rightarrow> io_pool" where
  "queue_state pl = (if \<not> pool_alive pl then No_Pool else if length (pl_queue pl) < QUEUE_BOUND then Pool_Takes else Pool_Full)"

definition too_large :: "io_env \<Rightarrow> string \<Rightarrow> bool" where
  "too_large env path \<longleftrightarrow> (case io_meta env path of Inl e \<Rightarrow> False | Inr n \<Rightarrow> MAX_IORING_FILE_BYTES < n)"

text \<open>A call of \<open>read_file\<close> up to the point where it waits, if it has to.\<close>

definition ask_file :: "io_env \<Rightarrow> string \<Rightarrow> worker_pool \<Rightarrow> worker_pool" where
  "ask_file env path pl =
     (let i = length (pl_asked pl); pl' = pl\<lparr>pl_asked := pl_asked pl @ [path]\<rparr>
      in if too_large env path \<or> queue_state pl \<noteq> Pool_Takes
         then pl'\<lparr>pl_answers := (pl_answers pl)(i \<mapsto> io_fs_read env path)\<rparr>
         else pl'\<lparr>pl_queue := pl_queue pl @ [(i, path)]\<rparr>)"

text \<open>A thread without a ring ends; with the last one the queue is dropped, and those who wait for an
  answer from it get an error.\<close>

definition ring_fails :: "nat \<Rightarrow> worker_pool \<Rightarrow> worker_pool" where
  "ring_fails w pl =
     (let pl' = pl\<lparr>pl_workers := (pl_workers pl)[w := Gone]\<rparr>
      in if pool_alive pl' then pl'
         else pl'\<lparr>pl_queue := [],
                  pl_answers := fold (\<lambda>(i, _) m. m(i \<mapsto> Inl ''io_uring pool gone'')) (pl_queue pl) (pl_answers pl)\<rparr>)"

text \<open>What the running threads do, and everything that can happen.\<close>

inductive worker_step :: "io_env \<Rightarrow> worker_pool \<Rightarrow> worker_pool \<Rightarrow> bool" for env where
  Take: "w < length (pl_workers pl) \<Longrightarrow> pl_workers pl ! w = Waiting \<Longrightarrow> pl_queue pl = (i, path) # q
    \<Longrightarrow> worker_step env pl (pl\<lparr>pl_queue := q, pl_workers := (pl_workers pl)[w := Reading i path]\<rparr>)"
| Answer: "w < length (pl_workers pl) \<Longrightarrow> pl_workers pl ! w = Reading i path
    \<Longrightarrow> worker_step env pl (pl\<lparr>pl_workers := (pl_workers pl)[w := Waiting],
          pl_answers := (pl_answers pl)(i \<mapsto> read_file_uring env path)\<rparr>)"

inductive pool_step :: "io_env \<Rightarrow> worker_pool \<Rightarrow> worker_pool \<Rightarrow> bool" for env where
  Work: "worker_step env pl pl' \<Longrightarrow> pool_step env pl pl'"
| Ask: "pool_step env pl (ask_file env path pl)"
| Ring_Up: "w < length (pl_workers pl) \<Longrightarrow> pl_workers pl ! w = Starting
    \<Longrightarrow> pool_step env pl (pl\<lparr>pl_workers := (pl_workers pl)[w := Waiting]\<rparr>)"
| Ring_Fails: "w < length (pl_workers pl) \<Longrightarrow> pl_workers pl ! w = Starting \<Longrightarrow> pool_step env pl (ring_fails w pl)"

section \<open>The invariant\<close>

text \<open>What a thread is busy with, and everything that waits for an answer.\<close>

fun busy_with :: "worker \<Rightarrow> (nat \<times> string) list" where
  "busy_with (Reading i path) = [(i, path)]"
| "busy_with _ = []"

definition waiting_requests :: "worker_pool \<Rightarrow> (nat \<times> string) list" where
  "waiting_requests pl = pl_queue pl @ concat (map busy_with (pl_workers pl))"

definition waiting_ok :: "io_env \<Rightarrow> string list \<Rightarrow> nat \<times> string \<Rightarrow> bool" where
  "waiting_ok env asked = (\<lambda>(i, path). i < length asked \<and> asked ! i = path \<and> \<not> too_large env path)"

text \<open>An answer is what \<open>read_file\<close> returns, for a queue that took the request or had no room, and for one
  that was dropped only if all threads are gone.\<close>

definition answer_ok :: "io_env \<Rightarrow> bool \<Rightarrow> string list \<Rightarrow> nat \<Rightarrow> string + string \<Rightarrow> bool" where
  "answer_ok env alive asked i r \<longleftrightarrow>
     r = read_file env Pool_Takes (asked ! i) \<or> r = read_file env Pool_Full (asked ! i)
     \<or> \<not> alive \<and> r = read_file env Pool_Gone (asked ! i)"

definition pool_ok :: "io_env \<Rightarrow> worker_pool \<Rightarrow> bool" where
  "pool_ok env pl \<longleftrightarrow>
     length (pl_queue pl) \<le> QUEUE_BOUND
     \<and> (pool_alive pl \<or> pl_queue pl = [])
     \<and> distinct (map fst (waiting_requests pl))
     \<and> list_all (waiting_ok env (pl_asked pl)) (waiting_requests pl)
     \<and> dom (pl_answers pl) = {..<length (pl_asked pl)} - fst ` set (waiting_requests pl)
     \<and> (\<forall>i r. pl_answers pl i = Some r \<longrightarrow> answer_ok env (pool_alive pl) (pl_asked pl) i r)"

lemma busy_update:
  "w < length ws \<Longrightarrow> mset (concat (map busy_with (ws[w := x]))) + mset (busy_with (ws ! w))
     = mset (concat (map busy_with ws)) + mset (busy_with x)"
proof -
  assume w: "w < length ws"
  then have ws: "ws = take w ws @ ws ! w # drop (Suc w) ws" by (rule id_take_nth_drop)
  have "concat (map busy_with (ws[w := x])) = concat (map busy_with (take w ws)) @ busy_with x @ concat (map busy_with (drop (Suc w) ws))"
    using w by (simp add: upd_conv_take_nth_drop)
  moreover have "concat (map busy_with ws) = concat (map busy_with (take w ws)) @ busy_with (ws ! w) @ concat (map busy_with (drop (Suc w) ws))"
    by (subst ws) simp
  ultimately show ?thesis by simp
qed

lemma distinct_mset: "mset xs = mset ys \<Longrightarrow> distinct (map f xs) \<longleftrightarrow> distinct (map f ys)"
  by (rule mset_eq_imp_distinct_iff) simp

text \<open>The invariant looks at the waiting requests only up to their order.\<close>

lemma pool_ok_waiting:
  assumes "pool_ok env pl" "mset (waiting_requests pl') = mset (waiting_requests pl)"
    and "pl_answers pl' = pl_answers pl" "pl_asked pl' = pl_asked pl" "pool_alive pl' \<longleftrightarrow> pool_alive pl"
    and "length (pl_queue pl') \<le> length (pl_queue pl)"
  shows "pool_ok env pl'"
proof -
  have "set (waiting_requests pl') = set (waiting_requests pl)" using assms(2) by (rule mset_eq_setD)
  then show ?thesis
    using assms(1,3-6) distinct_mset [OF assms(2), of fst]
    unfolding pool_ok_def list_all_iff by auto
qed

lemma alive_worker: "w < length (pl_workers pl) \<Longrightarrow> pl_workers pl ! w \<noteq> Gone \<Longrightarrow> pool_alive pl"
  by (auto simp: pool_alive_def list_ex_iff)

lemma answer_ok_append: "i < length asked \<Longrightarrow> answer_ok env a (asked @ [p]) i r = answer_ok env a asked i r"
  by (simp add: answer_ok_def nth_append)

lemma read_file_taken: "\<not> too_large env path \<Longrightarrow> read_file env Pool_Takes path = read_file_uring env path"
  "\<not> too_large env path \<Longrightarrow> read_file env Pool_Gone path = Inl ''io_uring pool gone''"
  "read_file env Pool_Full path = io_fs_read env path"
  "too_large env path \<Longrightarrow> read_file env Pool_Takes path = io_fs_read env path"
  by (simp_all add: read_file_def too_large_def)

lemma worker_step_ok: "worker_step env pl pl' \<Longrightarrow> pool_ok env pl \<Longrightarrow> pool_ok env pl'"
proof (induction rule: worker_step.induct)
  case (Take w pl i path q)
  let ?pl = "pl\<lparr>pl_queue := q, pl_workers := (pl_workers pl)[w := Reading i path]\<rparr>"
  have "pool_alive ?pl = pool_alive pl"
    using alive_worker [of w ?pl] alive_worker [of w pl] Take.hyps by simp
  moreover have "mset (waiting_requests ?pl) = mset (waiting_requests pl)"
    using busy_update [OF Take.hyps(1), of "Reading i path"] Take.hyps(2,3) by (simp add: waiting_requests_def)
  ultimately show ?case by (intro pool_ok_waiting [OF Take.prems]) (simp_all add: Take.hyps(3))
next
  case (Answer w pl i path)
  let ?pl = "pl\<lparr>pl_workers := (pl_workers pl)[w := Waiting], pl_answers := (pl_answers pl)(i \<mapsto> read_file_uring env path)\<rparr>"
  have al: "pool_alive pl" "pool_alive ?pl"
    using alive_worker [of w ?pl] alive_worker [of w pl] Answer.hyps by simp_all
  have "mset (waiting_requests pl) = mset ((i, path) # waiting_requests ?pl)"
    using busy_update [OF Answer.hyps(1), of Waiting] Answer.hyps(2) by (simp add: waiting_requests_def)
  then have w: "distinct (map fst (waiting_requests pl)) = distinct (map fst ((i, path) # waiting_requests ?pl))"
    "set (waiting_requests pl) = set ((i, path) # waiting_requests ?pl)"
    using distinct_mset mset_eq_setD by blast+
  have ok: "i < length (pl_asked pl)" "pl_asked pl ! i = path" "\<not> too_large env path"
    using Answer.prems w(2) by (auto simp: pool_ok_def list_all_iff waiting_ok_def)
  show ?case
    using Answer.prems w ok al unfolding pool_ok_def list_all_iff
    by (auto simp: answer_ok_def read_file_taken)
qed

lemma waiting_ok_append: "waiting_ok env asked x \<Longrightarrow> waiting_ok env (asked @ [p]) x"
  by (auto simp: waiting_ok_def nth_append)

lemma ask_file_ok:
  assumes "pool_ok env pl"
  shows "pool_ok env (ask_file env path pl)"
proof (cases "too_large env path \<or> queue_state pl \<noteq> Pool_Takes")
  case True
  let ?n = "length (pl_asked pl)"
  have below: "i < ?n" if "pl_answers pl i = Some r" for i r
    using assms that by (auto simp: pool_ok_def)
  have "answer_ok env (pool_alive pl) (pl_asked pl @ [path]) ?n (io_fs_read env path)"
    using read_file_taken(3) by (simp add: answer_ok_def)
  moreover have "?n \<notin> fst ` set (waiting_requests pl)"
    using assms by (auto simp: pool_ok_def list_all_iff waiting_ok_def)
  moreover have "ask_file env path pl = pl\<lparr>pl_asked := pl_asked pl @ [path], pl_answers := (pl_answers pl)(?n \<mapsto> io_fs_read env path)\<rparr>"
    using True by (simp add: ask_file_def Let_def)
  ultimately show ?thesis
    using assms below waiting_ok_append
    by (auto simp: pool_ok_def list_all_iff waiting_requests_def pool_alive_def answer_ok_append less_Suc_eq)
next
  case False
  let ?n = "length (pl_asked pl)"
  have a: "ask_file env path pl = pl\<lparr>pl_asked := pl_asked pl @ [path], pl_queue := pl_queue pl @ [(?n, path)]\<rparr>"
    using False by (simp add: ask_file_def Let_def)
  have st: "pool_alive pl" "length (pl_queue pl) < QUEUE_BOUND" "\<not> too_large env path"
    using False by (auto simp: queue_state_def split: if_splits)
  have below: "i < ?n" if "pl_answers pl i = Some r" for i r
    using assms that by (auto simp: pool_ok_def)
  have "?n \<notin> fst ` set (waiting_requests pl)"
    using assms by (auto simp: pool_ok_def list_all_iff waiting_ok_def)
  then show ?thesis
    unfolding a using assms below st waiting_ok_append
    by (auto simp: pool_ok_def list_all_iff waiting_requests_def pool_alive_def answer_ok_append waiting_ok_def nth_append)
qed

lemma dropped_answers:
  "fold (\<lambda>(i, _) m. m(i \<mapsto> r)) q m = (\<lambda>i. if i \<in> fst ` set q then Some r else m i)"
  by (induction q arbitrary: m) (auto simp: fun_eq_iff)

lemma busy_gone: "\<not> list_ex (\<lambda>w. w \<noteq> Gone) ws \<Longrightarrow> concat (map busy_with ws) = []"
  by (induction ws) auto

lemma ring_fails_ok:
  assumes "pool_ok env pl" "w < length (pl_workers pl)" "pl_workers pl ! w = Starting"
  shows "pool_ok env (ring_fails w pl)"
proof -
  let ?pl = "pl\<lparr>pl_workers := (pl_workers pl)[w := Gone]\<rparr>"
  have m: "mset (waiting_requests ?pl) = mset (waiting_requests pl)"
    using busy_update [OF assms(2), of Gone] assms(3) by (simp add: waiting_requests_def)
  have was: "pool_alive pl" using alive_worker [OF assms(2)] assms(3) by simp
  show ?thesis
  proof (cases "pool_alive ?pl")
    case True
    then show ?thesis using pool_ok_waiting [OF assms(1) m] was by (simp add: ring_fails_def Let_def)
  next
    case False
    then have none: "concat (map busy_with ((pl_workers pl)[w := Gone])) = []"
      by (intro busy_gone) (simp add: pool_alive_def)
    then have q: "set (waiting_requests pl) = set (pl_queue pl)"
      using mset_eq_setD [OF m] by (simp add: waiting_requests_def)
    have gone: "answer_ok env False (pl_asked pl) i (Inl ''io_uring pool gone'')" if "(i, p) \<in> set (pl_queue pl)" for i p
      using assms(1) that q read_file_taken(2) by (auto simp: pool_ok_def list_all_iff waiting_ok_def answer_ok_def)
    have weaker: "answer_ok env b asked i r \<Longrightarrow> answer_ok env False asked i r" for b asked i r
      by (auto simp: answer_ok_def)
    have old: "answer_ok env False (pl_asked pl) i r" if "pl_answers pl i = Some r" for i r
      using assms(1) that weaker unfolding pool_ok_def by blast
    have f: "ring_fails w pl = ?pl\<lparr>pl_queue := [],
        pl_answers := \<lambda>i. if i \<in> fst ` set (pl_queue pl) then Some (Inl ''io_uring pool gone'') else pl_answers pl i\<rparr>"
      using False by (simp add: ring_fails_def Let_def dropped_answers)
    have al: "\<not> pool_alive (ring_fails w pl)" using False unfolding f by (simp add: pool_alive_def)
    have wt: "waiting_requests (ring_fails w pl) = []" using none unfolding f by (simp add: waiting_requests_def)
    have d: "dom (pl_answers pl) \<union> fst ` set (pl_queue pl) = {..<length (pl_asked pl)}"
      using assms(1) q by (auto simp: pool_ok_def list_all_iff waiting_ok_def)
    have "\<forall>i r. pl_answers (ring_fails w pl) i = Some r \<longrightarrow> answer_ok env False (pl_asked pl) i r"
      using old gone unfolding f by auto
    moreover have "dom (pl_answers (ring_fails w pl)) = {..<length (pl_asked pl)}"
      using d unfolding f by (auto simp: dom_def split: if_splits)
    moreover have "pl_asked (ring_fails w pl) = pl_asked pl" "pl_queue (ring_fails w pl) = []" unfolding f by simp_all
    ultimately show ?thesis by (simp add: pool_ok_def wt al)
  qed
qed

lemma pool_step_ok: "pool_step env pl pl' \<Longrightarrow> pool_ok env pl \<Longrightarrow> pool_ok env pl'"
proof (induction rule: pool_step.induct)
  case (Ring_Up w pl)
  let ?pl = "pl\<lparr>pl_workers := (pl_workers pl)[w := Waiting]\<rparr>"
  have "mset (waiting_requests ?pl) = mset (waiting_requests pl)"
    using busy_update [OF Ring_Up.hyps(1), of Waiting] Ring_Up.hyps(2) by (simp add: waiting_requests_def)
  moreover have "pool_alive ?pl = pool_alive pl"
    using alive_worker [of w ?pl] alive_worker [of w pl] Ring_Up.hyps by simp
  ultimately show ?case by (intro pool_ok_waiting [OF Ring_Up.prems]) simp_all
qed (simp_all add: worker_step_ok ask_file_ok ring_fails_ok)

lemma init_pool_ok: "pool_ok env (init_pool cpus)"
proof -
  have "concat (map busy_with (replicate n Starting)) = []" for n by (induction n) simp_all
  then show ?thesis by (simp add: pool_ok_def init_pool_def waiting_requests_def)
qed

interpretation ring_pool: invariant_steps "pool_step env" "pool_ok env" for env
  by unfold_locales (rule pool_step_ok)

section \<open>Every request is answered\<close>

definition pool_work :: "worker_pool \<Rightarrow> nat" where
  "pool_work pl = 2 * length (pl_queue pl) + length (concat (map busy_with (pl_workers pl)))"

text \<open>A thread that has its ring.\<close>

definition pool_up :: "worker_pool \<Rightarrow> bool" where
  "pool_up pl \<longleftrightarrow> list_ex (\<lambda>w. w \<noteq> Starting \<and> w \<noteq> Gone) (pl_workers pl)"

lemma busy_length:
  "w < length ws \<Longrightarrow> length (concat (map busy_with (ws[w := x]))) + length (busy_with (ws ! w))
     = length (concat (map busy_with ws)) + length (busy_with x)"
  using arg_cong [OF busy_update, where f = size, of w ws x] by simp

lemma pool_up_worker: "w < length (pl_workers pl) \<Longrightarrow> pl_workers pl ! w \<noteq> Starting \<Longrightarrow> pl_workers pl ! w \<noteq> Gone \<Longrightarrow> pool_up pl"
  by (auto simp: pool_up_def list_ex_iff)

lemma worker_step_work:
  "worker_step env pl pl' \<Longrightarrow> pool_work pl = Suc (pool_work pl') \<and> pl_asked pl' = pl_asked pl \<and> pool_up pl'"
proof (induction rule: worker_step.induct)
  case (Take w pl i path q)
  then show ?case
    using busy_length [of w "pl_workers pl" "Reading i path"] by (auto simp: pool_work_def intro!: pool_up_worker [of w])
next
  case (Answer w pl i path)
  then show ?case
    using busy_length [of w "pl_workers pl" Waiting] by (auto simp: pool_work_def intro!: pool_up_worker [of w])
qed

lemma worker_progress:
  assumes "pool_up pl" "0 < pool_work pl"
  shows "\<exists>pl'. worker_step env pl pl'"
proof (cases "\<exists>w i path. w < length (pl_workers pl) \<and> pl_workers pl ! w = Reading i path")
  case True
  then show ?thesis using worker_step.Answer by blast
next
  case False
  then have "busy_with x = []" if "x \<in> set (pl_workers pl)" for x
    using that by (cases x) (auto simp: in_set_conv_nth)
  then have "concat (map busy_with (pl_workers pl)) = []" by simp
  then obtain i path q where q: "pl_queue pl = (i, path) # q"
    using assms(2) by (cases "pl_queue pl") (auto simp: pool_work_def simp del: concat_eq_Nil_conv)
  obtain w where "w < length (pl_workers pl)" "pl_workers pl ! w \<noteq> Starting" "pl_workers pl ! w \<noteq> Gone"
    using assms(1) by (auto simp: pool_up_def list_ex_iff in_set_conv_nth)
  with False have "pl_workers pl ! w = Waiting" "w < length (pl_workers pl)" by (cases "pl_workers pl ! w"; blast)+
  then show ?thesis using worker_step.Take [OF _ _ q] by blast
qed

lemma workers_finish:
  "pool_up pl \<Longrightarrow> \<exists>pl'. (worker_step env ^^ pool_work pl) pl pl' \<and> pool_work pl' = 0 \<and> pl_asked pl' = pl_asked pl \<and> pool_up pl'"
proof (induction "pool_work pl" arbitrary: pl)
  case 0
  then show ?case by (intro exI [of _ pl]) simp
next
  case (Suc n)
  then obtain pl1 where step: "worker_step env pl pl1" using worker_progress [of pl env] by auto
  note w = worker_step_work [OF step]
  then have "n = pool_work pl1" using Suc.hyps(2) by simp
  from Suc.hyps(1) [OF this] w obtain pl' where "(worker_step env ^^ pool_work pl1) pl1 pl'" "pool_work pl' = 0"
    "pl_asked pl' = pl_asked pl1" "pool_up pl'" by blast
  moreover have "(worker_step env ^^ pool_work pl) pl pl'"
    using relpowp_Suc_I2 [where P = "worker_step env" and n = "pool_work pl1", OF step] calculation(1) w by simp
  ultimately show ?case using w by auto
qed

lemma no_work_answered:
  assumes "pool_ok env pl" "pool_work pl = 0"
  shows "dom (pl_answers pl) = {..<length (pl_asked pl)}"
  using assms by (simp add: pool_ok_def pool_work_def waiting_requests_def)

section \<open>Properties\<close>



text \<open>When no ring can be set up, a request that came before the last thread ended gets an error, although
  the file could be read without a ring, as it is for the next request.\<close>

lemma request_lost_at_start:
  assumes "\<not> too_large env path"
  shows "pl_answers (ring_fails 0 (ask_file env path (init_pool 1))) 0 = Some (Inl ''io_uring pool gone'')"
    and "pl_answers (ask_file env path (ring_fails 0 (init_pool 1))) 0 = Some (io_fs_read env path)"
  using assms
  by (simp_all add: ask_file_def ring_fails_def init_pool_def queue_state_def pool_alive_def QUEUE_BOUND_def Let_def)

end
