(* ===== verification/Acme.thy ===== *)
theory Acme
  imports Handler
begin

text \<open>
  The ACME client, \<open>src/acme/mod.rs\<close>: obtaining a certificate by HTTP-01 challenges. The authority and
  the crates that speak to it are the parameter \<open>acme_env\<close>, whose answers depend on the calls made so
  far; files are on the host of \<open>Host_Env\<close>. The choice between the staging and the production
  directory belongs to the authority, and the context added to error texts is left out. What the store held for its tokens is what the handler
  serves meanwhile.
\<close>

section \<open>State and environment\<close>

datatype auth_status = Auth_Valid | Auth_Invalid | Auth_Other

datatype order_status = Order_Ready | Order_Valid | Order_Invalid | Order_Other

record acme_challenge =
  ac_http01 :: bool
  ac_token :: string
  ac_url :: string

record acme_auth =
  aa_identifier :: string
  aa_status :: auth_status
  aa_challenges :: "acme_challenge list"

datatype acme_call =
    New_Order "string list"
  | Get_Authorizations
  | Challenge_Ready string
  | Refresh_Order
  | Finalize_Order
  | Get_Certificate
  | Sleep

record acme_config =
  am_domains :: "string list"
  am_email :: string
  am_cert_path :: string
  am_key_path :: string
  am_account_path :: string

record acme_env =
  av_host :: host_env
  av_age :: "string \<Rightarrow> nat option option"
  av_restore :: "string \<Rightarrow> string + unit"
  av_create :: "string \<Rightarrow> string + string"
  av_order :: "acme_call list \<Rightarrow> string option"
  av_auths :: "acme_call list \<Rightarrow> string + acme_auth list"
  av_key_auth :: "string \<Rightarrow> string"
  av_ready :: "acme_call list \<Rightarrow> string option"
  av_status :: "acme_call list \<Rightarrow> order_status"
  av_refresh :: "acme_call list \<Rightarrow> string option"
  av_csr :: "string list \<Rightarrow> string + string"
  av_finalize :: "acme_call list \<Rightarrow> string option"
  av_certificate :: "acme_call list \<Rightarrow> string + string option"

record acme_state =
  as_store :: "string \<Rightarrow> string option"
  as_calls :: "acme_call list"
  as_trace :: trace
  as_reloads :: nat

type_synonym 'a acme = "acme_state \<Rightarrow> (string + 'a) \<times> acme_state"

definition MAX_POLL_ATTEMPTS :: nat where "MAX_POLL_ATTEMPTS = 30"
definition RENEW_AFTER_DAYS :: nat where "RENEW_AFTER_DAYS = 60"

definition acme_then :: "'a acme \<Rightarrow> ('a \<Rightarrow> 'b acme) \<Rightarrow> 'b acme" where
  "acme_then m f st = (case m st of (Inl e, st) \<Rightarrow> (Inl e, st) | (Inr x, st) \<Rightarrow> f x st)"

definition acme_ok :: "'a \<Rightarrow> 'a acme" where
  "acme_ok x st = (Inr x, st)"

definition acme_err :: "string \<Rightarrow> 'a acme" where
  "acme_err e st = (Inl e, st)"

text \<open>A call to the authority: its answer is that after the call.\<close>

definition call_authority :: "acme_call \<Rightarrow> (acme_call list \<Rightarrow> string + 'a) \<Rightarrow> 'a acme" where
  "call_authority c answer st = (answer (as_calls st @ [c]), st\<lparr>as_calls := as_calls st @ [c]\<rparr>)"

definition fails :: "(acme_call list \<Rightarrow> string option) \<Rightarrow> acme_call list \<Rightarrow> string + unit" where
  "fails f calls = (case f calls of None \<Rightarrow> Inr () | Some e \<Rightarrow> Inl e)"

definition store_token :: "string \<Rightarrow> string \<Rightarrow> unit acme" where
  "store_token token key_auth st = (Inr (), st\<lparr>as_store := set_challenge token key_auth (as_store st)\<rparr>)"

definition drop_token :: "string \<Rightarrow> unit acme" where
  "drop_token token st = (Inr (), st\<lparr>as_store := remove_challenge token (as_store st)\<rparr>)"

definition on_files :: "'a host \<Rightarrow> 'a acme" where
  "on_files m st = (case m (as_trace st) of (r, tr) \<Rightarrow> (r, st\<lparr>as_trace := tr\<rparr>))"

section \<open>When a certificate is renewed\<close>

text \<open>\<open>av_age\<close> is the age of the file in seconds: \<open>None\<close> when there are no metadata, \<open>Some None\<close> when
  they have no usable time.\<close>

definition needs_renewal :: "acme_env \<Rightarrow> trace \<Rightarrow> string \<Rightarrow> bool" where
  "needs_renewal env tr cert_path \<longleftrightarrow>
     (if \<not> he_exists (av_host env) tr cert_path then True
      else case av_age env cert_path of
             None \<Rightarrow> True
           | Some None \<Rightarrow> True
           | Some (Some secs) \<Rightarrow> RENEW_AFTER_DAYS \<le> secs div 86400)"

section \<open>The account\<close>

definition create_parent :: "host_env \<Rightarrow> string \<Rightarrow> unit host" where
  "create_parent env path =
     (case path_parent path of None \<Rightarrow> host_ok () | Some p \<Rightarrow> host_do env (Create_Dir_All p))"

definition load_or_create_account :: "acme_env \<Rightarrow> string \<Rightarrow> string \<Rightarrow> unit host" where
  "load_or_create_account env path email =
     host_then (host_get (\<lambda>tr. he_exists (av_host env) tr path)) (\<lambda>there.
     if there then
       host_then (host_get (\<lambda>tr. he_read (av_host env) tr path)) (\<lambda>data.
         case data of
           None \<Rightarrow> host_err ''reading account file''
         | Some d \<Rightarrow> (case av_restore env d of Inl e \<Rightarrow> host_err e | Inr _ \<Rightarrow> host_ok ()))
     else
       case av_create env (''mailto:'' @ email) of
         Inl e \<Rightarrow> host_err e
       | Inr creds \<Rightarrow>
           host_then (create_parent (av_host env) path) (\<lambda>_. host_do (av_host env) (Write_File path creds)))"

section \<open>Authorizations\<close>

text \<open>The loop over the attempts, by how many are left: waiting until the authorization is valid.\<close>

fun poll :: "acme_env \<Rightarrow> string \<Rightarrow> string \<Rightarrow> nat \<Rightarrow> unit acme" where
  "poll env ident token 0 = acme_ok ()"
| "poll env ident token (Suc left) =
     acme_then (call_authority Sleep (\<lambda>_. Inr ())) (\<lambda>_.
     acme_then (call_authority Get_Authorizations (av_auths env)) (\<lambda>updated_auths.
     case find (\<lambda>a. aa_identifier a = ident) updated_auths of
       None \<Rightarrow> acme_err ''authorization not found in refresh''
     | Some updated \<Rightarrow>
         (case aa_status updated of
            Auth_Valid \<Rightarrow> acme_ok ()
          | Auth_Invalid \<Rightarrow> acme_then (drop_token token) (\<lambda>_. acme_err (''ACME: validation failed for '' @ ident))
          | Auth_Other \<Rightarrow>
              if left = 0
              then acme_then (drop_token token) (\<lambda>_. acme_err (''ACME: validation timed out for '' @ ident))
              else poll env ident token left)))"

definition authorize :: "acme_env \<Rightarrow> acme_auth \<Rightarrow> unit acme" where
  "authorize env auth =
     (if aa_status auth = Auth_Valid then acme_ok ()
      else case find ac_http01 (aa_challenges auth) of
             None \<Rightarrow> acme_err ''no HTTP-01 challenge offered''
           | Some challenge \<Rightarrow>
               acme_then (store_token (ac_token challenge) (av_key_auth env (ac_token challenge))) (\<lambda>_.
               acme_then (call_authority (Challenge_Ready (ac_url challenge)) (fails (av_ready env))) (\<lambda>_.
               acme_then (poll env (aa_identifier auth) (ac_token challenge) MAX_POLL_ATTEMPTS) (\<lambda>_.
               drop_token (ac_token challenge)))))"

fun authorize_each :: "acme_env \<Rightarrow> acme_auth list \<Rightarrow> unit acme" where
  "authorize_each env [] = acme_ok ()"
| "authorize_each env (a # as') = acme_then (authorize env a) (\<lambda>_. authorize_each env as')"

section \<open>The order\<close>

fun wait_ready :: "acme_env \<Rightarrow> nat \<Rightarrow> unit acme" where
  "wait_ready env 0 st = acme_ok () st"
| "wait_ready env (Suc left) st =
     (case av_status env (as_calls st) of
        Order_Ready \<Rightarrow> acme_ok () st
      | Order_Valid \<Rightarrow> acme_ok () st
      | Order_Invalid \<Rightarrow> acme_err ''ACME order invalid'' st
      | Order_Other \<Rightarrow>
          if left = 0 then acme_err ''ACME order timed out'' st
          else acme_then (call_authority Sleep (\<lambda>_. Inr ())) (\<lambda>_.
               acme_then (call_authority Refresh_Order (fails (av_refresh env))) (\<lambda>_. wait_ready env left)) st)"

text \<open>Waiting for the certificate has no bound: \<open>None\<close> is never returning.\<close>

partial_function (option) download :: "acme_env \<Rightarrow> acme_state \<Rightarrow> ((string + string) \<times> acme_state) option" where
  "download env st =
     (case call_authority Get_Certificate (av_certificate env) st of
        (Inl e, st) \<Rightarrow> Some (Inl e, st)
      | (Inr (Some pem), st) \<Rightarrow> Some (Inr pem, st)
      | (Inr None, st) \<Rightarrow> download env (snd (call_authority Sleep (\<lambda>_. Inr ()) st)))"

definition save_certificate :: "acme_env \<Rightarrow> acme_config \<Rightarrow> string \<Rightarrow> string \<Rightarrow> unit host" where
  "save_certificate env cfg cert_pem key_pem =
     host_then (create_parent (av_host env) (am_cert_path cfg)) (\<lambda>_.
     host_then (create_parent (av_host env) (am_key_path cfg)) (\<lambda>_.
     host_then (host_do (av_host env) (Write_File (am_cert_path cfg) cert_pem)) (\<lambda>_.
     host_do (av_host env) (Write_File (am_key_path cfg) key_pem))))"

text \<open>Up to the finalized order, with the key of the request; then the download and the files.\<close>

definition place_order :: "acme_env \<Rightarrow> acme_config \<Rightarrow> string acme" where
  "place_order env cfg =
     acme_then (on_files (load_or_create_account env (am_account_path cfg) (am_email cfg))) (\<lambda>_.
     acme_then (call_authority (New_Order (am_domains cfg)) (fails (av_order env))) (\<lambda>_.
     acme_then (call_authority Get_Authorizations (av_auths env)) (\<lambda>authorizations.
     acme_then (authorize_each env authorizations) (\<lambda>_.
     acme_then (wait_ready env MAX_POLL_ATTEMPTS) (\<lambda>_.
     case av_csr env (am_domains cfg) of
       Inl e \<Rightarrow> acme_err e
     | Inr key_pem \<Rightarrow>
         acme_then (call_authority Finalize_Order (fails (av_finalize env))) (\<lambda>_. acme_ok key_pem))))))"

definition acme_run :: "acme_env \<Rightarrow> acme_config \<Rightarrow> acme_state \<Rightarrow> ((string + unit) \<times> acme_state) option" where
  "acme_run env cfg st =
     (if \<not> needs_renewal env (as_trace st) (am_cert_path cfg) then Some (Inr (), st)
      else case place_order env cfg st of
             (Inl e, st) \<Rightarrow> Some (Inl e, st)
           | (Inr key_pem, st) \<Rightarrow>
               (case download env st of
                  None \<Rightarrow> None
                | Some (Inl e, st) \<Rightarrow> Some (Inl e, st)
                | Some (Inr cert_pem, st) \<Rightarrow>
                    (case on_files (save_certificate env cfg cert_pem key_pem) st of
                       (Inl e, st) \<Rightarrow> Some (Inl e, st)
                     | (Inr _, st) \<Rightarrow> Some (Inr (), st\<lparr>as_reloads := Suc (as_reloads st)\<rparr>))))"

section \<open>The store\<close>

named_theorems acme_simps \<open>the steps of the client\<close>

lemmas [acme_simps] = acme_ok_def acme_err_def call_authority_def store_token_def drop_token_def

lemma acme_then_Inr:
  "acme_then m f st = (Inr y, st') \<longleftrightarrow> (\<exists>x st1. m st = (Inr x, st1) \<and> f x st1 = (Inr y, st'))"
  by (auto simp: acme_then_def split: prod.splits sum.splits)

text \<open>Steps that, when they succeed, leave the store as it was.\<close>

definition keeps_store :: "'a acme \<Rightarrow> bool" where
  "keeps_store m \<longleftrightarrow> (\<forall>st x st'. m st = (Inr x, st') \<longrightarrow> as_store st' = as_store st \<and> as_reloads st' = as_reloads st)"

lemma keeps_then: "keeps_store m \<Longrightarrow> (\<And>x. keeps_store (f x)) \<Longrightarrow> keeps_store (acme_then m f)"
  unfolding keeps_store_def acme_then_Inr by metis

lemma keeps_basic:
  "keeps_store (acme_ok x)" "keeps_store (acme_err e)" "keeps_store (call_authority c answer)" "keeps_store (on_files m)"
  by (auto simp: keeps_store_def acme_simps on_files_def split: prod.splits)

lemma keeps_err_then: "keeps_store (acme_then m (\<lambda>_. acme_err e))"
  by (simp add: keeps_store_def acme_then_Inr acme_err_def)

lemmas keeps_rules = keeps_basic keeps_err_then keeps_then

lemma keeps_poll: "keeps_store (poll env ident token n)"
proof (induction n)
  case (Suc n)
  then show ?case
    by (auto intro!: keeps_rules split: option.split auth_status.split)
qed (simp add: keeps_store_def acme_ok_def)

lemma keeps_wait: "keeps_store (wait_ready env n)"
proof (induction n)
  case 0
  show ?case by (simp add: keeps_store_def acme_ok_def)
next
  case (Suc n)
  have "keeps_store (acme_then (call_authority Sleep (\<lambda>_. Inr ())) (\<lambda>_.
      acme_then (call_authority Refresh_Order (fails (av_refresh env))) (\<lambda>_. wait_ready env n)))"
    by (intro keeps_rules Suc)
  then show ?case
    by (auto simp: keeps_store_def acme_ok_def acme_err_def split: order_status.splits if_splits)
qed

text \<open>An authorization that succeeds leaves the store without its token.\<close>

lemma authorize_store:
  assumes "authorize env auth st = (Inr x, st')"
  shows "as_store st' \<subseteq>\<^sub>m as_store st \<and> as_reloads st' = as_reloads st"
proof (cases "aa_status auth = Auth_Valid")
  case True
  then show ?thesis using assms by (simp add: authorize_def acme_ok_def)
next
  case False
  then obtain c where c: "find ac_http01 (aa_challenges auth) = Some c"
    using assms by (cases "find ac_http01 (aa_challenges auth)") (auto simp: authorize_def acme_err_def)
  let ?st1 = "st\<lparr>as_store := set_challenge (ac_token c) (av_key_auth env (ac_token c)) (as_store st)\<rparr>"
  let ?m = "acme_then (call_authority (Challenge_Ready (ac_url c)) (fails (av_ready env)))
      (\<lambda>_. poll env (aa_identifier auth) (ac_token c) MAX_POLL_ATTEMPTS)"
  have "acme_then ?m (\<lambda>_. drop_token (ac_token c)) ?st1 = (Inr x, st')"
    using assms False c
    by (simp add: authorize_def acme_then_def store_token_def split: prod.splits sum.splits)
  then obtain y st2 where m: "?m ?st1 = (Inr y, st2)" "drop_token (ac_token c) st2 = (Inr x, st')"
    unfolding acme_then_Inr [of ?m] by blast
  have "keeps_store ?m" by (intro keeps_rules keeps_poll)
  then have "as_store st2 = as_store ?st1" "as_reloads st2 = as_reloads ?st1" using m(1) unfolding keeps_store_def by blast+
  then show ?thesis using m(2) by (auto simp: drop_token_def remove_challenge_def set_challenge_def map_le_def split: if_splits)
qed

lemma authorize_each_store:
  "authorize_each env auths st = (Inr x, st') \<Longrightarrow> as_store st' \<subseteq>\<^sub>m as_store st \<and> as_reloads st' = as_reloads st"
proof (induction auths arbitrary: st)
  case (Cons a auths)
  then obtain y st1 where s: "authorize env a st = (Inr y, st1)" "authorize_each env auths st1 = (Inr x, st')"
    by (auto simp: acme_then_Inr)
  show ?case using authorize_store [OF s(1)] Cons.IH [OF s(2)] map_le_trans by metis
qed (simp add: acme_ok_def)

lemma place_order_store:
  assumes "place_order env cfg st = (Inr key, st')"
  shows "as_store st' \<subseteq>\<^sub>m as_store st \<and> as_reloads st' = as_reloads st"
proof -
  let ?first = "acme_then (on_files (load_or_create_account env (am_account_path cfg) (am_email cfg)))
       (\<lambda>_. acme_then (call_authority (New_Order (am_domains cfg)) (fails (av_order env)))
       (\<lambda>_. call_authority Get_Authorizations (av_auths env)))"
  let ?fin = "\<lambda>_. case av_csr env (am_domains cfg) of Inl e \<Rightarrow> acme_err e
     | Inr key_pem \<Rightarrow> acme_then (call_authority Finalize_Order (fails (av_finalize env))) (\<lambda>_. acme_ok key_pem)"
  obtain st0 auths st1 u where a:
    "?first st = (Inr auths, st0)"
    "authorize_each env auths st0 = (Inr u, st1)"
    "acme_then (wait_ready env MAX_POLL_ATTEMPTS) ?fin st1 = (Inr key, st')"
    using assms unfolding place_order_def acme_then_Inr by blast
  have "keeps_store ?first" by (intro keeps_rules)
  then have "as_store st0 = as_store st \<and> as_reloads st0 = as_reloads st"
    using a(1) unfolding keeps_store_def by blast
  moreover have "keeps_store (?fin x)" for x by (auto intro!: keeps_rules split: sum.split)
  then have "keeps_store (acme_then (wait_ready env MAX_POLL_ATTEMPTS) ?fin)" by (intro keeps_then keeps_wait)
  then have "as_store st' = as_store st1 \<and> as_reloads st' = as_reloads st1"
    using a(3) unfolding keeps_store_def by blast
  ultimately show ?thesis using authorize_each_store [OF a(2)] by simp
qed

section \<open>The download\<close>

lemma download_store_aux:
  "download env st = Some r \<Longrightarrow> as_store (snd r) = as_store st \<and> as_reloads (snd r) = as_reloads st"
proof (rule download.raw_induct [where P = "\<lambda>env st r. as_store (snd r) = as_store st \<and> as_reloads (snd r) = as_reloads st"])
  fix download env st y
  assume IH: "\<And>env st y. download env st = Some y \<Longrightarrow> as_store (snd y) = as_store st \<and> as_reloads (snd y) = as_reloads st"
    and step: "(case call_authority Get_Certificate (av_certificate env) st of
        (Inl e, st) \<Rightarrow> Some (Inl e, st)
      | (Inr (Some pem), st) \<Rightarrow> Some (Inr pem, st)
      | (Inr None, st) \<Rightarrow> download env (snd (call_authority Sleep (\<lambda>_. Inr ()) st))) = Some y"
  show "as_store (snd y) = as_store st \<and> as_reloads (snd y) = as_reloads st"
    using step IH [of env "snd (call_authority Sleep (\<lambda>_. Inr ()) (st\<lparr>as_calls := as_calls st @ [Get_Certificate]\<rparr>))" y]
    by (auto simp: call_authority_def split: sum.splits option.splits)
qed

lemma download_store:
  "download env st = Some (r, st') \<Longrightarrow> as_store st' = as_store st \<and> as_reloads st' = as_reloads st"
  using download_store_aux by fastforce

text \<open>The calls of \<open>k\<close> rounds of waiting.\<close>

definition rounds :: "nat \<Rightarrow> acme_call list" where
  "rounds k = concat (replicate k [Get_Certificate, Sleep])"

lemma download_returns:
  "av_certificate env (as_calls st @ rounds k @ [Get_Certificate]) \<noteq> Inr None \<Longrightarrow> \<exists>r. download env st = Some r"
proof (induction k arbitrary: st)
  case 0
  then show ?case
    by (subst download.simps) (auto simp: call_authority_def rounds_def split: sum.split option.split)
next
  case (Suc k)
  show ?case
  proof (cases "av_certificate env (as_calls st @ [Get_Certificate]) = Inr None")
    case True
    let ?st = "st\<lparr>as_calls := as_calls st @ [Get_Certificate, Sleep]\<rparr>"
    have "\<exists>r. download env ?st = Some r" using Suc by (simp add: rounds_def)
    then show ?thesis using True by (subst download.simps) (simp add: call_authority_def)
  next
    case False
    then show ?thesis by (subst download.simps) (auto simp: call_authority_def split: sum.split option.split)
  qed
qed

text \<open>When the authority never gives a certificate nor an error, the client waits forever.\<close>

lemma download_never_aux:
  "download env st = Some r \<Longrightarrow> (\<forall>calls. av_certificate env calls = Inr None) \<longrightarrow> False"
proof (rule download.raw_induct [where P = "\<lambda>env st r. (\<forall>calls. av_certificate env calls = Inr None) \<longrightarrow> False"])
  fix download env st y
  assume IH: "\<And>env st y. download env st = Some y \<Longrightarrow> (\<forall>calls. av_certificate env calls = Inr None) \<longrightarrow> False"
    and step: "(case call_authority Get_Certificate (av_certificate env) st of
        (Inl e, st) \<Rightarrow> Some (Inl e, st)
      | (Inr (Some pem), st) \<Rightarrow> Some (Inr pem, st)
      | (Inr None, st) \<Rightarrow> download env (snd (call_authority Sleep (\<lambda>_. Inr ()) st))) = Some y"
  show "(\<forall>calls. av_certificate env calls = Inr None) \<longrightarrow> False"
  proof
    assume c: "\<forall>calls. av_certificate env calls = Inr None"
    then have "\<exists>s. download env s = Some y" using step by (auto simp: call_authority_def)
    then show False using IH c by blast
  qed
qed

lemma download_never:
  assumes "\<And>calls. av_certificate env calls = Inr None"
  shows "download env st = None"
proof (cases "download env st")
  case (Some r)
  from download_never_aux [OF this] assms show ?thesis by blast
qed

section \<open>Properties\<close>

text \<open>When the client returns with success, no token of its challenges is left in the store the handler
  serves, every entry that is there was there before, and the reload was asked for once if a certificate
  was obtained and not at all if none was needed.\<close>

theorem acme_withdraws_tokens:
  assumes "acme_run env cfg st = Some (Inr (), st')"
  shows "as_store st' \<subseteq>\<^sub>m as_store st
    \<and> as_reloads st' = as_reloads st + (if needs_renewal env (as_trace st) (am_cert_path cfg) then 1 else 0)"
proof (cases "needs_renewal env (as_trace st) (am_cert_path cfg)")
  case True
  then obtain key st1 cert st2 tr where s: "place_order env cfg st = (Inr key, st1)" "download env st1 = Some (Inr cert, st2)"
    "st' = st2\<lparr>as_trace := tr, as_reloads := Suc (as_reloads st2)\<rparr>"
    using assms by (auto simp: acme_run_def on_files_def split: prod.splits sum.splits option.splits)
  then show ?thesis using place_order_store [OF s(1)] download_store [OF s(2)] True by simp
qed (use assms in \<open>simp add: acme_run_def\<close>)

text \<open>The client returns, with success or an error, whenever the authority answers the request for the
  certificate at some time: every other wait is bounded by its number of attempts.\<close>

theorem acme_returns:
  assumes "\<And>calls. \<exists>k. av_certificate env (calls @ rounds k @ [Get_Certificate]) \<noteq> Inr None"
  shows "\<exists>r st'. acme_run env cfg st = Some (r, st')"
proof -
  have d: "\<exists>r st'. download env s = Some (r, st')" for s
    using assms [of "as_calls s"] download_returns by fastforce
  show ?thesis
  proof (cases "place_order env cfg st")
    case (Pair r st1)
    obtain c st2 where "download env st1 = Some (c, st2)" using d by blast
    then show ?thesis
      using Pair by (auto simp: acme_run_def split: sum.split prod.split)
  qed
qed

definition demo_acme :: acme_env where
  "demo_acme =
     \<lparr>av_host = \<lparr>he_exists = (\<lambda>tr p. False), he_read = (\<lambda>tr p. None), he_list_dir = (\<lambda>tr p. None),
        he_do = (\<lambda>tr e. None), he_run = (\<lambda>tr c args. Inr (True, [], []))\<rparr>,
      av_age = (\<lambda>p. None), av_restore = (\<lambda>d. Inr ()), av_create = (\<lambda>m. Inr ''creds''), av_order = (\<lambda>cs. None),
      av_auths = (\<lambda>cs. Inr [\<lparr>aa_identifier = ''a.be'', aa_status = (if Sleep \<in> set cs then Auth_Valid else Auth_Other),
          aa_challenges = [\<lparr>ac_http01 = True, ac_token = ''t'', ac_url = ''u''\<rparr>]\<rparr>]),
      av_key_auth = (\<lambda>t. t @ ''.k''), av_ready = (\<lambda>cs. None), av_status = (\<lambda>cs. Order_Ready), av_refresh = (\<lambda>cs. None),
      av_csr = (\<lambda>ds. Inr ''key''), av_finalize = (\<lambda>cs. None), av_certificate = (\<lambda>cs. Inr (Some ''cert''))\<rparr>"

definition demo_acme_config :: acme_config where
  "demo_acme_config = \<lparr>am_domains = [''a.be''], am_email = ''m'', am_cert_path = ''/c/cert'', am_key_path = ''/c/key'',
     am_account_path = ''/c/account''\<rparr>"

definition demo_acme_state :: acme_state where
  "demo_acme_state = \<lparr>as_store = Map.empty, as_calls = [], as_trace = [], as_reloads = 0\<rparr>"

theorem acme_returns_witness: "\<exists>r st'. acme_run demo_acme demo_acme_config demo_acme_state = Some (r, st')"
  by (rule acme_returns) (simp add: demo_acme_def)

lemma demo_acme_download: "download demo_acme st
    = Some (Inr ''cert'', st\<lparr>as_calls := as_calls st @ [Get_Certificate]\<rparr>)"
  by (subst download.simps) (simp add: call_authority_def demo_acme_def)

lemma demo_acme_run: "\<exists>st'. acme_run demo_acme demo_acme_config demo_acme_state = Some (Inr (), st')"
proof -
  have p: "path_parent ''/c/account'' = Some ''/c''" "path_parent ''/c/cert'' = Some ''/c''" "path_parent ''/c/key'' = Some ''/c''"
    by code_simp+
  have o: "\<exists>st'. place_order demo_acme demo_acme_config demo_acme_state = (Inr ''key'', st')"
    by (simp add: place_order_def acme_then_def on_files_def load_or_create_account_def host_then_def host_get_def host_do_def
        create_parent_def p acme_simps fails_def authorize_def demo_acme_def demo_acme_config_def demo_acme_state_def
        MAX_POLL_ATTEMPTS_def numeral_eq_Suc host_ok_def)
  then obtain st1 where "place_order demo_acme demo_acme_config demo_acme_state = (Inr ''key'', st1)" by blast
  moreover have "needs_renewal demo_acme [] ''/c/cert''" by (simp add: needs_renewal_def demo_acme_def)
  moreover have "\<exists>tr. save_certificate demo_acme demo_acme_config c k t = (Inr (), tr)" for c k t
    by (simp add: save_certificate_def host_then_def host_do_def create_parent_def p demo_acme_def demo_acme_config_def)
  then obtain tr where "save_certificate demo_acme demo_acme_config ''cert'' ''key'' (as_trace st1) = (Inr (), tr)" by blast
  ultimately show ?thesis
    by (simp add: acme_run_def demo_acme_download on_files_def demo_acme_config_def demo_acme_state_def)
qed

theorem acme_withdraws_tokens_witness:
  "\<exists>st'. acme_run demo_acme demo_acme_config demo_acme_state = Some (Inr (), st') \<and> as_store st' = Map.empty"
proof -
  obtain st' where r: "acme_run demo_acme demo_acme_config demo_acme_state = Some (Inr (), st')"
    using demo_acme_run by blast
  with acme_withdraws_tokens [OF r] show ?thesis by (auto simp: demo_acme_state_def map_le_def)
qed

text \<open>When the authority cannot be told that the challenge is ready, the client returns with the error and
  leaves the token in the store.\<close>

lemma token_left_on_error:
  assumes "aa_status auth \<noteq> Auth_Valid" "find ac_http01 (aa_challenges auth) = Some c"
    and "av_ready env (as_calls st @ [Challenge_Ready (ac_url c)]) = Some e"
  shows "fst (authorize env auth st) = Inl e
    \<and> get_key_auth (as_store (snd (authorize env auth st))) (ac_token c) = Some (av_key_auth env (ac_token c))"
  using assms by (simp add: authorize_def acme_then_def acme_simps fails_def get_key_auth_def set_challenge_def)

end
