(* ===== verification/Spec2Isabelle.thy ===== *)
theory Spec2Isabelle
  imports Program Http2_Props Scan_Report Atomics Ring_Pool Acme Http_Parse Conf_Props Router Rewrite Limit_Req Upstream Cache Stats Scan_Detector Static_Files Fastcgi
    Proxy Auth Access_Log Multiuser Compression Websocket
begin

text \<open>
  A verification library for RunNginx, an HTTP server in Rust that reads nginx configuration
  files. This theory imports all the others; each of them opens with a text that says what it
  holds, and each property stands after a text with its number C1 to C40.


  The program. \<open>src/main.rs\<close> loads the configuration, builds the state all tasks share, starts a
  listener for each address and opens the firewall. A listener reads a piece of bytes, hands it to
  the handler and writes what comes back, until the connection ends. The handler parses the
  request, asks the cache, the scan detector and the request limiter, selects the server and the
  location, checks the credentials, rewrites the target, and gives the request to what the location
  says: static files, a FastCGI application, an upstream (over a pool of connections, a balanced
  group, or a websocket tunnel) or a fixed answer. Requests under \<open>/api/\<close> go to the management
  interface instead, which creates and removes sites, users and backups. Every request is then
  recorded by the statistics, the access log and the scan detector.


  Which theory models which source file.

  \<^item> Foundations: \<open>Prelude\<close> (results, strings, decimal numbers, words, the collections of rewrite
    rules), \<open>Rust_Num\<close>, \<open>Rust_Bytes\<close>, \<open>Rust_Path\<close>, \<open>Rust_Net\<close>, \<open>Rust_Float\<close>, \<open>Rust_Json\<close> (what the
    sources use of the standard library and of JSON values), \<open>Steps\<close> (invariants of step relations), \<open>Ranking\<close> (the best candidate of a list),
    \<open>Host_Env\<close> (files and commands as a trace of effects), \<open>Limiter\<close> and \<open>Conf_Block\<close> (contracts
    shared by several components).
  \<^item> \<open>Http_Limits\<close>: \<open>http/limits.rs\<close>. \<open>Simd_Scan\<close> and \<open>Http_Parse\<close>: \<open>simd/mod.rs\<close>, the CRLF searches
    on SSE2 and AVX2 registers and the request parser.
  \<^item> \<open>Config_Types\<close>: \<open>config/types.rs\<close>. \<open>Conf_Token\<close>, \<open>Conf_Helpers\<close>, \<open>Conf_Location\<close>,
    \<open>Conf_Server\<close>, \<open>Conf_Http\<close>, \<open>Conf_Root\<close>: \<open>config/parser.rs\<close>, from the tokenizer to the root block
    and the includes; \<open>Conf_Props\<close> has what holds of every configuration that is loaded.
  \<^item> \<open>Router\<close>, \<open>Rewrite\<close>, \<open>Auth\<close>, \<open>Cache\<close>, \<open>Stats\<close>, \<open>Limit_Req\<close>, \<open>Scan_Detector\<close>, \<open>Upstream\<close>,
    \<open>Multiuser\<close>, \<open>Websocket\<close>, \<open>Acme\<close>, \<open>Tls\<close>, \<open>Icmp_Guard\<close>: the module of the same name.
    \<open>Compression\<close>: \<open>http/gzip.rs\<close> and \<open>http/brotli.rs\<close>. \<open>Static_Files\<close>: \<open>server/static_files.rs\<close>.
    \<open>Access_Log\<close>: \<open>server/access_log.rs\<close>. \<open>Fastcgi\<close>: \<open>fastcgi/mod.rs\<close>. \<open>Proxy\<close>: \<open>proxy/mod.rs\<close>.
    \<open>Firewall\<close>: \<open>firewall/backend.rs\<close>. \<open>Http2\<close> and \<open>Http2_Props\<close>: \<open>http2/mod.rs\<close>. \<open>Platform\<close>:
    \<open>numa_pin.rs\<close>, \<open>xdp.rs\<close> and reading a file in \<open>ioring/mod.rs\<close>; \<open>Ring_Pool\<close>: its worker threads.
    \<open>Scan_Report\<close>: the reports of \<open>scan_detector/mod.rs\<close>. \<open>Health_Checks\<close>: the probes of
    \<open>upstream/mod.rs\<close>. \<open>Atomics\<close>: the counters of \<open>stats/mod.rs\<close> under requests that run at once.
  \<^item> \<open>Sites\<close>: \<open>api/sites.rs\<close>, with \<open>Site_Props\<close>. \<open>Api\<close>: \<open>api/mod.rs\<close>, with \<open>Api_Props\<close>.
  \<^item> \<open>Handler\<close>: \<open>server/handler.rs\<close>; \<open>Startup\<close>: the state and the listeners of \<open>main.rs\<close>;
    \<open>Listener\<close>: the request loop of \<open>server/listener.rs\<close>; \<open>Program\<close>: the rest of both, from the start of
    the process to a connection. \<open>Handler_Props\<close> and \<open>Service_Props\<close> have the properties of the
    composition.


  How the code is represented. A struct is a record and an enum a datatype, with the names of the
  source. \<open>str\<close> and \<open>&[u8]\<close> are both \<open>string\<close>: a \<open>char\<close> is a byte, and text is its UTF-8 encoding,
  so that a place where the code goes from one to the other (\<open>from_utf8_lossy\<close>, pushing a byte as
  a \<open>char\<close>) is a function of the model. A fallible operation returns \<open>error + value\<close> or an option. An
  unsigned integer is a \<open>nat\<close> with the modulus of its width written out where the code can wrap (as a
  release build does), or a word where bits matter. Floating point is computed with the rounding
  as a parameter, so that a theorem holds for every rounding unless it says otherwise. Shared
  state behind locks and atomics is state that is passed on: a request is one step, and what other
  tasks do happens between steps (the relations \<open>service_step\<close>, \<open>up_step\<close>, \<open>reg_step\<close> and
  \<open>pool_step\<close>); \<open>Atomics\<close> shows for the counters that this is no loss.

  Parameters. What is not in the repository is an argument: crates (\<open>regex\<close>, \<open>url\<close>, \<open>glob\<close>, bcrypt,
  \<open>flate2\<close> and \<open>brotli\<close>, \<open>toml\<close> and \<open>serde_json\<close>, \<open>memchr\<close>, h2 and \<open>httparse\<close>, \<open>rcgen\<close> and
  rustls, \<open>instant_acme\<close>), the file system, commands, the network and the clocks. They are the records
  \<open>conf_env\<close>, \<open>file_system\<close>, \<open>host_env\<close>, \<open>mu_env\<close>, \<open>api_env\<close>, \<open>acme_env\<close> and \<open>handler_env\<close>. A
  theorem that relies on how one behaves names it as a hypothesis (printing and parsing of the users
  file are inverse, a name that is found exists), and its witness gives an instance.


  What the lemmas show.

  \<^item> Who can do what: a request without credentials changes nothing that matters (C1, C8), a
    protected site refuses it (C3), no response depends on a file outside the document root (C2),
    the management interface touches only its own files (C7, C24), a loaded configuration has safe
    roots and checked upstreams (C9, C10), headers cannot set protected CGI parameters (C13).
  \<^item> What goes over the wire: request line and header fields (C18 to C20), forwarded requests and
    responses (C14, C25), FastCGI (C12, C26), the framing of our own responses (C15), HTTP/2 requests
    as the handler sees them (C16) and their responses as the client does (C37).
  \<^item> Optimised code against a reference: the vector searches (C6), the calendar (C36), the router
    (C28), the ring of log lines (C35), sessions (C22), counters under interleaving (C40).
  \<^item> Invariants over all reachable states: the whole service (C5), the registry (C30), connection
    counters (C32), blocks of the scan detector (C34), the token bucket over any run (C27).
  \<^item> Termination and progress: connections (C17), reads given to the worker threads (C38); beside the
    properties, an include cycle ends in an error (\<open>include_cycle_refused\<close>) and the ACME client
    returns (\<open>acme_returns\<close>).
  \<^item> The process: starting and stopping with its firewall (C39).

  Lemmas with a name that tells of a fault (\<open>proxied_body_dropped\<close>,
  \<open>certificate_overwritten\<close> and others) show behaviour of the code that its comments or its users
  would not expect.


  Interfaces. \<open>crlf_finder\<close> is what the parser needs of a CRLF search; the scalar, SSE2 and AVX2
  searches and the dispatched one provide it. \<open>block_parser\<close> is the contract between a block and its
  directives; the location, server, upstream and http blocks provide it. \<open>per_client_limiter\<close> is a
  limiter whose clients do not disturb each other; the zones, the scan detector and the limiter of
  the management interface provide it. \<open>invariant_steps\<close> is a step relation that keeps an
  invariant; the registry, the upstream group, the worker threads of \<open>ioring\<close> and the whole service
  provide it. \<open>commuting_ops\<close> is a set of atomic operations whose order does not matter; the counters
  provide it. The ranks of locations are an instance of \<open>linorder\<close>.


  Bounds and fuel. The block parsers recurse on the tokens and the tokenizer on the input, which
  both shrink; includes carry the depth counter of the code (\<open>MAX_INCLUDE_DEPTH\<close>), so that a cycle ends
  in its error. A connection is bounded by the requests left of \<open>MAX_KEEPALIVE_REQUESTS\<close>, the loops on a
  stream by the pieces that are still to come, the polls of an order by the attempts of the code.
  The download of a certificate may wait for ever and is a \<open>partial_function\<close>; \<open>acme_returns\<close> says
  when it returns. No other definition has fuel.


  Not modelled. The parser of the command line, logging to the console, the runtime, waiting for
  signals and the allocator are calls of their crates, in \<open>main.rs\<close>. The TLS handshake, the framing of
  HTTP/2, sockets and the bytes of a tunnel that is established are crates and the kernel. The web
  interface is a file that is included. Tasks are not interleaved inside a request, except for the
  counters.


  Still to do: the other shared state of a request under interleaving (the response cache and the
  connection pool).
\<close>

end
